theory Spec2Isabelle
  imports Main "HOL-Library.Word"
begin

unbundle bit_operations_syntax

chapter \<open>The PV container codec and the local object store\<close>

text \<open>
  A shallow embedding of \<^verbatim>\<open>src/lib/pv-format.ts\<close>, of the decryption worker
  (\<^verbatim>\<open>src/unnamed/part_000\<close>) and of \<^verbatim>\<open>src/lib/db.ts\<close>. Byte buffers
  (\<^verbatim>\<open>Uint8Array\<close>, \<^verbatim>\<open>ArrayBuffer\<close>, \<^verbatim>\<open>Blob\<close>) are lists of 8-bit words.
\<close>

section \<open>Definitions\<close>

subsection \<open>Typed arrays\<close>

type_synonym u8 = "8 word"
type_synonym bytes = "u8 list"

text \<open>
  Reading a \<^verbatim>\<open>Uint8Array\<close> outside its range yields \<^verbatim>\<open>undefined\<close> (here
  \<open>None\<close>); writing outside its range is ignored.
\<close>

definition ta_get :: "bytes \<Rightarrow> int \<Rightarrow> u8 option" where
  "ta_get a k = (if 0 \<le> k \<and> k < int (length a) then Some (a ! nat k) else None)"

definition ta_set :: "bytes \<Rightarrow> int \<Rightarrow> u8 \<Rightarrow> bytes" where
  "ta_set a k v = (if 0 \<le> k \<and> k < int (length a) then a[nat k := v] else a)"

text \<open>
  \<^verbatim>\<open>a[k] ^= b\<close>: the operand read is converted by ToInt32, which sends
  \<^verbatim>\<open>undefined\<close> to 0.
\<close>

definition xor_assign :: "bytes \<Rightarrow> int \<Rightarrow> u8 \<Rightarrow> bytes" where
  "xor_assign a k b = ta_set a k ((case ta_get a k of Some x \<Rightarrow> x | None \<Rightarrow> 0) XOR b)"

subsection \<open>Per-segment nonce (\<^verbatim>\<open>deriveSegmentIv\<close>)\<close>

text \<open>
  \<^verbatim>\<open>indexBytes[0] = (segmentIndex >> 24) & 0xff\<close> and so on: \<^verbatim>\<open>>>\<close> converts
  its operand to a signed 32-bit integer and shifts arithmetically.
\<close>

definition indexBytes :: "int \<Rightarrow> bytes" where
  "indexBytes segmentIndex =
     (let w = (word_of_int segmentIndex :: 32 word) in
      [ucast (signed_drop_bit 24 w AND 0xff),
       ucast (signed_drop_bit 16 w AND 0xff),
       ucast (signed_drop_bit 8 w AND 0xff),
       ucast (w AND 0xff)])"

definition deriveSegmentIv :: "bytes \<Rightarrow> int \<Rightarrow> bytes" where
  "deriveSegmentIv baseIv segmentIndex =
     (let segmentIv = baseIv; ib = indexBytes segmentIndex in
      fold (\<lambda>i iv. xor_assign iv (int (length iv) - 4 + int i) (ib ! i)) [0..<4] segmentIv)"

text \<open>
  The specification's wording, for comparison with the code: the big-endian encoding of
  a segment index in four bytes.
\<close>

definition spec_be32 :: "nat \<Rightarrow> bytes" where
  "spec_be32 n =
     [of_nat (n div 2 ^ 24 mod 256), of_nat (n div 2 ^ 16 mod 256),
      of_nat (n div 2 ^ 8 mod 256), of_nat (n mod 256)]"

subsection \<open>Object stores (\<^verbatim>\<open>src/lib/db.ts\<close>)\<close>

text \<open>
  An IndexedDB object store created with \<^verbatim>\<open>{ keyPath: "id", autoIncrement: true }\<close>:
  the key generator starts at 1, is advanced by every \<^verbatim>\<open>add\<close> of a value without an
  id and is never decreased, neither by \<^verbatim>\<open>delete\<close> nor by \<^verbatim>\<open>clear\<close>. A row
  \<open>(k, v)\<close> stands for the stored object \<open>v\<close> with its \<^verbatim>\<open>id\<close> property set to
  \<open>k\<close>; rows are kept in ascending key order, the order in which \<^verbatim>\<open>getAll\<close> returns
  them. Every function below that takes several steps on the stores runs inside one
  IndexedDB transaction, so it is one state transition here.
\<close>

record 'a object_store =
  keygen :: nat
  rows :: "(nat \<times> 'a) list"

definition empty_store :: "'a object_store" where
  "empty_store = \<lparr>keygen = 1, rows = []\<rparr>"

definition store_add :: "'a \<Rightarrow> 'a object_store \<Rightarrow> nat \<times> 'a object_store" where
  "store_add v s = (keygen s, s\<lparr>keygen := keygen s + 1, rows := rows s @ [(keygen s, v)]\<rparr>)"

definition store_get :: "nat \<Rightarrow> 'a object_store \<Rightarrow> 'a option" where
  "store_get k s = map_of (rows s) k"

definition store_put :: "nat \<Rightarrow> 'a \<Rightarrow> 'a object_store \<Rightarrow> 'a object_store" where
  "store_put k v s =
     s\<lparr>keygen := max (keygen s) (k + 1),
       rows := filter (\<lambda>r. fst r < k) (rows s) @ [(k, v)] @ filter (\<lambda>r. k < fst r) (rows s)\<rparr>"

definition store_delete :: "nat \<Rightarrow> 'a object_store \<Rightarrow> 'a object_store" where
  "store_delete k s = s\<lparr>rows := filter (\<lambda>r. fst r \<noteq> k) (rows s)\<rparr>"

definition store_clear :: "'a object_store \<Rightarrow> 'a object_store" where
  "store_clear s = s\<lparr>rows := []\<rparr>"

definition store_getAll :: "'a object_store \<Rightarrow> (nat \<times> 'a) list" where
  "store_getAll s = rows s"

text \<open>
  The records of \<^verbatim>\<open>src/lib/types.ts\<close>, without their \<^verbatim>\<open>id\<close> (the key of the row).
  Dates are epoch milliseconds; a \<^verbatim>\<open>Blob\<close> is its bytes; \<^verbatim>\<open>null\<close> is \<open>None\<close>. The
  optional \<^verbatim>\<open>parentId\<close> of a trash item does not distinguish an absent field from
  \<^verbatim>\<open>null\<close>.
\<close>

record external_source =
  src_type :: string
  src_path :: "string option"
  src_lastAccessed :: int

record file_item =
  file_name :: string
  file_type :: string
  file_size :: int
  file_lastModified :: int
  file_content :: "bytes option"
  file_folderId :: "nat option"
  file_encrypted :: "bool option"
  file_externalSource :: "external_source option"

record folder =
  folder_name :: string
  folder_parentId :: "nat option"
  folder_createdAt :: int

datatype trash_type = TFile | TFolder

record trash_item =
  trash_originalId :: nat
  trash_type :: trash_type
  trash_name :: string
  trash_content :: "bytes option"
  trash_size :: int
  trash_fileType :: string
  trash_folderId :: "nat option"
  trash_parentId :: "nat option"
  trash_deletedAt :: int
  trash_encrypted :: bool

text \<open>
  The numbers that \<^verbatim>\<open>getStorageStats\<close> computes are JavaScript numbers, IEEE-754 doubles.
  The sizes it adds are integers here (\<open>file_size\<close> and \<open>trash_size\<close> are of type \<open>int\<close>); a sum of integers is therefore an
  integer, an infinity, or (when the two infinities meet) \<^verbatim>\<open>NaN\<close>.  \<open>round_to_double\<close>
  is the double nearest to an integer, ties to the even significand: up to \<open>2^53\<close> in
  magnitude every integer is a double; above, the doubles are the multiples of \<open>2^e\<close>, where
  \<open>e\<close> is the number of binary digits beyond 53; a result of magnitude \<open>2^1024\<close> is an
  infinity.  The sign of a zero is not recorded.
\<close>

datatype js_number = Num int | PosInfinity | NegInfinity | NaN

function double_exponent :: "nat \<Rightarrow> nat" where
  "double_exponent a = (if a < 2 ^ 53 then 0 else Suc (double_exponent (a div 2)))"
  by pat_completeness auto
termination
  by (relation "measure id") auto

declare double_exponent.simps [simp del]

definition round_magnitude :: "nat \<Rightarrow> nat" where
  "round_magnitude a =
     (let e = double_exponent a;
          q = a div 2 ^ e;
          r = a mod 2 ^ e;
          q' = (if 2 * r > 2 ^ e \<or> (2 * r = 2 ^ e \<and> odd q) then q + 1 else q)
      in q' * 2 ^ e)"

definition round_to_double :: "int \<Rightarrow> js_number" where
  "round_to_double x =
     (let m = round_magnitude (nat \<bar>x\<bar>)
      in if m \<ge> 2 ^ 1024 then (if x < 0 then NegInfinity else PosInfinity)
         else Num (if x < 0 then - int m else int m))"

text \<open>\<^verbatim>\<open>x + y\<close>, \<^verbatim>\<open>x * 2\<close> and \<^verbatim>\<open>Math.max(x, y)\<close> on such numbers.\<close>

fun js_add :: "js_number \<Rightarrow> js_number \<Rightarrow> js_number" where
  "js_add (Num a) (Num b) = round_to_double (a + b)"
| "js_add NaN y = NaN"
| "js_add x NaN = NaN"
| "js_add PosInfinity NegInfinity = NaN"
| "js_add NegInfinity PosInfinity = NaN"
| "js_add PosInfinity y = PosInfinity"
| "js_add x PosInfinity = PosInfinity"
| "js_add NegInfinity y = NegInfinity"
| "js_add x NegInfinity = NegInfinity"

fun js_twice :: "js_number \<Rightarrow> js_number" where
  "js_twice (Num a) = round_to_double (a * 2)"
| "js_twice x = x"

fun js_max :: "js_number \<Rightarrow> js_number \<Rightarrow> js_number" where
  "js_max (Num a) (Num b) = Num (max a b)"
| "js_max NaN y = NaN"
| "js_max x NaN = NaN"
| "js_max PosInfinity y = PosInfinity"
| "js_max x PosInfinity = PosInfinity"
| "js_max NegInfinity y = y"
| "js_max x NegInfinity = x"

record storage_stats =
  used :: js_number
  total :: js_number
  fileCount :: nat
  trashSize :: js_number
  trashCount :: nat

record db =
  files :: "file_item object_store"
  folders :: "folder object_store"
  trash :: "trash_item object_store"

definition empty_db :: db where
  "empty_db = \<lparr>files = empty_store, folders = empty_store, trash = empty_store\<rparr>"

text \<open>
  A rejected promise is \<open>Inl\<close> of its message; the stores are then unchanged. The time
  read by \<^verbatim>\<open>new Date()\<close> is the argument \<open>now\<close>.
\<close>

definition saveFile :: "file_item \<Rightarrow> db \<Rightarrow> nat \<times> db" where
  "saveFile file d = (let (k, fs) = store_add file (files d) in (k, d\<lparr>files := fs\<rparr>))"

definition addFile :: "file_item \<Rightarrow> db \<Rightarrow> nat \<times> db" where
  "addFile file d = (let (k, fs) = store_add file (files d) in (k, d\<lparr>files := fs\<rparr>))"

definition getFileContent :: "nat \<Rightarrow> db \<Rightarrow> string + bytes option" where
  "getFileContent fileId d =
     (case store_get fileId (files d) of
        Some file \<Rightarrow> Inr (file_content file)
      | None \<Rightarrow> Inl ''File not found'')"

definition file_trash_item :: "int \<Rightarrow> nat \<Rightarrow> file_item \<Rightarrow> trash_item" where
  "file_trash_item now fid file =
     \<lparr>trash_originalId = fid, trash_type = TFile, trash_name = file_name file,
      trash_content = file_content file, trash_size = file_size file,
      trash_fileType = file_type file, trash_folderId = file_folderId file,
      trash_parentId = None, trash_deletedAt = now,
      trash_encrypted = (case file_encrypted file of Some b \<Rightarrow> b | None \<Rightarrow> False)\<rparr>"

definition deleteFile :: "int \<Rightarrow> nat \<Rightarrow> db \<Rightarrow> string + db" where
  "deleteFile now fileId d =
     (case store_get fileId (files d) of
        Some file \<Rightarrow>
          (let trashItem = file_trash_item now fileId file;
               ts = snd (store_add trashItem (trash d));
               fs = store_delete fileId (files d)
           in Inr (d\<lparr>files := fs, trash := ts\<rparr>))
      | None \<Rightarrow> Inl ''File not found'')"

definition permanentlyDeleteFile :: "nat \<Rightarrow> db \<Rightarrow> db" where
  "permanentlyDeleteFile fileId d = d\<lparr>files := store_delete fileId (files d)\<rparr>"

definition updateFileName :: "nat \<Rightarrow> string \<Rightarrow> db \<Rightarrow> string + db" where
  "updateFileName fileId newName d =
     (case store_get fileId (files d) of
        Some file \<Rightarrow> Inr (d\<lparr>files := store_put fileId (file\<lparr>file_name := newName\<rparr>) (files d)\<rparr>)
      | None \<Rightarrow> Inl ''File not found'')"

definition moveFile :: "nat \<Rightarrow> nat option \<Rightarrow> db \<Rightarrow> string + db" where
  "moveFile fileId newFolderId d =
     (case store_get fileId (files d) of
        Some file \<Rightarrow>
          Inr (d\<lparr>files := store_put fileId (file\<lparr>file_folderId := newFolderId\<rparr>) (files d)\<rparr>)
      | None \<Rightarrow> Inl ''File not found'')"

definition createFolder :: "int \<Rightarrow> string \<Rightarrow> nat option \<Rightarrow> db \<Rightarrow> nat \<times> db" where
  "createFolder now name parentId d =
     (let folder = \<lparr>folder_name = name, folder_parentId = parentId, folder_createdAt = now\<rparr>;
          (k, fs) = store_add folder (folders d)
      in (k, d\<lparr>folders := fs\<rparr>))"

text \<open>\<^verbatim>\<open>fileIndex.getAll(folderId)\<close>: the files whose \<^verbatim>\<open>folderId\<close> is the given number.\<close>

definition files_in_folder :: "nat \<Rightarrow> file_item object_store \<Rightarrow> (nat \<times> file_item) list" where
  "files_in_folder folderId s = filter (\<lambda>r. file_folderId (snd r) = Some folderId) (rows s)"

text \<open>The body of \<^verbatim>\<open>files.forEach\<close> in \<^verbatim>\<open>deleteFolder\<close>.\<close>

definition trash_one_file :: "int \<Rightarrow> nat \<times> file_item \<Rightarrow> db \<Rightarrow> db" where
  "trash_one_file now r d =
     d\<lparr>files := store_delete (fst r) (files d),
       trash := snd (store_add (file_trash_item now (fst r) (snd r)) (trash d))\<rparr>"

definition deleteFolder :: "int \<Rightarrow> nat \<Rightarrow> db \<Rightarrow> string + db" where
  "deleteFolder now folderId d =
     (case store_get folderId (folders d) of
        Some folder \<Rightarrow>
          (let trashItem =
                 \<lparr>trash_originalId = folderId, trash_type = TFolder,
                  trash_name = folder_name folder, trash_content = None, trash_size = 0,
                  trash_fileType = ''folder'', trash_folderId = None,
                  trash_parentId = folder_parentId folder, trash_deletedAt = now,
                  trash_encrypted = False\<rparr>;
               d1 = d\<lparr>trash := snd (store_add trashItem (trash d))\<rparr>;
               fs = files_in_folder folderId (files d1);
               d2 = fold (trash_one_file now) fs d1
           in Inr (d2\<lparr>folders := store_delete folderId (folders d2)\<rparr>))
      | None \<Rightarrow> Inl ''Folder not found'')"

definition getTrashItems :: "db \<Rightarrow> (nat \<times> trash_item) list" where
  "getTrashItems d = store_getAll (trash d)"

definition restoreFromTrash :: "int \<Rightarrow> nat \<Rightarrow> db \<Rightarrow> string + db" where
  "restoreFromTrash now trashId d =
     (case store_get trashId (trash d) of
        Some trashItem \<Rightarrow>
          (let d1 =
                 (case trash_type trashItem of
                    TFile \<Rightarrow>
                      (let file =
                             \<lparr>file_name = trash_name trashItem,
                              file_type = trash_fileType trashItem,
                              file_size = trash_size trashItem,
                              file_lastModified = now,
                              file_content = trash_content trashItem,
                              file_folderId = trash_folderId trashItem,
                              file_encrypted = Some (trash_encrypted trashItem),
                              file_externalSource = None\<rparr>
                       in d\<lparr>files := snd (store_add file (files d))\<rparr>)
                  | TFolder \<Rightarrow>
                      (let folder =
                             \<lparr>folder_name = trash_name trashItem,
                              folder_parentId = trash_parentId trashItem,
                              folder_createdAt = now\<rparr>
                       in d\<lparr>folders := snd (store_add folder (folders d))\<rparr>))
           in Inr (d1\<lparr>trash := store_delete trashId (trash d1)\<rparr>))
      | None \<Rightarrow> Inl ''Trash item not found'')"

definition deleteFromTrash :: "nat \<Rightarrow> db \<Rightarrow> db" where
  "deleteFromTrash trashId d = d\<lparr>trash := store_delete trashId (trash d)\<rparr>"

definition emptyTrash :: "db \<Rightarrow> db" where
  "emptyTrash d = d\<lparr>trash := store_clear (trash d)\<rparr>"

definition clearAllData :: "db \<Rightarrow> db" where
  "clearAllData d =
     d\<lparr>files := store_clear (files d), folders := store_clear (folders d),
       trash := store_clear (trash d)\<rparr>"

definition getStorageStats :: "db \<Rightarrow> storage_stats" where
  "getStorageStats d =
     (let fs = store_getAll (files d);
          totalSize = foldl (\<lambda>acc file. js_add acc (Num (file_size (snd file)))) (Num 0) fs;
          fileCount = length fs;
          trashItems = store_getAll (trash d);
          trashSize = foldl (\<lambda>acc item. js_add acc (Num (trash_size (snd item)))) (Num 0) trashItems;
          trashCount = length trashItems;
          estimatedTotal = js_max (js_twice (js_add totalSize trashSize)) (Num (1024 * 1024 * 50))
      in \<lparr>used = totalSize, total = estimatedTotal, fileCount = fileCount,
          trashSize = trashSize, trashCount = trashCount\<rparr>)"

text \<open>
  The write operations exported by \<^verbatim>\<open>db.ts\<close>, as commands; \<open>perform\<close> gives the
  stores after a command, which are the stores before it when the promise is rejected.
\<close>

datatype db_op =
    SaveFile file_item
  | AddFile file_item
  | DeleteFile int nat
  | PermanentlyDeleteFile nat
  | UpdateFileName nat string
  | MoveFile nat "nat option"
  | CreateFolder int string "nat option"
  | DeleteFolder int nat
  | RestoreFromTrash int nat
  | DeleteFromTrash nat
  | EmptyTrash
  | ClearAllData

definition settled :: "string + db \<Rightarrow> db \<Rightarrow> db" where
  "settled r d = (case r of Inr d' \<Rightarrow> d' | Inl msg \<Rightarrow> d)"

fun perform :: "db_op \<Rightarrow> db \<Rightarrow> db" where
  "perform (SaveFile file) d = snd (saveFile file d)"
| "perform (AddFile file) d = snd (addFile file d)"
| "perform (DeleteFile now fileId) d = settled (deleteFile now fileId d) d"
| "perform (PermanentlyDeleteFile fileId) d = permanentlyDeleteFile fileId d"
| "perform (UpdateFileName fileId newName) d = settled (updateFileName fileId newName d) d"
| "perform (MoveFile fileId newFolderId) d = settled (moveFile fileId newFolderId d) d"
| "perform (CreateFolder now name parentId) d = snd (createFolder now name parentId d)"
| "perform (DeleteFolder now folderId) d = settled (deleteFolder now folderId d) d"
| "perform (RestoreFromTrash now trashId) d = settled (restoreFromTrash now trashId d) d"
| "perform (DeleteFromTrash trashId) d = deleteFromTrash trashId d"
| "perform EmptyTrash d = emptyTrash d"
| "perform ClearAllData d = clearAllData d"

definition perform_all :: "db_op list \<Rightarrow> db \<Rightarrow> db" where
  "perform_all ops d = fold perform ops d"

text \<open>
  The invariant of the stores. Keys are strictly ascending and below the key generator,
  so the next key is new. A trash item names its original by type and original id: that
  id is no longer a key of the active store of its type, it was issued by that store's
  key generator, and no two trash items name the same original.
\<close>

definition store_keys :: "'a object_store \<Rightarrow> nat set" where
  "store_keys s = fst ` set (rows s)"

definition store_ok :: "'a object_store \<Rightarrow> bool" where
  "store_ok s \<longleftrightarrow> sorted_wrt (<) (map fst (rows s)) \<and> (\<forall>r \<in> set (rows s). fst r < keygen s)"

definition trash_origin :: "nat \<times> trash_item \<Rightarrow> trash_type \<times> nat" where
  "trash_origin r = (trash_type (snd r), trash_originalId (snd r))"

definition trash_files_ok :: "db \<Rightarrow> bool" where
  "trash_files_ok d \<longleftrightarrow>
     (\<forall>r \<in> set (rows (trash d)). trash_type (snd r) = TFile \<longrightarrow>
        trash_originalId (snd r) \<notin> store_keys (files d) \<and>
        trash_originalId (snd r) < keygen (files d))"

definition trash_folders_ok :: "db \<Rightarrow> bool" where
  "trash_folders_ok d \<longleftrightarrow>
     (\<forall>r \<in> set (rows (trash d)). trash_type (snd r) = TFolder \<longrightarrow>
        trash_originalId (snd r) \<notin> store_keys (folders d) \<and>
        trash_originalId (snd r) < keygen (folders d))"

definition db_inv :: "db \<Rightarrow> bool" where
  "db_inv d \<longleftrightarrow>
     store_ok (files d) \<and> store_ok (folders d) \<and> store_ok (trash d) \<and>
     distinct (map trash_origin (rows (trash d))) \<and>
     trash_files_ok d \<and> trash_folders_ok d"

text \<open>
  An id is retired in a store when the key generator has issued it and no row has it.
\<close>

definition retired :: "'a object_store \<Rightarrow> nat \<Rightarrow> bool" where
  "retired s k \<longleftrightarrow> k < keygen s \<and> k \<notin> store_keys s"

subsection \<open>The platform (\<^verbatim>\<open>crypto.subtle\<close>, \<^verbatim>\<open>JSON\<close>, text encoding)\<close>

text \<open>
  The Web Crypto and JSON primitives are not code of the repository: they are parameters
  of the model. A \<^verbatim>\<open>CryptoKey\<close> is its raw key material.
  \<^item> \<open>aes_gcm_encrypt key iv data\<close> is
    \<^verbatim>\<open>crypto.subtle.encrypt({name: "AES-GCM", iv, tagLength: 128}, key, data)\<close>;
  \<^item> \<open>aes_gcm_decrypt key iv data\<close> is the matching \<^verbatim>\<open>decrypt\<close>, \<open>None\<close> when
    the promise is rejected (the tag does not verify);
  \<^item> \<open>pbkdf2 password salt iterations\<close> is \<^verbatim>\<open>importKey("raw", password, "PBKDF2")\<close>
    followed by \<^verbatim>\<open>deriveKey\<close> with SHA-256 to an AES-GCM key of 256 bits, which Web
    Crypto defines for every password and every salt;
  \<^item> \<open>json_stringify\<close> and \<open>json_parse\<close> are \<^verbatim>\<open>JSON.stringify\<close> and
    \<^verbatim>\<open>JSON.parse\<close> on the metadata object, \<open>None\<close> for a \<^verbatim>\<open>SyntaxError\<close>.
  A string stands for its UTF-8 encoding, so that \<^verbatim>\<open>TextEncoder\<close> and
  \<^verbatim>\<open>TextDecoder\<close> are the two directions of the bijection between characters and
  bytes; the replacement characters that \<^verbatim>\<open>TextDecoder\<close> produces on ill-formed
  UTF-8 are not modelled.
\<close>

type_synonym key = bytes

record pv_metadata =
  md_name :: string
  md_type :: string
  md_size :: int
  md_lastModified :: int
  md_originalFilename :: "string option"

record platform =
  aes_gcm_encrypt :: "key \<Rightarrow> bytes \<Rightarrow> bytes \<Rightarrow> bytes"
  aes_gcm_decrypt :: "key \<Rightarrow> bytes \<Rightarrow> bytes \<Rightarrow> bytes option"
  pbkdf2 :: "bytes \<Rightarrow> bytes \<Rightarrow> nat \<Rightarrow> key"
  json_stringify :: "pv_metadata \<Rightarrow> string"
  json_parse :: "string \<Rightarrow> pv_metadata option"

definition text_encode :: "string \<Rightarrow> bytes" where
  "text_encode s = map (\<lambda>c. of_char c) s"

definition text_decode :: "bytes \<Rightarrow> string" where
  "text_decode b = map (\<lambda>w. char_of (unat w)) b"

text \<open>
  What a lawful platform guarantees: decryption inverts encryption under the same key and
  nonce, and a ciphertext is its plaintext's length plus the 16 bytes of the tag.
\<close>

definition aead_ok :: "platform \<Rightarrow> bool" where
  "aead_ok P \<longleftrightarrow>
     (\<forall>k iv p. aes_gcm_decrypt P k iv (aes_gcm_encrypt P k iv p) = Some p) \<and>
     (\<forall>k iv p. length (aes_gcm_encrypt P k iv p) = length p + 16) \<and>
     (\<forall>k iv c p. aes_gcm_decrypt P k iv c = Some p \<longrightarrow> length c = length p + 16)"

definition json_ok :: "platform \<Rightarrow> pv_metadata \<Rightarrow> bool" where
  "json_ok P m \<longleftrightarrow> json_parse P (json_stringify P m) = Some m"

subsection \<open>Errors, effects and the state outside the stores\<close>

text \<open>
  A thrown value or rejection: \<open>JsError m\<close> is an \<^verbatim>\<open>Error\<close> object with message
  \<open>m\<close> (for an exception of the platform, whose message is implementation-defined, its
  name); \<open>JsReject m\<close> is a rejection with the bare string \<open>m\<close>, as \<^verbatim>\<open>db.ts\<close>
  produces, which is not an \<^verbatim>\<open>Error\<close>.
\<close>

datatype js_error = JsError string | JsReject string

text \<open>
  The calls whose order the claims speak about are recorded in a trace: each entry to a
  large-file or streaming import routine, each retrieval of the seed phrase, each key
  derivation and each AES-GCM call.
\<close>

datatype event = EvImportLarge | EvImportStreaming | EvGetSeedPhrase | EvDeriveKey | EvEncrypt | EvDecrypt

text \<open>
  The state outside the object stores: the bytes that the random generator will deliver,
  the key under \<^verbatim>\<open>"encryptionKey"\<close> in \<^verbatim>\<open>localStorage\<close> (its raw bytes, stored
  in base64), the encrypted seed phrase in \<^verbatim>\<open>LocalDriveSecurityDB\<close>, the clock and
  the trace.
\<close>

record world =
  rng :: "nat \<Rightarrow> u8"
  encryptionKey :: "bytes option"
  seedRecord :: "bytes option"
  clock :: int
  trace :: "event list"

type_synonym 'a action = "world \<Rightarrow> (js_error + 'a) \<times> world"

definition log_event :: "event \<Rightarrow> world \<Rightarrow> world" where
  "log_event e w = w\<lparr>trace := trace w @ [e]\<rparr>"

text \<open>\<^verbatim>\<open>const x = await m; k(x)\<close>: a rejection of \<open>m\<close> is thrown on.\<close>

definition await :: "'a action \<Rightarrow> ('a \<Rightarrow> 'b action) \<Rightarrow> 'b action" where
  "await m k w = (case m w of (Inl e, w') \<Rightarrow> (Inl e, w') | (Inr x, w') \<Rightarrow> k x w')"

definition resolve :: "'a \<Rightarrow> 'a action" where
  "resolve x w = (Inr x, w)"

definition throw :: "js_error \<Rightarrow> 'a action" where
  "throw e w = (Inl e, w)"

definition getRandomValues :: "nat \<Rightarrow> bytes action" where
  "getRandomValues n w = (Inr (map (rng w) [0..<n]), w\<lparr>rng := (\<lambda>i. rng w (i + n))\<rparr>)"

subsection \<open>Constants of \<^verbatim>\<open>pv-format.ts\<close>\<close>

text \<open>
  \<^verbatim>\<open>MAX_DECRYPT_SIZE\<close> and \<^verbatim>\<open>VERY_LARGE_FILE_THRESHOLD\<close> are
  \<^verbatim>\<open>1.8 * 1024 * 1024 * 1024\<close>, that is 1932735283.2, and the bound in
  \<^verbatim>\<open>importLargePVFile\<close> is \<^verbatim>\<open>2.1 * 1024 * 1024 * 1024\<close>, that is 2254857830.4.
  They are only compared with byte counts by \<^verbatim>\<open>>\<close>; a byte count exceeds such a bound
  exactly when it exceeds its integer part, which is what is recorded here.
\<close>

definition SALT_LENGTH :: nat where "SALT_LENGTH = 16"
definition IV_LENGTH :: nat where "IV_LENGTH = 12"
definition ITERATION_COUNT :: nat where "ITERATION_COUNT = 100000"
definition PV_HEADER :: string where "PV_HEADER = ''PVENC01''"
definition LARGE_FILE_THRESHOLD :: nat where "LARGE_FILE_THRESHOLD = 50 * 1024 * 1024"
definition CHUNK_SIZE :: nat where "CHUNK_SIZE = 1 * 1024 * 1024"
definition MAX_DECRYPT_SIZE :: nat where "MAX_DECRYPT_SIZE = 1932735283"
definition VERY_LARGE_FILE_THRESHOLD :: nat where "VERY_LARGE_FILE_THRESHOLD = 1932735283"
definition MAX_SEGMENT_SIZE :: nat where "MAX_SEGMENT_SIZE = 1610612736"
definition BROWSER_LIMIT :: nat where "BROWSER_LIMIT = 2254857830"

subsection \<open>Keys and the seed phrase\<close>

text \<open>
  \<^verbatim>\<open>importKey("raw", keyBuffer, {name: "AES-GCM", length: 256}, ...)\<close> accepts 16, 24
  or 32 bytes and rejects anything else.
\<close>

definition importKey_aes :: "bytes \<Rightarrow> key action" where
  "importKey_aes keyBuffer =
     (if length keyBuffer \<in> {16, 24, 32} then resolve keyBuffer else throw (JsError ''DataError''))"

text \<open>
  \<^verbatim>\<open>getOrCreateEncryptionKey\<close>: \<^verbatim>\<open>if (storedKey)\<close> is false for a missing item and
  for the empty string, the base64 text of no bytes.
\<close>

definition getOrCreateEncryptionKey :: "key action" where
  "getOrCreateEncryptionKey w =
     (case encryptionKey w of
        Some storedKey \<Rightarrow>
          if storedKey \<noteq> [] then importKey_aes storedKey w
          else await (getRandomValues 32) (\<lambda>k w'. (Inr k, w'\<lparr>encryptionKey := Some k\<rparr>)) w
      | None \<Rightarrow> await (getRandomValues 32) (\<lambda>k w'. (Inr k, w'\<lparr>encryptionKey := Some k\<rparr>)) w)"

text \<open>\<^verbatim>\<open>getEncryptionKey\<close> of the external-folder export: no key is created.\<close>

definition getEncryptionKey :: "key action" where
  "getEncryptionKey w =
     (case encryptionKey w of
        Some storedKey \<Rightarrow>
          if storedKey \<noteq> [] then importKey_aes storedKey w
          else throw (JsError ''Encryption key not found'') w
      | None \<Rightarrow> throw (JsError ''Encryption key not found'') w)"

definition subtle_decrypt :: "platform \<Rightarrow> key \<Rightarrow> bytes \<Rightarrow> bytes \<Rightarrow> bytes action" where
  "subtle_decrypt P k iv data w =
     (case aes_gcm_decrypt P k iv data of
        Some plain \<Rightarrow> (Inr plain, log_event EvDecrypt w)
      | None \<Rightarrow> (Inl (JsError ''OperationError''), log_event EvDecrypt w))"

definition subtle_encrypt :: "platform \<Rightarrow> key \<Rightarrow> bytes \<Rightarrow> bytes \<Rightarrow> bytes action" where
  "subtle_encrypt P k iv data w = (Inr (aes_gcm_encrypt P k iv data), log_event EvEncrypt w)"

definition decryptData :: "platform \<Rightarrow> bytes \<Rightarrow> key \<Rightarrow> string action" where
  "decryptData P encryptedData k =
     (let iv = take 12 encryptedData; data = drop 12 encryptedData
      in await (subtle_decrypt P k iv data) (\<lambda>decryptedBuffer. resolve (text_decode decryptedBuffer)))"

definition getSeedPhrase :: "platform \<Rightarrow> string action" where
  "getSeedPhrase P w =
     (case seedRecord (log_event EvGetSeedPhrase w) of
        None \<Rightarrow> throw (JsError ''Seed phrase not found'') (log_event EvGetSeedPhrase w)
      | Some encryptedData \<Rightarrow>
          await getOrCreateEncryptionKey (\<lambda>k. decryptData P encryptedData k)
            (log_event EvGetSeedPhrase w))"

definition deriveKeyFromSeedPhrase :: "platform \<Rightarrow> string \<Rightarrow> bytes \<Rightarrow> key action" where
  "deriveKeyFromSeedPhrase P seedPhrase salt w =
     (let seedPhraseBuffer = text_encode seedPhrase
      in (Inr (pbkdf2 P seedPhraseBuffer salt ITERATION_COUNT), log_event EvDeriveKey w))"

subsection \<open>Export\<close>

text \<open>
  \<^verbatim>\<open>decryptFileContent\<close> (and \<^verbatim>\<open>decryptFile\<close> of the external-folder export): the
  whole body is inside \<^verbatim>\<open>try\<close>, and the \<^verbatim>\<open>catch\<close> returns the blob it was given.
  A \<^verbatim>\<open>null\<close> blob makes \<^verbatim>\<open>arrayBuffer()\<close> throw inside the \<^verbatim>\<open>try\<close>.
\<close>

definition decryptFileContent :: "platform \<Rightarrow> bytes option \<Rightarrow> world \<Rightarrow> bytes option \<times> world" where
  "decryptFileContent P encryptedBlob w =
     (case getOrCreateEncryptionKey w of
        (Inl e, w1) \<Rightarrow> (encryptedBlob, w1)
      | (Inr k, w1) \<Rightarrow>
          (case encryptedBlob of
             None \<Rightarrow> (encryptedBlob, w1)
           | Some encryptedBuffer \<Rightarrow>
               (case subtle_decrypt P k (take 12 encryptedBuffer) (drop 12 encryptedBuffer) w1 of
                  (Inr decryptedBuffer, w2) \<Rightarrow> (Some decryptedBuffer, w2)
                | (Inl e, w2) \<Rightarrow> (encryptedBlob, w2))))"

definition decryptFile :: "platform \<Rightarrow> bytes option \<Rightarrow> world \<Rightarrow> bytes option \<times> world" where
  "decryptFile P encryptedBlob w =
     (case getEncryptionKey w of
        (Inl e, w1) \<Rightarrow> (encryptedBlob, w1)
      | (Inr k, w1) \<Rightarrow>
          (case encryptedBlob of
             None \<Rightarrow> (encryptedBlob, w1)
           | Some encryptedBuffer \<Rightarrow>
               (case subtle_decrypt P k (take 12 encryptedBuffer) (drop 12 encryptedBuffer) w1 of
                  (Inr decryptedBuffer, w2) \<Rightarrow> (Some decryptedBuffer, w2)
                | (Inl e, w2) \<Rightarrow> (encryptedBlob, w2))))"

text \<open>
  \<^verbatim>\<open>new Uint8Array(new Uint32Array([n]).buffer)\<close>: the number modulo \<open>2^32\<close> in the
  byte order of the platform, which is little-endian; and the read
  \<^verbatim>\<open>new Uint32Array(bytes.slice(o, o + 4).buffer)[0]\<close>, which throws a
  \<^verbatim>\<open>RangeError\<close> when the slice has one to three bytes and yields \<^verbatim>\<open>undefined\<close> when
  it is empty.
\<close>

definition uint32_bytes :: "nat \<Rightarrow> bytes" where
  "uint32_bytes n =
     (let w = (of_nat n :: 32 word)
      in [ucast w, ucast (drop_bit 8 w), ucast (drop_bit 16 w), ucast (drop_bit 24 w)])"

definition uint32_of_bytes :: "bytes \<Rightarrow> nat" where
  "uint32_of_bytes b =
     unat ((ucast (b ! 0) :: 32 word) OR push_bit 8 (ucast (b ! 1)) OR
           push_bit 16 (ucast (b ! 2)) OR push_bit 24 (ucast (b ! 3)))"

definition js_slice :: "bytes \<Rightarrow> nat \<Rightarrow> nat \<Rightarrow> bytes" where
  "js_slice b start end = take (end - start) (drop start b)"

definition file_metadata :: "file_item \<Rightarrow> pv_metadata" where
  "file_metadata file =
     \<lparr>md_name = file_name file, md_type = file_type file, md_size = file_size file,
      md_lastModified = file_lastModified file, md_originalFilename = Some (file_name file)\<rparr>"

text \<open>
  \<^verbatim>\<open>target.set(source, offset)\<close> on a \<^verbatim>\<open>Uint8Array\<close>: the bytes of the source replace
  those of the target from \<open>offset\<close> on; a source that does not fit throws a
  \<^verbatim>\<open>RangeError\<close>.
\<close>

definition u8_set :: "bytes \<Rightarrow> bytes \<Rightarrow> nat \<Rightarrow> js_error + bytes" where
  "u8_set target source offset =
     (if offset + length source > length target then Inl (JsError ''RangeError'')
      else Inr (take offset target @ source @ drop (offset + length source) target))"

definition and_then :: "js_error + 'a \<Rightarrow> ('a \<Rightarrow> js_error + 'b) \<Rightarrow> js_error + 'b" where
  "and_then r k = (case r of Inl e \<Rightarrow> Inl e | Inr x \<Rightarrow> k x)"

definition lift :: "js_error + 'a \<Rightarrow> 'a action" where
  "lift r w = (r, w)"

text \<open>
  The header that \<^verbatim>\<open>exportLargeFileToPV\<close> assembles in \<^verbatim>\<open>headerView\<close>, a zero-filled
  buffer of \<open>headerSize\<close> bytes written part by part at a running offset.
\<close>

definition build_headerView :: "bytes \<Rightarrow> bytes \<Rightarrow> bytes \<Rightarrow> js_error + bytes" where
  "build_headerView salt iv metadataBuffer =
     (let headerBuffer = text_encode PV_HEADER;
          metadataLengthBuffer = uint32_bytes (length metadataBuffer);
          headerSize = length headerBuffer + length salt + length iv + 4 + length metadataBuffer;
          headerView = replicate headerSize 0;
          offset = 0
      in and_then (u8_set headerView headerBuffer offset) (\<lambda>headerView.
         let offset = offset + length headerBuffer
         in and_then (u8_set headerView salt offset) (\<lambda>headerView.
            let offset = offset + length salt
            in and_then (u8_set headerView iv offset) (\<lambda>headerView.
               let offset = offset + length iv
               in and_then (u8_set headerView metadataLengthBuffer offset) (\<lambda>headerView.
                  let offset = offset + 4
                  in u8_set headerView metadataBuffer offset)))))"

text \<open>
  The buffer that \<^verbatim>\<open>exportFileToPV\<close> assembles in \<^verbatim>\<open>combinedBuffer\<close>, in the same way,
  with the encrypted content as its last part.
\<close>

definition build_combinedBuffer :: "bytes \<Rightarrow> bytes \<Rightarrow> bytes \<Rightarrow> bytes \<Rightarrow> js_error + bytes" where
  "build_combinedBuffer salt iv metadataBuffer encryptedBuffer =
     (let headerBuffer = text_encode PV_HEADER;
          metadataLengthBuffer = uint32_bytes (length metadataBuffer);
          combinedBuffer = replicate (length headerBuffer + length salt + length iv + 4 +
            length metadataBuffer + length encryptedBuffer) 0;
          offset = 0
      in and_then (u8_set combinedBuffer headerBuffer offset) (\<lambda>combinedBuffer.
         let offset = offset + length headerBuffer
         in and_then (u8_set combinedBuffer salt offset) (\<lambda>combinedBuffer.
            let offset = offset + length salt
            in and_then (u8_set combinedBuffer iv offset) (\<lambda>combinedBuffer.
               let offset = offset + length iv
               in and_then (u8_set combinedBuffer metadataLengthBuffer offset) (\<lambda>combinedBuffer.
                  let offset = offset + 4
                  in and_then (u8_set combinedBuffer metadataBuffer offset) (\<lambda>combinedBuffer.
                     let offset = offset + length metadataBuffer
                     in u8_set combinedBuffer encryptedBuffer offset))))))"

text \<open>
  The layout that the source states for the part of a container before the ciphertext
  (\<^verbatim>\<open>Format: HEADER + SALT + IV + METADATA_LENGTH (4 bytes) + METADATA + CIPHERTEXT\<close>).
\<close>

definition pv_header_bytes :: "bytes \<Rightarrow> bytes \<Rightarrow> bytes \<Rightarrow> bytes" where
  "pv_header_bytes salt iv metadataBuffer =
     text_encode PV_HEADER @ salt @ iv @ uint32_bytes (length metadataBuffer) @ metadataBuffer"

definition blob_bytes :: "bytes option \<Rightarrow> bytes action" where
  "blob_bytes blob = (case blob of Some b \<Rightarrow> resolve b | None \<Rightarrow> throw (JsError ''TypeError''))"

definition db_getFileContent :: "db \<Rightarrow> nat \<Rightarrow> bytes option action" where
  "db_getFileContent d fileId w =
     (case getFileContent fileId d of Inl msg \<Rightarrow> (Inl (JsReject msg), w) | Inr c \<Rightarrow> (Inr c, w))"

text \<open>The chunk loop of \<^verbatim>\<open>exportLargeFileToPV\<close>, from chunk \<open>i\<close> on.\<close>

function encrypt_chunks ::
  "platform \<Rightarrow> key \<Rightarrow> bytes \<Rightarrow> bytes \<Rightarrow> nat \<Rightarrow> nat \<Rightarrow> bytes list \<Rightarrow> bytes list action" where
  "encrypt_chunks P k iv fileContent totalChunks i encryptedChunks w =
     (if i < totalChunks then
        (let start = i * CHUNK_SIZE;
             end = min (start + CHUNK_SIZE) (length fileContent);
             chunkBuffer = js_slice fileContent start end
         in case subtle_encrypt P k iv chunkBuffer w of
              (Inr encryptedChunk, w') \<Rightarrow>
                encrypt_chunks P k iv fileContent totalChunks (i + 1)
                  (encryptedChunks @ [encryptedChunk]) w'
            | (Inl e, w') \<Rightarrow> (Inl e, w'))
      else (Inr encryptedChunks, w))"
  by pat_completeness auto
termination
  by (relation "measure (\<lambda>(P, k, iv, fileContent, totalChunks, i, encryptedChunks, w). totalChunks - i)")
    auto

definition exportLargeFileToPV :: "platform \<Rightarrow> db \<Rightarrow> nat \<times> file_item \<Rightarrow> bytes action" where
  "exportLargeFileToPV P d file =
     await (db_getFileContent d (fst file)) (\<lambda>encryptedContent.
     await (\<lambda>w. if file_encrypted (snd file) = Some True
                 then (case decryptFileContent P encryptedContent w of (c, w') \<Rightarrow> (Inr c, w'))
                 else (Inr encryptedContent, w)) (\<lambda>fileContent.
     await (getSeedPhrase P) (\<lambda>seedPhrase.
     await (getRandomValues SALT_LENGTH) (\<lambda>salt.
     await (getRandomValues IV_LENGTH) (\<lambda>iv.
     await (deriveKeyFromSeedPhrase P seedPhrase salt) (\<lambda>encryptionKey.
       (let metadataBuffer = text_encode (json_stringify P (file_metadata (snd file)))
        in await (lift (build_headerView salt iv metadataBuffer)) (\<lambda>headerView.
           await (blob_bytes fileContent) (\<lambda>content.
             (let fileSize = length content;
                  totalChunks = (fileSize + CHUNK_SIZE - 1) div CHUNK_SIZE
              in await (encrypt_chunks P encryptionKey iv content totalChunks 0 [headerView])
                   (\<lambda>encryptedChunks. resolve (concat encryptedChunks))))))))))))"

definition exportFileToPV :: "platform \<Rightarrow> db \<Rightarrow> nat \<times> file_item \<Rightarrow> bytes action" where
  "exportFileToPV P d file =
     (if file_size (snd file) > int LARGE_FILE_THRESHOLD then exportLargeFileToPV P d file
      else
        await (db_getFileContent d (fst file)) (\<lambda>encryptedContent.
        await (\<lambda>w. if file_encrypted (snd file) = Some True
                    then (case decryptFileContent P encryptedContent w of (c, w') \<Rightarrow> (Inr c, w'))
                    else (Inr encryptedContent, w)) (\<lambda>fileContent.
        await (getSeedPhrase P) (\<lambda>seedPhrase.
        await (getRandomValues SALT_LENGTH) (\<lambda>salt.
        await (getRandomValues IV_LENGTH) (\<lambda>iv.
        await (deriveKeyFromSeedPhrase P seedPhrase salt) (\<lambda>encryptionKey.
          (let metadataBuffer = text_encode (json_stringify P (file_metadata (snd file)))
           in await (blob_bytes fileContent) (\<lambda>fileBuffer.
              await (subtle_encrypt P encryptionKey iv fileBuffer) (\<lambda>encryptedBuffer.
                lift (build_combinedBuffer salt iv metadataBuffer encryptedBuffer)))))))))))"

subsection \<open>Import\<close>

text \<open>
  A \<^verbatim>\<open>File\<close> handed to the import: its name and its bytes; \<^verbatim>\<open>pvFile.size\<close> is the
  number of bytes.
\<close>

record pv_file =
  pv_name :: string
  pv_data :: bytes

text \<open>
  The result \<^verbatim>\<open>{ success, file, error }\<close>. The error texts are
  \<^item> \<open>InvalidFormat\<close>: \<^verbatim>\<open>"Invalid PV file format"\<close>;
  \<^item> \<open>FileTooLarge\<close>: \<^verbatim>\<open>"File is too large to decrypt in browser (over 2GB). ..."\<close>;
  \<^item> \<open>DecryptionFailed\<close>:
    \<^verbatim>\<open>"Decryption failed. This file was likely encrypted with a different seed phrase."\<close>;
  \<^item> \<open>StreamingFailed e\<close>: \<^verbatim>\<open>"Decryption failed: "\<close> followed by the error text that
    the worker posted;
  \<^item> \<open>Caught e\<close>: the outer \<^verbatim>\<open>catch\<close>, that is the message of \<open>e\<close> when it is an
    \<^verbatim>\<open>Error\<close> and \<^verbatim>\<open>"Unknown error ..."\<close> otherwise.
\<close>

datatype worker_error = WorkerInitFailed js_error | WorkerSegmentFailed nat js_error

datatype failure =
    InvalidFormat
  | FileTooLarge
  | DecryptionFailed
  | StreamingFailed worker_error
  | Caught js_error

datatype import_result = Success file_item | Failure failure

text \<open>
  The header fields after the magic tag, read as the three import routines read them:
  salt, IV, metadata length and metadata. An empty length slice makes the length
  \<^verbatim>\<open>undefined\<close>, the metadata slice empty and \<^verbatim>\<open>JSON.parse("")\<close> throw.
\<close>

definition read_header :: "platform \<Rightarrow> bytes \<Rightarrow> js_error + (bytes \<times> bytes \<times> nat \<times> pv_metadata)" where
  "read_header P fileData =
     (let headerLength = length PV_HEADER;
          salt = js_slice fileData headerLength (headerLength + SALT_LENGTH);
          iv = js_slice fileData (headerLength + SALT_LENGTH) (headerLength + SALT_LENGTH + IV_LENGTH);
          offset = headerLength + SALT_LENGTH + IV_LENGTH;
          lengthBytes = js_slice fileData offset (offset + 4)
      in if length lengthBytes = 4 then
           (let metadataLength = uint32_of_bytes lengthBytes;
                metadataBytes = js_slice fileData (offset + 4) (offset + 4 + metadataLength)
            in case json_parse P (text_decode metadataBytes) of
                 Some metadata \<Rightarrow> Inr (salt, iv, metadataLength, metadata)
               | None \<Rightarrow> Inl (JsError ''SyntaxError''))
         else if lengthBytes = [] then Inl (JsError ''SyntaxError'')
         else Inl (JsError ''RangeError''))"

text \<open>\<^verbatim>\<open>metadata.originalFilename || metadata.name\<close>: an empty string is falsy.\<close>

definition imported_name :: "pv_metadata \<Rightarrow> string" where
  "imported_name metadata =
     (case md_originalFilename metadata of
        Some n \<Rightarrow> if n \<noteq> [] then n else md_name metadata
      | None \<Rightarrow> md_name metadata)"

definition decrypted_file :: "pv_file \<Rightarrow> pv_metadata \<Rightarrow> bytes \<Rightarrow> world \<Rightarrow> file_item" where
  "decrypted_file pvFile metadata decryptedContent w =
     \<lparr>file_name = imported_name metadata, file_type = md_type metadata,
      file_size = md_size metadata, file_lastModified = md_lastModified metadata,
      file_content = Some decryptedContent, file_folderId = None, file_encrypted = Some False,
      file_externalSource =
        Some \<lparr>src_type = ''pv'', src_path = Some (pv_name pvFile), src_lastAccessed = clock w\<rparr>\<rparr>"

text \<open>
  \<^verbatim>\<open>decryptedSegments[segmentIndex] = decryptedSegment\<close>, after the array was padded
  with empty buffers up to that index.
\<close>

definition store_segment :: "bytes list \<Rightarrow> nat \<Rightarrow> bytes \<Rightarrow> bytes list" where
  "store_segment decryptedSegments segmentIndex decryptedSegment =
     (decryptedSegments @ replicate (Suc segmentIndex - length decryptedSegments) [])
       [segmentIndex := decryptedSegment]"

text \<open>
  The exchange between \<^verbatim>\<open>processNextSegment\<close> and the worker's
  \<^verbatim>\<open>decryptSegment\<close>, from one segment index on: a segment is read, decrypted under
  its derived nonce, stored, and the next one is requested unless it was the last.
\<close>

function processNextSegment ::
  "platform \<Rightarrow> key \<Rightarrow> bytes \<Rightarrow> bytes \<Rightarrow> nat \<Rightarrow> nat \<Rightarrow> bytes list \<Rightarrow> world
     \<Rightarrow> (worker_error + bytes list) \<times> world" where
  "processNextSegment P k baseIv fileData totalHeaderSize segmentIndex decryptedSegments w =
     (let segmentStart = totalHeaderSize + segmentIndex * MAX_SEGMENT_SIZE;
          segmentEnd = min (segmentStart + MAX_SEGMENT_SIZE) (length fileData);
          isLast = (segmentEnd = length fileData);
          segmentBuffer = js_slice fileData segmentStart segmentEnd;
          segmentIv = deriveSegmentIv baseIv (int segmentIndex)
      in case subtle_decrypt P k segmentIv segmentBuffer w of
           (Inl e, w') \<Rightarrow> (Inl (WorkerSegmentFailed segmentIndex e), w')
         | (Inr decryptedSegment, w') \<Rightarrow>
             (let segments = store_segment decryptedSegments segmentIndex decryptedSegment
              in if isLast then (Inr segments, w')
                 else processNextSegment P k baseIv fileData totalHeaderSize (segmentIndex + 1)
                        segments w'))"
  by pat_completeness auto
termination
  by (relation "measure (\<lambda>(P, k, baseIv, fileData, totalHeaderSize, segmentIndex, segs, w).
      length fileData - (totalHeaderSize + segmentIndex * MAX_SEGMENT_SIZE))")
    (auto simp add: MAX_SEGMENT_SIZE_def min_def split: if_splits)

definition importStreamingPVFile :: "platform \<Rightarrow> pv_file \<Rightarrow> world \<Rightarrow> import_result \<times> world" where
  "importStreamingPVFile P pvFile w0 =
     (let w = log_event EvImportStreaming w0;
          headerData = js_slice (pv_data pvFile) 0 (1024 * 1024)
      in if js_slice headerData 0 (length PV_HEADER) \<noteq> text_encode PV_HEADER
         then (Failure InvalidFormat, w)
         else
           (case read_header P headerData of
              Inl e \<Rightarrow> (Failure (Caught e), w)
            | Inr (salt, iv, metadataLength, metadata) \<Rightarrow>
                (let totalHeaderSize = length PV_HEADER + SALT_LENGTH + IV_LENGTH + 4 + metadataLength
                 in case getSeedPhrase P w of
                      (Inl e, w1) \<Rightarrow> (Failure (Caught e), w1)
                    | (Inr seedPhrase, w1) \<Rightarrow>
                        (case deriveKeyFromSeedPhrase P seedPhrase salt w1 of
                           (Inl e, w2) \<Rightarrow> (Failure (StreamingFailed (WorkerInitFailed e)), w2)
                         | (Inr decryptionKey, w2) \<Rightarrow>
                             (case processNextSegment P decryptionKey iv (pv_data pvFile)
                                     totalHeaderSize 0 [] w2 of
                                (Inl e, w3) \<Rightarrow> (Failure (StreamingFailed e), w3)
                              | (Inr decryptedSegments, w3) \<Rightarrow>
                                  (let validSegments =
                                         filter (\<lambda>segment. length segment > 0) decryptedSegments
                                   in (Success (decrypted_file pvFile metadata
                                                  (concat validSegments) w3), w3)))))))"

definition importLargePVFile :: "platform \<Rightarrow> pv_file \<Rightarrow> world \<Rightarrow> import_result \<times> world" where
  "importLargePVFile P pvFile w0 =
     (let w = log_event EvImportLarge w0
      in if length (pv_data pvFile) > BROWSER_LIMIT then (Failure FileTooLarge, w)
         else
           (let headerData = js_slice (pv_data pvFile) 0 (1024 * 1024)
            in if js_slice headerData 0 (length PV_HEADER) \<noteq> text_encode PV_HEADER
               then (Failure InvalidFormat, w)
               else
                 (case read_header P headerData of
                    Inl e \<Rightarrow> (Failure (Caught e), w)
                  | Inr (salt, iv, metadataLength, metadata) \<Rightarrow>
                      (let totalHeaderSize =
                             length PV_HEADER + SALT_LENGTH + IV_LENGTH + 4 + metadataLength
                       in case getSeedPhrase P w of
                            (Inl e, w1) \<Rightarrow> (Failure (Caught e), w1)
                          | (Inr seedPhrase, w1) \<Rightarrow>
                              (case deriveKeyFromSeedPhrase P seedPhrase salt w1 of
                                 (Inl e, w2) \<Rightarrow> (Failure (Caught e), w2)
                               | (Inr decryptionKey, w2) \<Rightarrow>
                                   if length (pv_data pvFile) - totalHeaderSize > MAX_DECRYPT_SIZE
                                   then importStreamingPVFile P pvFile w2
                                   else
                                     (let ciphertext = drop totalHeaderSize (pv_data pvFile)
                                      in case subtle_decrypt P decryptionKey iv ciphertext w2 of
                                           (Inl e, w3) \<Rightarrow> (Failure DecryptionFailed, w3)
                                         | (Inr decryptedContent, w3) \<Rightarrow>
                                             (Success (decrypted_file pvFile metadata
                                                         decryptedContent w3), w3)))))))"

definition importPVFile :: "platform \<Rightarrow> pv_file \<Rightarrow> world \<Rightarrow> import_result \<times> world" where
  "importPVFile P pvFile w =
     (if length (pv_data pvFile) > VERY_LARGE_FILE_THRESHOLD then importStreamingPVFile P pvFile w
      else if length (pv_data pvFile) > LARGE_FILE_THRESHOLD then importLargePVFile P pvFile w
      else
        (let fileData = pv_data pvFile
         in if js_slice fileData 0 (length PV_HEADER) \<noteq> text_encode PV_HEADER
            then (Failure InvalidFormat, w)
            else
              (case read_header P fileData of
                 Inl e \<Rightarrow> (Failure (Caught e), w)
               | Inr (salt, iv, metadataLength, metadata) \<Rightarrow>
                   (let offset = length PV_HEADER + SALT_LENGTH + IV_LENGTH + 4 + metadataLength;
                        ciphertext = drop offset fileData
                    in case getSeedPhrase P w of
                         (Inl e, w1) \<Rightarrow> (Failure (Caught e), w1)
                       | (Inr seedPhrase, w1) \<Rightarrow>
                           (case deriveKeyFromSeedPhrase P seedPhrase salt w1 of
                              (Inl e, w2) \<Rightarrow> (Failure (Caught e), w2)
                            | (Inr decryptionKey, w2) \<Rightarrow>
                                (case subtle_decrypt P decryptionKey iv ciphertext w2 of
                                   (Inl e, w3) \<Rightarrow> (Failure DecryptionFailed, w3)
                                 | (Inr decryptedContent, w3) \<Rightarrow>
                                     (Success (decrypted_file pvFile metadata
                                                 decryptedContent w3), w3)))))))"

subsection \<open>A platform and a state for concrete instances\<close>

text \<open>
  A small platform on which the functions can be run on concrete inputs. It is not AES-GCM
  or PBKDF2: the cipher XORs every byte with a pad byte made from key and nonce and appends
  a 16-byte tag made from key, nonce and ciphertext; the metadata text is a record of
  length-prefixed fields, with numbers as eight decimal digits, lowest first. It satisfies \<open>aead_ok\<close>.
\<close>

definition toy_pad :: "key \<Rightarrow> bytes \<Rightarrow> u8" where
  "toy_pad k iv = fold (XOR) (k @ iv) 0"

definition toy_tag :: "key \<Rightarrow> bytes \<Rightarrow> bytes \<Rightarrow> bytes" where
  "toy_tag k iv c = replicate 15 (toy_pad k iv) @ [fold (+) c (toy_pad k iv)]"

definition toy_encrypt :: "key \<Rightarrow> bytes \<Rightarrow> bytes \<Rightarrow> bytes" where
  "toy_encrypt k iv p = (let c = map (\<lambda>b. b XOR toy_pad k iv) p in c @ toy_tag k iv c)"

definition toy_decrypt :: "key \<Rightarrow> bytes \<Rightarrow> bytes \<Rightarrow> bytes option" where
  "toy_decrypt k iv x =
     (if length x < 16 then None
      else (let c = take (length x - 16) x; t = drop (length x - 16) x
            in if t = toy_tag k iv c then Some (map (\<lambda>b. b XOR toy_pad k iv) c) else None))"

definition toy_pbkdf2 :: "bytes \<Rightarrow> bytes \<Rightarrow> nat \<Rightarrow> key" where
  "toy_pbkdf2 password salt iterations =
     take 32 (password @ salt @ replicate 32 (of_nat (iterations mod 251)))"

definition toy_nat :: "nat \<Rightarrow> string" where
  "toy_nat n = map (\<lambda>i. ''0123456789'' ! (n div 10 ^ i mod 10)) [0..<8]"

definition toy_nat_value :: "string \<Rightarrow> nat" where
  "toy_nat_value s = foldr (\<lambda>c acc. (of_char c - 48) + 10 * acc) s 0"

definition toy_str :: "string \<Rightarrow> string" where
  "toy_str s = toy_nat (length s) @ s"

definition toy_int :: "int \<Rightarrow> string" where
  "toy_int i = (if i < 0 then CHR ''-'' else CHR ''+'') # toy_nat (nat \<bar>i\<bar>)"

definition toy_parse_str :: "string \<Rightarrow> (string \<times> string) option" where
  "toy_parse_str s =
     (if length s < 8 then None
      else (let n = toy_nat_value (take 8 s); r = drop 8 s
            in if length r < n then None else Some (take n r, drop n r)))"

definition toy_parse_int :: "string \<Rightarrow> (int \<times> string) option" where
  "toy_parse_int s =
     (case s of
        [] \<Rightarrow> None
      | c # r \<Rightarrow>
          if length r < 8 then None
          else Some ((if c = CHR ''-'' then - 1 else 1) * int (toy_nat_value (take 8 r)), drop 8 r))"

definition toy_stringify :: "pv_metadata \<Rightarrow> string" where
  "toy_stringify m =
     toy_str (md_name m) @ toy_str (md_type m) @ toy_int (md_size m) @
     toy_int (md_lastModified m) @
     (case md_originalFilename m of None \<Rightarrow> ''N'' | Some n \<Rightarrow> CHR ''S'' # toy_str n)"

definition toy_parse :: "string \<Rightarrow> pv_metadata option" where
  "toy_parse s =
     (case toy_parse_str s of
        None \<Rightarrow> None
      | Some (name, s1) \<Rightarrow>
     (case toy_parse_str s1 of
        None \<Rightarrow> None
      | Some (ty, s2) \<Rightarrow>
     (case toy_parse_int s2 of
        None \<Rightarrow> None
      | Some (sz, s3) \<Rightarrow>
     (case toy_parse_int s3 of
        None \<Rightarrow> None
      | Some (lastModified, s4) \<Rightarrow>
     (if s4 = ''N'' then
        Some \<lparr>md_name = name, md_type = ty, md_size = sz, md_lastModified = lastModified,
              md_originalFilename = None\<rparr>
      else
        (case s4 of
           [] \<Rightarrow> None
         | c # s5 \<Rightarrow>
             if c \<noteq> CHR ''S'' then None
             else (case toy_parse_str s5 of
                     None \<Rightarrow> None
                   | Some (n, rest) \<Rightarrow>
                       if rest \<noteq> [] then None
                       else Some \<lparr>md_name = name, md_type = ty, md_size = sz,
                                   md_lastModified = lastModified,
                                   md_originalFilename = Some n\<rparr>)))))))"

definition toy_platform :: platform where
  "toy_platform =
     \<lparr>aes_gcm_encrypt = toy_encrypt, aes_gcm_decrypt = toy_decrypt, pbkdf2 = toy_pbkdf2,
      json_stringify = toy_stringify, json_parse = toy_parse\<rparr>"

text \<open>
  A state in which the at-rest key exists and the seed phrase \<^verbatim>\<open>"test phrase"\<close> is
  stored under it.
\<close>

definition example_key :: key where
  "example_key = replicate 32 7"

definition example_seed_record :: bytes where
  "example_seed_record =
     replicate 12 9 @ toy_encrypt example_key (replicate 12 9) (text_encode ''test phrase'')"

definition example_world :: world where
  "example_world =
     \<lparr>rng = (\<lambda>i. of_nat i), encryptionKey = Some example_key,
      seedRecord = Some example_seed_record, clock = 5000, trace = []\<rparr>"

text \<open>
  The part of the invariant that the loop of \<^verbatim>\<open>deleteFolder\<close> maintains while the
  folder itself is already in the trash and still in the folder store.
\<close>

definition file_side_ok :: "db \<Rightarrow> bool" where
  "file_side_ok d \<longleftrightarrow> store_ok (files d) \<and> store_ok (trash d) \<and>
     distinct (map trash_origin (rows (trash d))) \<and> trash_files_ok d"

text \<open>A small database, reached from the empty one, for concrete instances.\<close>

definition example_file :: "string \<Rightarrow> nat option \<Rightarrow> file_item" where
  "example_file name folderId =
     \<lparr>file_name = name, file_type = ''text/plain'', file_size = 3,
      file_lastModified = 1000, file_content = Some [1, 2, 3], file_folderId = folderId,
      file_encrypted = None, file_externalSource = None\<rparr>"

definition example_db :: db where
  "example_db =
     perform_all
       [SaveFile (example_file ''a'' None), CreateFolder 5 ''docs'' None,
        CreateFolder 6 ''tmp'' None, SaveFile (example_file ''b'' (Some 1)), DeleteFile 10 1,
        DeleteFolder 11 2, SaveFile (example_file ''c'' None), DeleteFile 12 3,
        DeleteFromTrash 3] empty_db"

definition example_trashed_folder :: trash_item where
  "example_trashed_folder =
     \<lparr>trash_originalId = 2, trash_type = TFolder, trash_name = ''tmp'', trash_content = None,
      trash_size = 0, trash_fileType = ''folder'', trash_folderId = None, trash_parentId = None,
      trash_deletedAt = 11, trash_encrypted = False\<rparr>"

definition example_garbled :: bytes where
  "example_garbled = replicate 12 1 @ replicate 20 2"

declare encrypt_chunks.simps [simp del]

declare processNextSegment.simps [simp del]

text \<open>
  The byte range that iteration \<open>i\<close> of the chunk loop of \<open>exportLargeFileToPV\<close> cuts
  out of the content (\<open>file.content.slice(start, end)\<close> with \<open>start = i * CHUNK_SIZE\<close> and
  \<open>end = Math.min(start + CHUNK_SIZE, file.content.size)\<close>), and the bytes that follow the
  metadata in the blob an export returns: one AES-GCM output for a regular file, the
  concatenation of the per-chunk AES-GCM outputs for a file above \<open>LARGE_FILE_THRESHOLD\<close>.
\<close>

definition chunk_of :: "bytes \<Rightarrow> nat \<Rightarrow> bytes" where
  "chunk_of content i = js_slice content (i * CHUNK_SIZE) (min (i * CHUNK_SIZE + CHUNK_SIZE) (length content))"

definition export_ciphertext :: "platform \<Rightarrow> bool \<Rightarrow> key \<Rightarrow> bytes \<Rightarrow> bytes \<Rightarrow> bytes" where
  "export_ciphertext P large k iv content =
     (if large
      then concat (map (\<lambda>j. aes_gcm_encrypt P k iv (chunk_of content j))
             [0..<(length content + CHUNK_SIZE - 1) div CHUNK_SIZE])
      else aes_gcm_encrypt P k iv content)"

text \<open>The container that the export of file 2 of \<open>example_db\<close> produces on the toy platform.\<close>

definition example_container :: bytes where
  "example_container =
     [80, 86, 69, 78, 67, 48, 49, 0, 1, 2, 3, 4, 5, 6, 7, 8, 9, 10, 11, 12,
      13, 14, 15, 16, 17, 18, 19, 20, 21, 22, 23, 24, 25, 26, 27, 55, 0, 0,
      0, 49, 48, 48, 48, 48, 48, 48, 48, 98, 48, 49, 48, 48, 48, 48, 48, 48,
      116, 101, 120, 116, 47, 112, 108, 97, 105, 110, 43, 51, 48, 48, 48,
      48, 48, 48, 48, 43, 48, 48, 48, 49, 48, 48, 48, 48, 83, 49, 48, 48,
      48, 48, 48, 48, 48, 98, 76, 79, 78, 77, 77, 77, 77, 77, 77, 77, 77,
      77, 77, 77, 77, 77, 77, 77, 54]"

text \<open>A file whose first byte is not that of the magic tag.\<close>

definition example_bad_file :: pv_file where
  "example_bad_file = \<lparr>pv_name = ''x.pv'', pv_data = 81 # tl example_container\<rparr>"

text \<open>
  The events that a run adds to the trace: \<open>logs w w' S\<close> says that \<open>w'\<close> has the trace of
  \<open>w\<close> followed by events of \<open>S\<close> only, and \<open>import_events\<close> is what an import appends.
\<close>

definition logs :: "world \<Rightarrow> world \<Rightarrow> event set \<Rightarrow> bool" where
  "logs w w' S \<longleftrightarrow> (\<exists>tr. trace w' = trace w @ tr \<and> set tr \<subseteq> S)"

definition import_events :: "platform \<Rightarrow> pv_file \<Rightarrow> world \<Rightarrow> event list" where
  "import_events P pvFile w = drop (length (trace w)) (trace (snd (importPVFile P pvFile w)))"

abbreviation crypto_events :: "event set" where
  "crypto_events \<equiv> {EvGetSeedPhrase, EvDeriveKey, EvDecrypt}"

text \<open>
  The example container as a file, the same bytes followed by zeros up to one byte above
  \<^verbatim>\<open>VERY_LARGE_FILE_THRESHOLD\<close>, the metadata in the example container, and the item that
  its import yields.
\<close>

definition example_pv_file :: pv_file where
  "example_pv_file = \<lparr>pv_name = ''x.pv'', pv_data = example_container\<rparr>"

definition example_big_file :: pv_file where
  "example_big_file = \<lparr>pv_name = ''x.pv'', pv_data = example_container @ replicate 1932735171 0\<rparr>"

definition example_metadata :: pv_metadata where
  "example_metadata =
     \<lparr>md_name = ''b'', md_type = ''text/plain'', md_size = 3, md_lastModified = 1000,
      md_originalFilename = Some ''b''\<rparr>"

definition example_imported :: file_item where
  "example_imported =
     \<lparr>file_name = ''b'', file_type = ''text/plain'', file_size = 3, file_lastModified = 1000,
      file_content = Some [1, 2, 3], file_folderId = None, file_encrypted = Some False,
      file_externalSource =
        Some \<lparr>src_type = ''pv'', src_path = Some ''x.pv'', src_lastAccessed = 5000\<rparr>\<rparr>"

text \<open>
  The selection as the specification words it: the strategy is chosen from the remaining
  length, the length of the container minus that of its header, by the thresholds of the
  export.
\<close>

datatype strategy = Direct | Chunked | Streaming

definition spec_decrypt_strategy :: "nat \<Rightarrow> strategy" where
  "spec_decrypt_strategy remaining =
     (if remaining > VERY_LARGE_FILE_THRESHOLD then Streaming
      else if remaining > LARGE_FILE_THRESHOLD then Chunked
      else Direct)"

text \<open>The content of the file that an import returned, if it returned one.\<close>

definition imported_content :: "import_result \<Rightarrow> bytes option" where
  "imported_content r = (case r of Success item \<Rightarrow> file_content item | Failure e \<Rightarrow> None)"

text \<open>
  A file of one byte more than \<^verbatim>\<open>LARGE_FILE_THRESHOLD\<close>, stored unencrypted as the only
  file of a database, and the container that its export produces on the toy platform.
\<close>

definition example_large_content :: bytes where
  "example_large_content = replicate 52428801 0"

definition example_large_file :: file_item where
  "example_large_file =
     \<lparr>file_name = ''large.bin'', file_type = ''application/octet-stream'', file_size = 52428801,
      file_lastModified = 1000, file_content = Some example_large_content, file_folderId = None,
      file_encrypted = None, file_externalSource = None\<rparr>"

definition example_large_db :: db where
  "example_large_db = perform (SaveFile example_large_file) empty_db"

definition example_large_container :: bytes where
  "example_large_container =
     pv_header_bytes (map of_nat [0..<16]) (map (\<lambda>i. of_nat (i + 16)) [0..<12])
       (text_encode (toy_stringify (file_metadata example_large_file))) @
     export_ciphertext toy_platform True
       (toy_pbkdf2 (text_encode ''test phrase'') (map of_nat [0..<16]) ITERATION_COUNT)
       (map (\<lambda>i. of_nat (i + 16)) [0..<12]) example_large_content"

text \<open>A database with a file of \<open>2^53 - 1\<close> bytes and a file of 2 bytes.\<close>

definition example_huge_db :: db where
  "example_huge_db =
     perform_all
       [SaveFile (example_file ''a'' None\<lparr>file_size := 9007199254740991\<rparr>),
        SaveFile (example_file ''b'' None\<lparr>file_size := 2\<rparr>)] empty_db"

text \<open>
  A file marked as encrypted whose stored blob does not verify under the at-rest key, as
  the only file of a database.
\<close>

definition example_garbled_file :: file_item where
  "example_garbled_file =
     \<lparr>file_name = ''g'', file_type = ''text/plain'', file_size = 4,
      file_lastModified = 1000, file_content = Some example_garbled, file_folderId = None,
      file_encrypted = Some True, file_externalSource = None\<rparr>"

definition example_garbled_db :: db where
  "example_garbled_db = perform (SaveFile example_garbled_file) empty_db"

text \<open>The container of the file of 52428801 bytes, as a file.\<close>

definition example_large_pv_file :: pv_file where
  "example_large_pv_file = \<lparr>pv_name = ''large.pv'', pv_data = example_large_container\<rparr>"

section \<open>Properties\<close>

subsection \<open>The per-segment nonce\<close>

lemma ff_mask: "(0xff :: 32 word) = mask 8"
  by (simp add: mask_eq_exp_minus_1)

lemma signed_shift_byte:
  "k \<le> 24 \<Longrightarrow> (ucast (signed_drop_bit k (w :: 32 word) AND 0xff) :: u8) = ucast (drop_bit k w)"
  unfolding ff_mask
  by (rule bit_word_eqI) (auto simp add: bit_simps)

lemma shift_byte_of_nat:
  assumes "k \<le> 24"
  shows "(ucast (drop_bit k (word_of_nat n :: 32 word)) :: u8) = of_nat (n div 2 ^ k mod 256)"
proof -
  have "n div 2 ^ k mod 256 = take_bit 8 (drop_bit k n)"
    by (simp add: take_bit_eq_mod drop_bit_eq_div)
  then show ?thesis
    using assms by (simp only:) (rule bit_word_eqI, auto simp add: bit_simps)
qed

lemma indexBytes_spec_be32: "indexBytes (int n) = spec_be32 n"
  unfolding indexBytes_def spec_be32_def Let_def
  using signed_shift_byte [of 24 "word_of_nat n"] signed_shift_byte [of 16 "word_of_nat n"]
    signed_shift_byte [of 8 "word_of_nat n"] signed_shift_byte [of 0 "word_of_nat n"]
    shift_byte_of_nat [of 24 n] shift_byte_of_nat [of 16 n]
    shift_byte_of_nat [of 8 n] shift_byte_of_nat [of 0 n]
  by simp

lemma byte_of_nat_eq:
  assumes "(of_nat (x mod 256) :: u8) = of_nat (y mod 256)"
  shows "x mod 256 = y mod 256"
proof -
  from assms have "unat (of_nat (x mod 256) :: u8) = unat (of_nat (y mod 256) :: u8)"
    by simp
  then show ?thesis by (simp add: unat_of_nat)
qed

lemma div_mod_256_eq: "x div 256 = y div 256 \<Longrightarrow> x mod 256 = y mod 256 \<Longrightarrow> x = y"
  for x y :: nat
  by (metis div_mult_mod_eq)

lemma spec_be32_inj:
  assumes a: "a < 2 ^ 32" and b: "b < 2 ^ 32" and e: "spec_be32 a = spec_be32 b"
  shows "a = b"
proof -
  from e have m: "a div 2 ^ 24 mod 256 = b div 2 ^ 24 mod 256"
    "a div 2 ^ 16 mod 256 = b div 2 ^ 16 mod 256"
    "a div 2 ^ 8 mod 256 = b div 2 ^ 8 mod 256" "a mod 256 = b mod 256"
    unfolding spec_be32_def by (auto dest: byte_of_nat_eq)
  have s: "x div 2 ^ 24 = x div 2 ^ 16 div 256" "x div 2 ^ 16 = x div 2 ^ 8 div 256"
    "x div 2 ^ 8 = x div 256" for x :: nat
    by (simp_all add: div_mult2_eq [symmetric])
  have "a div 2 ^ 24 < 256" "b div 2 ^ 24 < 256"
    using a b by (simp_all add: less_mult_imp_div_less)
  with m(1) have "a div 2 ^ 24 = b div 2 ^ 24" by simp
  then have "a div 2 ^ 16 div 256 = b div 2 ^ 16 div 256" by (simp only: s(1))
  then have "a div 2 ^ 16 = b div 2 ^ 16" using m(2) by (rule div_mod_256_eq)
  then have "a div 2 ^ 8 div 256 = b div 2 ^ 8 div 256" by (simp only: s(2))
  then have "a div 2 ^ 8 = b div 2 ^ 8" using m(3) by (rule div_mod_256_eq)
  then have "a div 256 = b div 256" by (simp only: s(3))
  then show ?thesis using m(4) by (rule div_mod_256_eq)
qed

lemma upt_0_4: "[0..<4] = [0, 1, 2, 3]"
  by code_simp

lemma length_12_elems:
  "length (iv :: 'a list) = 12 \<Longrightarrow>
   \<exists>a0 a1 a2 a3 a4 a5 a6 a7 a8 a9 a10 a11. iv = [a0, a1, a2, a3, a4, a5, a6, a7, a8, a9, a10, a11]"
  by (simp add: numeral_eq_Suc length_Suc_conv) blast

lemma deriveSegmentIv_12:
  assumes "length iv = 12"
  shows "deriveSegmentIv iv k = take 8 iv @ map2 (XOR) (drop 8 iv) (indexBytes k)"
proof -
  obtain a0 a1 a2 a3 a4 a5 a6 a7 a8 a9 a10 a11
    where iv: "iv = [a0, a1, a2, a3, a4, a5, a6, a7, a8, a9, a10, a11]"
    using length_12_elems [of iv] assms by auto
  obtain b0 b1 b2 b3 where ib: "indexBytes k = [b0, b1, b2, b3]"
    by (simp add: indexBytes_def Let_def)
  show ?thesis
    by (simp add: deriveSegmentIv_def Let_def upt_0_4 ib iv xor_assign_def ta_get_def ta_set_def)
qed

lemma map2_xor_inj:
  "length xs = length ys \<Longrightarrow> length xs = length zs \<Longrightarrow>
   map2 (XOR) xs ys = map2 (XOR) xs zs \<Longrightarrow> ys = zs" for xs ys zs :: bytes
proof (induction xs arbitrary: ys zs)
  case Nil
  then show ?case by simp
next
  case (Cons x xs)
  then obtain y ys' z zs' where "ys = y # ys'" "zs = z # zs'"
    by (metis length_Suc_conv)
  with Cons.prems have "x XOR y = x XOR z" and tl: "map2 (XOR) xs ys' = map2 (XOR) xs zs'"
    and len: "length xs = length ys'" "length xs = length zs'"
    by simp_all
  then have "y = z" by (metis bit.xor_left_self)
  moreover have "ys' = zs'" using Cons.IH [OF len tl] .
  ultimately show ?case using \<open>ys = y # ys'\<close> \<open>zs = z # zs'\<close> by simp
qed

text \<open>
  Claim C5. For a 12-byte base IV, the per-segment nonce is the base IV with its last four
  bytes XORed with the big-endian encoding of the zero-based segment index; hence, for a
  fixed base IV, two different segment indices below \<open>2^32\<close> give different nonces.
\<close>

theorem deriveSegmentIv_unique:
  assumes "length baseIv = 12"
  shows "deriveSegmentIv baseIv (int i) =
           take 8 baseIv @ map2 (XOR) (drop 8 baseIv) (spec_be32 i) \<and>
         (i < 2 ^ 32 \<and> j < 2 ^ 32 \<and> i \<noteq> j \<longrightarrow>
            deriveSegmentIv baseIv (int i) \<noteq> deriveSegmentIv baseIv (int j))"
proof (intro conjI impI)
  show shape: "deriveSegmentIv baseIv (int i) =
      take 8 baseIv @ map2 (XOR) (drop 8 baseIv) (spec_be32 i)" for i
    using deriveSegmentIv_12 [OF assms] by (simp add: indexBytes_spec_be32)
  assume h: "i < 2 ^ 32 \<and> j < 2 ^ 32 \<and> i \<noteq> j"
  show "deriveSegmentIv baseIv (int i) \<noteq> deriveSegmentIv baseIv (int j)"
  proof
    assume "deriveSegmentIv baseIv (int i) = deriveSegmentIv baseIv (int j)"
    then have "map2 (XOR) (drop 8 baseIv) (spec_be32 i) = map2 (XOR) (drop 8 baseIv) (spec_be32 j)"
      by (simp add: shape)
    moreover have "length (drop 8 baseIv) = length (spec_be32 i)"
      "length (drop 8 baseIv) = length (spec_be32 j)"
      using assms by (simp_all add: spec_be32_def)
    ultimately have "spec_be32 i = spec_be32 j"
      by (rule map2_xor_inj [rotated 2])
    with h show False using spec_be32_inj by blast
  qed
qed

theorem deriveSegmentIv_unique_witness:
  "length [1, 2, 3, 4, 5, 6, 7, 8, 9, 10, 11, 12 :: u8] = 12 \<and>
   ((258 :: nat) < 2 ^ 32 \<and> (3 :: nat) < 2 ^ 32 \<and> (258 :: nat) \<noteq> 3) \<and>
   deriveSegmentIv [1, 2, 3, 4, 5, 6, 7, 8, 9, 10, 11, 12] (int 258) \<noteq>
     deriveSegmentIv [1, 2, 3, 4, 5, 6, 7, 8, 9, 10, 11, 12] (int 3)"
proof -
  have l: "length [1, 2, 3, 4, 5, 6, 7, 8, 9, 10, 11, 12 :: u8] = 12" by simp
  have n: "(258 :: nat) < 2 ^ 32 \<and> (3 :: nat) < 2 ^ 32 \<and> (258 :: nat) \<noteq> 3" by simp
  from deriveSegmentIv_unique [OF l, of 258 3] n
  have "deriveSegmentIv [1, 2, 3, 4, 5, 6, 7, 8, 9, 10, 11, 12] (int 258) \<noteq>
     deriveSegmentIv [1, 2, 3, 4, 5, 6, 7, 8, 9, 10, 11, 12] (int 3)" by blast
  with l n show ?thesis by blast
qed

subsection \<open>The object stores\<close>

lemma store_add_simps:
  "keygen (snd (store_add v s)) = Suc (keygen s)"
  "rows (snd (store_add v s)) = rows s @ [(keygen s, v)]"
  "fst (store_add v s) = keygen s"
  by (simp_all add: store_add_def)

lemma store_delete_simps:
  "keygen (store_delete k s) = keygen s"
  "rows (store_delete k s) = filter (\<lambda>r. fst r \<noteq> k) (rows s)"
  by (simp_all add: store_delete_def)

lemma store_clear_simps:
  "keygen (store_clear s) = keygen s"
  "rows (store_clear s) = []"
  by (simp_all add: store_clear_def)

lemma store_put_simps:
  "keygen (store_put k v s) = max (keygen s) (k + 1)"
  "rows (store_put k v s) =
     filter (\<lambda>r. fst r < k) (rows s) @ [(k, v)] @ filter (\<lambda>r. k < fst r) (rows s)"
  by (simp_all add: store_put_def)

lemma sorted_wrt_map_filter:
  "sorted_wrt (<) (map fst xs) \<Longrightarrow> sorted_wrt (<) (map fst (filter P xs))"
  by (induction xs) auto

lemma store_ok_add: "store_ok s \<Longrightarrow> store_ok (snd (store_add v s))"
  by (auto simp add: store_ok_def store_add_simps sorted_wrt_append less_Suc_eq)

lemma store_ok_delete: "store_ok s \<Longrightarrow> store_ok (store_delete k s)"
  by (auto simp add: store_ok_def store_delete_simps sorted_wrt_map_filter)

lemma store_ok_clear: "store_ok (store_clear s)"
  by (simp add: store_ok_def store_clear_simps)

lemma store_ok_put: "store_ok s \<Longrightarrow> store_ok (store_put k v s)"
  by (auto simp add: store_ok_def store_put_simps sorted_wrt_append sorted_wrt_map_filter)

lemma store_get_Some_row: "store_get k s = Some v \<Longrightarrow> (k, v) \<in> set (rows s)"
  by (simp add: store_get_def map_of_SomeD)

lemma store_get_key_in: "store_get k s = Some v \<Longrightarrow> k \<in> store_keys s"
  by (force simp add: store_keys_def dest: store_get_Some_row)

lemma store_get_None_key: "store_get k s = None \<longleftrightarrow> k \<notin> store_keys s"
  by (simp add: store_get_def store_keys_def map_of_eq_None_iff)

lemma store_ok_key_less: "store_ok s \<Longrightarrow> k \<in> store_keys s \<Longrightarrow> k < keygen s"
  by (auto simp add: store_ok_def store_keys_def)

lemma store_ok_keygen_fresh: "store_ok s \<Longrightarrow> keygen s \<notin> store_keys s"
  by (auto dest: store_ok_key_less)

lemma keys_add: "store_keys (snd (store_add v s)) = insert (keygen s) (store_keys s)"
  by (simp add: store_keys_def store_add_simps)

lemma keys_delete: "store_keys (store_delete k s) = store_keys s - {k}"
  by (force simp add: store_keys_def store_delete_simps)

lemma keys_clear: "store_keys (store_clear s) = {}"
  by (simp add: store_keys_def store_clear_simps)

lemma keys_put: "k \<in> store_keys s \<Longrightarrow> store_keys (store_put k v s) = store_keys s"
  by (force simp add: store_keys_def store_put_simps)

lemma keygen_put: "store_ok s \<Longrightarrow> k \<in> store_keys s \<Longrightarrow> keygen (store_put k v s) = keygen s"
  by (auto simp add: store_put_simps dest: store_ok_key_less)

lemma rows_delete_subset: "r \<in> set (rows (store_delete k s)) \<Longrightarrow> r \<in> set (rows s)"
  by (simp add: store_delete_simps)

lemma distinct_origin_delete:
  "distinct (map trash_origin (rows s)) \<Longrightarrow> distinct (map trash_origin (rows (store_delete k s)))"
  by (simp add: store_delete_simps distinct_map_filter)

lemmas store_simps = store_ok_add store_ok_delete store_ok_clear store_ok_put keys_add keys_delete
  keys_clear store_add_simps(1) store_delete_simps(1) store_clear_simps distinct_origin_delete

lemma saveFile_eq: "saveFile file d = (keygen (files d), d\<lparr>files := snd (store_add file (files d))\<rparr>)"
  by (simp add: saveFile_def store_add_def)

lemma addFile_eq: "addFile file d = saveFile file d"
  by (simp add: saveFile_def addFile_def)

lemma createFolder_eq:
  "createFolder now name parentId d =
     (keygen (folders d),
      d\<lparr>folders := snd (store_add \<lparr>folder_name = name, folder_parentId = parentId,
         folder_createdAt = now\<rparr> (folders d))\<rparr>)"
  by (simp add: createFolder_def store_add_def)

lemma db_inv_saveFile: "db_inv d \<Longrightarrow> db_inv (snd (saveFile file d))"
  unfolding db_inv_def trash_files_ok_def trash_folders_ok_def saveFile_eq
  by (simp add: store_simps) auto

lemma db_inv_createFolder: "db_inv d \<Longrightarrow> db_inv (snd (createFolder now name parentId d))"
  unfolding db_inv_def trash_files_ok_def trash_folders_ok_def createFolder_eq
  by (simp add: store_simps) auto

lemma db_inv_permanentlyDeleteFile: "db_inv d \<Longrightarrow> db_inv (permanentlyDeleteFile fileId d)"
  unfolding db_inv_def trash_files_ok_def trash_folders_ok_def permanentlyDeleteFile_def
  by (simp add: store_simps)

lemma db_inv_deleteFromTrash: "db_inv d \<Longrightarrow> db_inv (deleteFromTrash trashId d)"
  unfolding db_inv_def trash_files_ok_def trash_folders_ok_def deleteFromTrash_def
  by (simp add: store_simps) (auto dest!: rows_delete_subset)

lemma db_inv_emptyTrash: "db_inv d \<Longrightarrow> db_inv (emptyTrash d)"
  unfolding db_inv_def trash_files_ok_def trash_folders_ok_def emptyTrash_def
  by (simp add: store_simps)

lemma db_inv_clearAllData: "db_inv d \<Longrightarrow> db_inv (clearAllData d)"
  unfolding db_inv_def trash_files_ok_def trash_folders_ok_def clearAllData_def
  by (simp add: store_simps)

lemma db_inv_put_file:
  assumes "db_inv d" "store_get fileId (files d) = Some f"
  shows "db_inv (d\<lparr>files := store_put fileId f' (files d)\<rparr>)"
proof -
  from assms(2) have k: "fileId \<in> store_keys (files d)" by (rule store_get_key_in)
  from assms(1) have "store_ok (files d)" by (simp add: db_inv_def)
  with k have "keygen (store_put fileId f' (files d)) = keygen (files d)"
    "store_keys (store_put fileId f' (files d)) = store_keys (files d)"
    by (simp_all add: keys_put keygen_put)
  with assms(1) show ?thesis
    unfolding db_inv_def trash_files_ok_def trash_folders_ok_def
    by (simp add: store_simps)
qed

lemma db_inv_updateFileName:
  "db_inv d \<Longrightarrow> db_inv (settled (updateFileName fileId newName d) d)"
  by (auto simp add: updateFileName_def settled_def db_inv_put_file split: option.splits)

lemma db_inv_moveFile:
  "db_inv d \<Longrightarrow> db_inv (settled (moveFile fileId newFolderId d) d)"
  by (auto simp add: moveFile_def settled_def db_inv_put_file split: option.splits)

lemma db_inv_deleteFile:
  assumes "db_inv d"
  shows "db_inv (settled (deleteFile now fileId d) d)"
proof (cases "store_get fileId (files d)")
  case None
  then show ?thesis using assms by (simp add: deleteFile_def settled_def)
next
  case (Some f)
  then have k: "fileId \<in> store_keys (files d)" by (rule store_get_key_in)
  with assms have l: "fileId < keygen (files d)"
    by (simp add: db_inv_def store_ok_key_less)
  from assms k have "(TFile, fileId) \<notin> set (map trash_origin (rows (trash d)))"
    by (auto simp add: db_inv_def trash_files_ok_def trash_origin_def)
  with Some assms l show ?thesis
    unfolding db_inv_def trash_files_ok_def trash_folders_ok_def deleteFile_def settled_def Let_def
    by (simp add: store_simps store_add_simps(2) file_trash_item_def trash_origin_def)
qed

lemma db_inv_restoreFromTrash:
  assumes "db_inv d"
  shows "db_inv (settled (restoreFromTrash now trashId d) d)"
proof (cases "store_get trashId (trash d)")
  case None
  then show ?thesis using assms by (simp add: restoreFromTrash_def settled_def)
next
  case (Some t)
  show ?thesis
  proof (cases "trash_type t")
    case TFile
    with Some assms show ?thesis
      unfolding db_inv_def trash_files_ok_def trash_folders_ok_def restoreFromTrash_def
        settled_def Let_def
      by (simp add: store_simps) (auto dest!: rows_delete_subset)
  next
    case TFolder
    with Some assms show ?thesis
      unfolding db_inv_def trash_files_ok_def trash_folders_ok_def restoreFromTrash_def
        settled_def Let_def
      by (simp add: store_simps) (auto dest!: rows_delete_subset)
  qed
qed

text \<open>The loop of \<^verbatim>\<open>deleteFolder\<close>.\<close>

lemma trash_one_file_step:
  assumes "file_side_ok d" "fst r \<in> store_keys (files d)"
  shows "file_side_ok (trash_one_file now r d)"
    and "folders (trash_one_file now r d) = folders d"
    and "keygen (files (trash_one_file now r d)) = keygen (files d)"
    and "store_keys (files (trash_one_file now r d)) = store_keys (files d) - {fst r}"
    and "\<forall>x \<in> set (rows (trash (trash_one_file now r d))).
           trash_type (snd x) = TFolder \<longrightarrow> x \<in> set (rows (trash d))"
proof -
  from assms have l: "fst r < keygen (files d)"
    by (simp add: file_side_ok_def store_ok_key_less)
  from assms have "(TFile, fst r) \<notin> set (map trash_origin (rows (trash d)))"
    by (auto simp add: file_side_ok_def trash_files_ok_def trash_origin_def)
  with assms l show "file_side_ok (trash_one_file now r d)"
    unfolding file_side_ok_def trash_files_ok_def trash_one_file_def
    by (simp add: store_simps store_add_simps(2) file_trash_item_def trash_origin_def)
  show "folders (trash_one_file now r d) = folders d"
    "keygen (files (trash_one_file now r d)) = keygen (files d)"
    "store_keys (files (trash_one_file now r d)) = store_keys (files d) - {fst r}"
    "\<forall>x \<in> set (rows (trash (trash_one_file now r d))).
           trash_type (snd x) = TFolder \<longrightarrow> x \<in> set (rows (trash d))"
    by (simp_all add: trash_one_file_def store_simps store_add_simps(2) file_trash_item_def)
qed

lemma trash_files_loop:
  assumes "file_side_ok d" "distinct (map fst fs)" "fst ` set fs \<subseteq> store_keys (files d)"
  shows "file_side_ok (fold (trash_one_file now) fs d) \<and>
         folders (fold (trash_one_file now) fs d) = folders d \<and>
         keygen (files (fold (trash_one_file now) fs d)) = keygen (files d) \<and>
         store_keys (files (fold (trash_one_file now) fs d)) = store_keys (files d) - fst ` set fs \<and>
         (\<forall>x \<in> set (rows (trash (fold (trash_one_file now) fs d))).
           trash_type (snd x) = TFolder \<longrightarrow> x \<in> set (rows (trash d)))"
  using assms
proof (induction fs arbitrary: d)
  case Nil
  then show ?case by simp
next
  case (Cons r fs)
  from Cons.prems have k: "fst r \<in> store_keys (files d)" by simp
  note st = trash_one_file_step [OF Cons.prems(1) k, of now]
  have nr: "fst r \<notin> fst ` set fs" using Cons.prems(2) by simp
  have "fst ` set fs \<subseteq> store_keys (files d)" using Cons.prems(3) by simp
  with nr have sub: "fst ` set fs \<subseteq> store_keys (files (trash_one_file now r d))"
    unfolding st(4) by blast
  have dist: "distinct (map fst fs)" using Cons.prems(2) by simp
  note ih = Cons.IH [OF st(1) dist sub]
  have "fold (trash_one_file now) (r # fs) d = fold (trash_one_file now) fs (trash_one_file now r d)"
    by simp
  moreover have "store_keys (files (trash_one_file now r d)) - fst ` set fs =
      store_keys (files d) - fst ` set (r # fs)"
    unfolding st(4) by auto
  ultimately show ?case using ih st(2,3,5) by (simp only:) blast
qed

lemma files_in_folder_keys:
  "distinct (map fst (rows s)) \<Longrightarrow> distinct (map fst (files_in_folder k s))"
  "fst ` set (files_in_folder k s) \<subseteq> store_keys s"
  by (auto simp add: files_in_folder_def store_keys_def distinct_map_filter)

lemma store_ok_distinct: "store_ok s \<Longrightarrow> distinct (map fst (rows s))"
  unfolding store_ok_def using strict_sorted_iff by blast

lemma trash_files_ok_cong:
  "files d' = files d \<Longrightarrow> trash d' = trash d \<Longrightarrow> trash_files_ok d' = trash_files_ok d"
  by (simp add: trash_files_ok_def)

lemma db_inv_deleteFolder:
  assumes "db_inv d"
  shows "db_inv (settled (deleteFolder now folderId d) d)"
proof (cases "store_get folderId (folders d)")
  case None
  then show ?thesis using assms by (simp add: deleteFolder_def settled_def)
next
  case (Some fo)
  define item where "item =
    \<lparr>trash_originalId = folderId, trash_type = TFolder,
     trash_name = folder_name fo, trash_content = None, trash_size = 0,
     trash_fileType = ''folder'', trash_folderId = None,
     trash_parentId = folder_parentId fo, trash_deletedAt = now,
     trash_encrypted = False\<rparr>"
  define d1 where "d1 = d\<lparr>trash := snd (store_add item (trash d))\<rparr>"
  define fs where "fs = files_in_folder folderId (files d1)"
  define d2 where "d2 = fold (trash_one_file now) fs d1"
  have res: "settled (deleteFolder now folderId d) d = d2\<lparr>folders := store_delete folderId (folders d2)\<rparr>"
    using Some by (simp add: deleteFolder_def settled_def Let_def item_def d1_def fs_def d2_def)
  from Some have k: "folderId \<in> store_keys (folders d)" by (rule store_get_key_in)
  with assms have l: "folderId < keygen (folders d)"
    by (simp add: db_inv_def store_ok_key_less)
  from assms k have "(TFolder, folderId) \<notin> set (map trash_origin (rows (trash d)))"
    by (auto simp add: db_inv_def trash_folders_ok_def trash_origin_def)
  with assms have fso: "file_side_ok d1"
    unfolding file_side_ok_def db_inv_def trash_files_ok_def d1_def item_def
    by (simp add: store_simps store_add_simps(2) trash_origin_def)
  have "distinct (map fst fs)" "fst ` set fs \<subseteq> store_keys (files d1)"
    using assms unfolding fs_def
    by (simp_all add: files_in_folder_keys d1_def db_inv_def store_ok_distinct)
  from trash_files_loop [OF fso this, of now]
  have lp: "file_side_ok d2" "folders d2 = folders d1"
    "\<forall>x \<in> set (rows (trash d2)). trash_type (snd x) = TFolder \<longrightarrow> x \<in> set (rows (trash d1))"
    unfolding d2_def by blast+
  have tf: "trash_folders_ok (d2\<lparr>folders := store_delete folderId (folders d2)\<rparr>)"
    unfolding trash_folders_ok_def
  proof (intro ballI impI)
    fix x
    assume "x \<in> set (rows (trash (d2\<lparr>folders := store_delete folderId (folders d2)\<rparr>)))"
      and ty: "trash_type (snd x) = TFolder"
    with lp(3) have "x \<in> set (rows (trash d1))" by simp
    then have "x \<in> set (rows (trash d)) \<or> snd x = item"
      by (auto simp add: d1_def store_add_simps(2))
    then show "trash_originalId (snd x)
         \<notin> store_keys (folders (d2\<lparr>folders := store_delete folderId (folders d2)\<rparr>)) \<and>
         trash_originalId (snd x) < keygen (folders (d2\<lparr>folders := store_delete folderId (folders d2)\<rparr>))"
      using assms ty l
      by (auto simp add: lp(2) d1_def store_simps db_inv_def trash_folders_ok_def item_def)
  qed
  have "trash_files_ok (d2\<lparr>folders := store_delete folderId (folders d2)\<rparr>) = trash_files_ok d2"
    by (rule trash_files_ok_cong) simp_all
  with lp(1) tf assms show ?thesis
    unfolding res db_inv_def file_side_ok_def
    by (simp add: lp(2) d1_def store_simps)
qed

lemma db_inv_perform: "db_inv d \<Longrightarrow> db_inv (perform c d)"
  by (cases c)
    (simp_all add: db_inv_saveFile addFile_eq db_inv_deleteFile db_inv_permanentlyDeleteFile
      db_inv_updateFileName db_inv_moveFile db_inv_createFolder db_inv_deleteFolder
      db_inv_restoreFromTrash db_inv_deleteFromTrash db_inv_emptyTrash db_inv_clearAllData)

lemma db_inv_perform_all: "db_inv d \<Longrightarrow> db_inv (perform_all cs d)"
  unfolding perform_all_def by (induction cs arbitrary: d) (simp_all add: db_inv_perform)

lemma db_inv_empty: "db_inv empty_db"
  by (simp add: db_inv_def empty_db_def empty_store_def store_ok_def trash_files_ok_def
      trash_folders_ok_def)








text \<open>Lookups after updates.\<close>

lemma map_of_filter_key: "map_of (filter (\<lambda>r. fst r \<noteq> k) xs) k' = (if k' = k then None else map_of xs k')"
  by (induction xs) auto

lemma store_get_delete: "store_get k' (store_delete k s) = (if k' = k then None else store_get k' s)"
  by (simp add: store_get_def store_delete_simps map_of_filter_key)

lemma store_get_add:
  "store_get k' (snd (store_add v s)) =
     (case store_get k' s of Some x \<Rightarrow> Some x | None \<Rightarrow> if k' = keygen s then Some v else None)"
  by (simp add: store_get_def store_add_simps map_add_def split: option.splits)

lemma store_get_add_new: "store_ok s \<Longrightarrow> store_get (keygen s) (snd (store_add v s)) = Some v"
  using store_ok_keygen_fresh [of s] by (simp add: store_get_add store_get_None_key [symmetric])


lemma restoreFromTrash_effect:
  assumes "store_get trashId (trash d) = Some t"
  shows "restoreFromTrash now trashId d = Inr (perform (RestoreFromTrash now trashId) d)"
    and "store_get trashId (trash (perform (RestoreFromTrash now trashId) d)) = None"
    and "getTrashItems (perform (RestoreFromTrash now trashId) d) =
           filter (\<lambda>r. fst r \<noteq> trashId) (getTrashItems d)"
    and "trash_type t = TFile \<Longrightarrow>
           store_getAll (files (perform (RestoreFromTrash now trashId) d)) =
             store_getAll (files d) @
               [(keygen (files d),
                 \<lparr>file_name = trash_name t, file_type = trash_fileType t, file_size = trash_size t,
                  file_lastModified = now, file_content = trash_content t,
                  file_folderId = trash_folderId t, file_encrypted = Some (trash_encrypted t),
                  file_externalSource = None\<rparr>)] \<and>
           folders (perform (RestoreFromTrash now trashId) d) = folders d"
    and "trash_type t = TFolder \<Longrightarrow>
           store_getAll (folders (perform (RestoreFromTrash now trashId) d)) =
             store_getAll (folders d) @
               [(keygen (folders d),
                 \<lparr>folder_name = trash_name t, folder_parentId = trash_parentId t,
                  folder_createdAt = now\<rparr>)] \<and>
           files (perform (RestoreFromTrash now trashId) d) = files d"
  using assms
  by (simp_all add: restoreFromTrash_def settled_def Let_def store_get_delete getTrashItems_def
      store_getAll_def store_add_simps store_delete_simps split: trash_type.splits)

text \<open>The example database.\<close>

lemmas db_eval = example_db_def perform_all_def empty_db_def empty_store_def saveFile_def
  createFolder_def deleteFile_def deleteFolder_def deleteFromTrash_def restoreFromTrash_def
  settled_def store_add_def store_get_def store_delete_def Let_def example_file_def
  file_trash_item_def files_in_folder_def trash_one_file_def example_trashed_folder_def

lemma example_db_inv: "db_inv example_db"
  unfolding example_db_def by (rule db_inv_perform_all [OF db_inv_empty])

lemma example_db_facts:
  "retired (files example_db) 1" "retired (folders example_db) 2" "retired (trash example_db) 3"
  "store_get 2 (files example_db) = Some (example_file ''b'' (Some 1))"
  "store_get 1 (trash example_db) = Some (file_trash_item 10 1 (example_file ''a'' None))"
  "store_get 2 (trash example_db) = Some example_trashed_folder"
  "trash_type (file_trash_item 10 1 (example_file ''a'' None)) = TFile"
  "trash_type example_trashed_folder = TFolder"
  by (simp_all add: db_eval retired_def store_keys_def)




text \<open>
  Claim C10. Restoring a trashed file appends to the file store one record with the trash
  item's name, content, size, file type, folder reference and encrypted flag, under the
  next key of the file store, with \<open>lastModified\<close> the time of the restoration; a
  restored folder gets the next key of the folder store and \<open>createdAt\<close> the time of
  the restoration. The other rows of the three stores are unchanged, apart from the removal
  of the restored trash entry. A file that is deleted and then restored comes back under a
  new id with the restoration time as \<open>lastModified\<close>, whatever it was before.
\<close>

theorem restore_frame:
  assumes "db_inv d" and "store_get trashId (trash d) = Some t"
  shows "restoreFromTrash now trashId d = Inr (perform (RestoreFromTrash now trashId) d) \<and>
    getTrashItems (perform (RestoreFromTrash now trashId) d) =
      filter (\<lambda>r. fst r \<noteq> trashId) (getTrashItems d) \<and>
    (trash_type t = TFile \<longrightarrow>
       store_getAll (files (perform (RestoreFromTrash now trashId) d)) =
         store_getAll (files d) @
           [(keygen (files d),
             \<lparr>file_name = trash_name t, file_type = trash_fileType t, file_size = trash_size t,
              file_lastModified = now, file_content = trash_content t,
              file_folderId = trash_folderId t, file_encrypted = Some (trash_encrypted t),
              file_externalSource = None\<rparr>)] \<and>
       keygen (files d) \<notin> store_keys (files d) \<and>
       keygen (files d) \<noteq> trash_originalId t \<and>
       folders (perform (RestoreFromTrash now trashId) d) = folders d) \<and>
    (trash_type t = TFolder \<longrightarrow>
       store_getAll (folders (perform (RestoreFromTrash now trashId) d)) =
         store_getAll (folders d) @
           [(keygen (folders d),
             \<lparr>folder_name = trash_name t, folder_parentId = trash_parentId t,
              folder_createdAt = now\<rparr>)] \<and>
       keygen (folders d) \<notin> store_keys (folders d) \<and>
       keygen (folders d) \<noteq> trash_originalId t \<and>
       files (perform (RestoreFromTrash now trashId) d) = files d) \<and>
    (store_get fileId (files d) = Some f \<longrightarrow>
       store_get (keygen (files d))
         (files (perform (RestoreFromTrash now2 (keygen (trash d))) (perform (DeleteFile now1 fileId) d))) =
         Some (f\<lparr>file_lastModified := now2,
                 file_encrypted := Some (case file_encrypted f of Some b \<Rightarrow> b | None \<Rightarrow> False),
                 file_externalSource := None\<rparr>) \<and>
       store_get fileId
         (files (perform (RestoreFromTrash now2 (keygen (trash d))) (perform (DeleteFile now1 fileId) d))) =
         None)"
proof (intro conjI impI)
  note e = restoreFromTrash_effect [OF assms(2)]
  from assms(2) have r: "(trashId, t) \<in> set (rows (trash d))" by (rule store_get_Some_row)
  show "restoreFromTrash now trashId d = Inr (perform (RestoreFromTrash now trashId) d)"
    by (rule e(1))
  show "getTrashItems (perform (RestoreFromTrash now trashId) d) =
      filter (\<lambda>r. fst r \<noteq> trashId) (getTrashItems d)" by (rule e(3))
  {
    assume ty: "trash_type t = TFile"
    from e(4) [OF ty] show "store_getAll (files (perform (RestoreFromTrash now trashId) d)) =
         store_getAll (files d) @
           [(keygen (files d),
             \<lparr>file_name = trash_name t, file_type = trash_fileType t, file_size = trash_size t,
              file_lastModified = now, file_content = trash_content t,
              file_folderId = trash_folderId t, file_encrypted = Some (trash_encrypted t),
              file_externalSource = None\<rparr>)]"
      "folders (perform (RestoreFromTrash now trashId) d) = folders d" by simp_all
    show "keygen (files d) \<notin> store_keys (files d)"
      using assms(1) by (simp add: db_inv_def store_ok_keygen_fresh)
    from assms(1) r ty have "trash_originalId t < keygen (files d)"
      by (auto simp add: db_inv_def trash_files_ok_def)
    then show "keygen (files d) \<noteq> trash_originalId t" by simp
  }
  {
    assume ty: "trash_type t = TFolder"
    from e(5) [OF ty] show "store_getAll (folders (perform (RestoreFromTrash now trashId) d)) =
         store_getAll (folders d) @
           [(keygen (folders d),
             \<lparr>folder_name = trash_name t, folder_parentId = trash_parentId t,
              folder_createdAt = now\<rparr>)]"
      "files (perform (RestoreFromTrash now trashId) d) = files d" by simp_all
    show "keygen (folders d) \<notin> store_keys (folders d)"
      using assms(1) by (simp add: db_inv_def store_ok_keygen_fresh)
    from assms(1) r ty have "trash_originalId t < keygen (folders d)"
      by (auto simp add: db_inv_def trash_folders_ok_def)
    then show "keygen (folders d) \<noteq> trash_originalId t" by simp
  }
  {
    assume g: "store_get fileId (files d) = Some f"
    define d1 where "d1 = perform (DeleteFile now1 fileId) d"
    have d1: "files d1 = store_delete fileId (files d)"
      "trash d1 = snd (store_add (file_trash_item now1 fileId f) (trash d))"
      using g by (simp_all add: d1_def deleteFile_def settled_def Let_def)
    from assms(1) have ok: "store_ok (trash d)" "store_ok (files d)" by (simp_all add: db_inv_def)
    have gt: "store_get (keygen (trash d)) (trash d1) = Some (file_trash_item now1 fileId f)"
      using ok by (simp add: d1 store_get_add_new)
    from g have "fileId \<in> store_keys (files d)" by (rule store_get_key_in)
    with ok(2) have "fileId < keygen (files d)" by (rule store_ok_key_less)
    then have ne: "fileId \<noteq> keygen (files d)" by simp
    have fr: "store_get (keygen (files d)) (files d) = None"
      using ok by (simp add: store_get_None_key store_ok_keygen_fresh)
    have f: "f\<lparr>file_lastModified := now2,
                 file_encrypted := Some (case file_encrypted f of Some b \<Rightarrow> b | None \<Rightarrow> False),
                 file_externalSource := None\<rparr> =
        \<lparr>file_name = file_name f, file_type = file_type f, file_size = file_size f,
              file_lastModified = now2, file_content = file_content f,
              file_folderId = file_folderId f, file_encrypted = Some (case file_encrypted f of Some b \<Rightarrow> b | None \<Rightarrow> False),
              file_externalSource = None\<rparr>"
      by simp
    show "store_get (keygen (files d))
         (files (perform (RestoreFromTrash now2 (keygen (trash d))) (perform (DeleteFile now1 fileId) d))) =
         Some (f\<lparr>file_lastModified := now2,
                 file_encrypted := Some (case file_encrypted f of Some b \<Rightarrow> b | None \<Rightarrow> False),
                 file_externalSource := None\<rparr>)"
      unfolding d1_def [symmetric] f using gt ne fr
      by (simp add: restoreFromTrash_def settled_def Let_def d1(1) store_get_add store_get_delete
          store_delete_simps file_trash_item_def)
    show "store_get fileId
         (files (perform (RestoreFromTrash now2 (keygen (trash d))) (perform (DeleteFile now1 fileId) d))) =
         None"
      unfolding d1_def [symmetric] using gt ne
      by (simp add: restoreFromTrash_def settled_def Let_def d1(1) store_get_add store_get_delete
          store_delete_simps file_trash_item_def)
  }
qed


theorem restore_frame_witness:
  "db_inv example_db \<and>
   store_get 1 (trash example_db) = Some (file_trash_item 10 1 (example_file ''a'' None)) \<and>
   trash_type (file_trash_item 10 1 (example_file ''a'' None)) = TFile \<and>
   store_get 2 (trash example_db) = Some example_trashed_folder \<and>
   trash_type example_trashed_folder = TFolder \<and>
   store_get 2 (files example_db) = Some (example_file ''b'' (Some 1)) \<and>
   store_getAll (files (perform (RestoreFromTrash 40 1) example_db)) =
     store_getAll (files example_db) @
       [(4, \<lparr>file_name = ''a'', file_type = ''text/plain'', file_size = 3,
             file_lastModified = 40, file_content = Some [1, 2, 3], file_folderId = None,
             file_encrypted = Some False, file_externalSource = None\<rparr>)] \<and>
   folders (perform (RestoreFromTrash 40 1) example_db) = folders example_db \<and>
   store_getAll (folders (perform (RestoreFromTrash 40 2) example_db)) =
     store_getAll (folders example_db) @
       [(3, \<lparr>folder_name = ''tmp'', folder_parentId = None, folder_createdAt = 40\<rparr>)] \<and>
   files (perform (RestoreFromTrash 40 2) example_db) = files example_db \<and>
   store_get 4 (files (perform (RestoreFromTrash 60 4) (perform (DeleteFile 50 2) example_db))) =
     Some (example_file ''b'' (Some 1)
       \<lparr>file_lastModified := 60, file_encrypted := Some False, file_externalSource := None\<rparr>) \<and>
   store_get 2 (files (perform (RestoreFromTrash 60 4) (perform (DeleteFile 50 2) example_db))) =
     None"
proof -
  note f = example_db_facts
  have k: "keygen (files example_db) = 4" "keygen (folders example_db) = 3"
    "keygen (trash example_db) = 4"
    by (simp_all add: db_eval)
  have v: "trash_name (file_trash_item 10 1 (example_file ''a'' None)) = ''a''"
    "trash_fileType (file_trash_item 10 1 (example_file ''a'' None)) = ''text/plain''"
    "trash_size (file_trash_item 10 1 (example_file ''a'' None)) = 3"
    "trash_content (file_trash_item 10 1 (example_file ''a'' None)) = Some [1, 2, 3]"
    "trash_folderId (file_trash_item 10 1 (example_file ''a'' None)) = None"
    "trash_encrypted (file_trash_item 10 1 (example_file ''a'' None)) = False"
    "trash_name example_trashed_folder = ''tmp''"
    "trash_parentId example_trashed_folder = None"
    "file_encrypted (example_file ''b'' (Some 1)) = None"
    by (simp_all add: file_trash_item_def example_file_def example_trashed_folder_def)
  note a = restore_frame [OF example_db_inv f(5), where now = 40 and fileId = 2
      and f = "example_file ''b'' (Some 1)" and ?now1.0 = 50 and ?now2.0 = 60]
  note b = restore_frame [OF example_db_inv f(6), where now = 40 and fileId = 2
      and f = "example_file ''b'' (Some 1)" and ?now1.0 = 50 and ?now2.0 = 60]
  from a b f example_db_inv show ?thesis unfolding k v by simp
qed

subsection \<open>Bytes, text and the length field\<close>

lemma unat_of_char: "unat (of_char c :: u8) = of_char c"
proof -
  have "(of_char c :: u8) = of_nat (of_char c)" by (simp add: of_nat_of_char)
  then have "unat (of_char c :: u8) = (of_char c :: nat) mod 256" by (simp add: unat_of_nat)
  then show ?thesis by simp
qed

lemma char_byte_inverse: "char_of (unat (of_char c :: u8)) = c"
  by (simp add: unat_of_char)

lemma byte_char_inverse: "(of_char (char_of (unat w)) :: u8) = w"
proof -
  have "unat w < 256" using unsigned_less [of w, where ?'a = nat] by simp
  then have a: "(of_char (char_of (unat w)) :: nat) = unat w" by simp
  have "(of_char (char_of (unat w)) :: u8) = of_nat (of_char (char_of (unat w)))"
    by (simp only: of_nat_of_char)
  also have "\<dots> = of_nat (unat w)" by (simp only: a)
  also have "\<dots> = w" by simp
  finally show ?thesis .
qed

lemma text_decode_encode: "text_decode (text_encode s) = s"
  by (simp add: text_decode_def text_encode_def char_byte_inverse o_def)

lemma text_encode_decode: "text_encode (text_decode b) = b"
  by (simp add: text_decode_def text_encode_def byte_char_inverse o_def)

lemma magic_bytes: "text_encode PV_HEADER = [0x50, 0x56, 0x45, 0x4E, 0x43, 0x30, 0x31]"
  by (simp add: text_encode_def PV_HEADER_def)

lemma length_uint32_bytes: "length (uint32_bytes n) = 4"
  by (simp add: uint32_bytes_def Let_def)

lemma word32_of_bytes:
  "(ucast (ucast w :: u8) :: 32 word) OR push_bit 8 (ucast (ucast (drop_bit 8 w) :: u8)) OR
     push_bit 16 (ucast (ucast (drop_bit 16 w) :: u8)) OR
     push_bit 24 (ucast (ucast (drop_bit 24 w) :: u8)) = w" for w :: "32 word"
proof (rule bit_word_eqI)
  fix n
  assume "n < LENGTH(32)"
  then have n: "n < 32" by simp
  consider "n < 8" | "8 \<le> n" "n < 16" | "16 \<le> n" "n < 24" | "24 \<le> n"
    by linarith
  then show "bit ((ucast (ucast w :: u8) :: 32 word) OR push_bit 8 (ucast (ucast (drop_bit 8 w) :: u8)) OR
     push_bit 16 (ucast (ucast (drop_bit 16 w) :: u8)) OR
     push_bit 24 (ucast (ucast (drop_bit 24 w) :: u8))) n = bit w n"
    using n by cases (auto simp add: bit_simps)
qed

lemma uint32_roundtrip: "uint32_of_bytes (uint32_bytes n) = n mod 2 ^ 32"
  by (simp add: uint32_of_bytes_def uint32_bytes_def Let_def word32_of_bytes unat_of_nat)


subsection \<open>Key derivation and at-rest decryption\<close>

text \<open>
  Claim C7, as amended. Key derivation validates nothing: for every secret phrase, the
  empty one included, and every salt, of any length, it returns the key that PBKDF2 with
  100000 iterations derives from the encoded phrase and the salt, and throws nothing.
\<close>

theorem deriveKey_no_validation:
  "deriveKeyFromSeedPhrase P seedPhrase salt w =
     (Inr (pbkdf2 P (text_encode seedPhrase) salt ITERATION_COUNT), log_event EvDeriveKey w)"
  by (simp add: deriveKeyFromSeedPhrase_def)

text \<open>
  The claim as stated fails: with the empty secret and a 16-byte salt, and with a 3-byte
  salt, the derivation returns a key.
\<close>

theorem deriveKey_throws_counterexample:
  "fst (deriveKeyFromSeedPhrase toy_platform [] (replicate 16 0) example_world) =
     Inr (toy_pbkdf2 [] (replicate 16 0) 100000) \<and>
   fst (deriveKeyFromSeedPhrase toy_platform ''test phrase'' [1, 2, 3] example_world) =
     Inr (toy_pbkdf2 (text_encode ''test phrase'') [1, 2, 3] 100000)"
  by (simp add: deriveKeyFromSeedPhrase_def toy_platform_def ITERATION_COUNT_def text_encode_def)

lemma getOrCreateEncryptionKey_cases:
  assumes "fst (getOrCreateEncryptionKey w) = Inr k"
  obtains "getEncryptionKey w = (Inr k, w)" "getOrCreateEncryptionKey w = (Inr k, w)"
  | e where "getEncryptionKey w = (Inl e, w)"
  using assms
  by (auto simp add: getOrCreateEncryptionKey_def getEncryptionKey_def importKey_aes_def
      resolve_def throw_def split: option.splits if_splits)

lemma toy_pad_example: "toy_pad example_key (replicate 12 1) = 0"
  by (simp add: toy_pad_def example_key_def numeral_eq_Suc)

lemma example_garbled_fails:
  "aes_gcm_decrypt toy_platform example_key (take 12 example_garbled) (drop 12 example_garbled) = None"
  by code_simp

lemma example_world_key: "fst (getOrCreateEncryptionKey example_world) = Inr example_key"
  by (simp add: getOrCreateEncryptionKey_def example_world_def example_key_def importKey_aes_def resolve_def)

subsection \<open>Export\<close>

lemma await_fst_Inr_ex:
  assumes "fst (await m k w) = Inr y"
  shows "\<exists>x w1. m w = (Inr x, w1) \<and> fst (k x w1) = Inr y"
  using assms by (auto simp add: await_def split: prod.splits sum.splits)

lemma await_Inr: "m w = (Inr x, w1) \<Longrightarrow> await m k w = k x w1"
  by (simp add: await_def)

lemma await_Inl: "m w = (Inl e, w1) \<Longrightarrow> await m k w = (Inl e, w1)"
  by (simp add: await_def)

lemma getRandomValues_length: "getRandomValues n w = (Inr x, w1) \<Longrightarrow> length x = n"
  by (auto simp add: getRandomValues_def)

lemma length_magic: "length (text_encode PV_HEADER) = 7"
  by (simp add: magic_bytes)

lemma length_pv_header_bytes:
  "length salt = 16 \<Longrightarrow> length iv = 12 \<Longrightarrow>
   length (pv_header_bytes salt iv md) = 39 + length md"
  by (simp add: pv_header_bytes_def length_magic length_uint32_bytes)

lemma u8_set_fill:
  "u8_set (pre @ replicate (length s + n) 0) s (length pre) = Inr ((pre @ s) @ replicate n 0)"
  by (simp add: u8_set_def replicate_add [symmetric] del: replicate_add)

lemma u8_set_first: "u8_set (replicate (length s + n) 0) s 0 = Inr (s @ replicate n 0)"
  using u8_set_fill [of "[]" s n] by simp

lemma u8_set_last: "u8_set (pre @ replicate (length s) 0) s (length pre) = Inr (pre @ s)"
  using u8_set_fill [of pre s 0] by simp

lemma build_headerView_eq:
  "build_headerView salt iv md = Inr (pv_header_bytes salt iv md)"
proof -
  let ?h = "text_encode PV_HEADER" and ?l = "uint32_bytes (length md)"
  have 1: "u8_set (replicate (length ?h + length salt + length iv + 4 + length md) 0) ?h 0 =
      Inr (?h @ replicate (length salt + (length iv + (4 + length md))) 0)"
    using u8_set_first [of ?h "length salt + (length iv + (4 + length md))"]
    by (simp add: add.assoc)
  have 2: "u8_set (?h @ replicate (length salt + (length iv + (4 + length md))) 0) salt (0 + length ?h) =
      Inr ((?h @ salt) @ replicate (length iv + (4 + length md)) 0)"
    using u8_set_fill [of ?h salt "length iv + (4 + length md)"] by simp
  have 3: "u8_set ((?h @ salt) @ replicate (length iv + (4 + length md)) 0) iv (0 + length ?h + length salt) =
      Inr ((?h @ salt @ iv) @ replicate (length ?l + length md) 0)"
    using u8_set_fill [of "?h @ salt" iv "4 + length md"] by (simp add: length_uint32_bytes)
  have 4: "u8_set ((?h @ salt @ iv) @ replicate (length ?l + length md) 0) ?l
       (0 + length ?h + length salt + length iv) = Inr ((?h @ salt @ iv @ ?l) @ replicate (length md) 0)"
    using u8_set_fill [of "?h @ salt @ iv" ?l "length md"] by (simp add: add.assoc)
  have 5: "u8_set ((?h @ salt @ iv @ ?l) @ replicate (length md) 0) md
       (0 + length ?h + length salt + length iv + 4) = Inr (?h @ salt @ iv @ ?l @ md)"
    using u8_set_last [of "?h @ salt @ iv @ ?l" md] by (simp add: length_uint32_bytes add.assoc)
  show ?thesis
    unfolding build_headerView_def Let_def 1 and_then_def sum.case 2 3 4 5 pv_header_bytes_def ..
qed

lemma build_combinedBuffer_eq:
  "build_combinedBuffer salt iv md enc = Inr (pv_header_bytes salt iv md @ enc)"
proof -
  let ?h = "text_encode PV_HEADER" and ?l = "uint32_bytes (length md)"
  have 1: "u8_set (replicate (length ?h + length salt + length iv + 4 + length md + length enc) 0) ?h 0 =
      Inr (?h @ replicate (length salt + (length iv + (4 + (length md + length enc)))) 0)"
    using u8_set_first [of ?h "length salt + (length iv + (4 + (length md + length enc)))"]
    by (simp add: add.assoc)
  have 2: "u8_set (?h @ replicate (length salt + (length iv + (4 + (length md + length enc)))) 0) salt
       (0 + length ?h) = Inr ((?h @ salt) @ replicate (length iv + (4 + (length md + length enc))) 0)"
    using u8_set_fill [of ?h salt "length iv + (4 + (length md + length enc))"] by simp
  have 3: "u8_set ((?h @ salt) @ replicate (length iv + (4 + (length md + length enc))) 0) iv
       (0 + length ?h + length salt) =
      Inr ((?h @ salt @ iv) @ replicate (length ?l + (length md + length enc)) 0)"
    using u8_set_fill [of "?h @ salt" iv "4 + (length md + length enc)"]
    by (simp add: length_uint32_bytes)
  have 4: "u8_set ((?h @ salt @ iv) @ replicate (length ?l + (length md + length enc)) 0) ?l
       (0 + length ?h + length salt + length iv) =
      Inr ((?h @ salt @ iv @ ?l) @ replicate (length md + length enc) 0)"
    using u8_set_fill [of "?h @ salt @ iv" ?l "length md + length enc"] by (simp add: add.assoc)
  have 5: "u8_set ((?h @ salt @ iv @ ?l) @ replicate (length md + length enc) 0) md
       (0 + length ?h + length salt + length iv + 4) =
      Inr ((?h @ salt @ iv @ ?l @ md) @ replicate (length enc) 0)"
    using u8_set_fill [of "?h @ salt @ iv @ ?l" md "length enc"]
    by (simp add: length_uint32_bytes add.assoc)
  have 6: "u8_set ((?h @ salt @ iv @ ?l @ md) @ replicate (length enc) 0) enc
       (0 + length ?h + length salt + length iv + 4 + length md) =
      Inr ((?h @ salt @ iv @ ?l @ md) @ enc)"
    using u8_set_last [of "?h @ salt @ iv @ ?l @ md" enc]
    by (simp add: length_uint32_bytes add.assoc)
  show ?thesis
    unfolding build_combinedBuffer_def Let_def 1 and_then_def sum.case 2 3 4 5 6 pv_header_bytes_def
    by simp
qed

lemma await_lift: "await (lift (Inr x)) k = k x"
  by (rule ext) (simp add: await_def lift_def)

lemma lift_Inr: "lift (Inr x) = resolve x"
  by (rule ext) (simp add: lift_def resolve_def)

lemma exportLargeFileToPV_unfold:
  "exportLargeFileToPV P d file =
     await (db_getFileContent d (fst file)) (\<lambda>encryptedContent.
     await (\<lambda>w. if file_encrypted (snd file) = Some True
                 then (case decryptFileContent P encryptedContent w of (c, w') \<Rightarrow> (Inr c, w'))
                 else (Inr encryptedContent, w)) (\<lambda>fileContent.
     await (getSeedPhrase P) (\<lambda>seedPhrase.
     await (getRandomValues SALT_LENGTH) (\<lambda>salt.
     await (getRandomValues IV_LENGTH) (\<lambda>iv.
     await (deriveKeyFromSeedPhrase P seedPhrase salt) (\<lambda>encryptionKey.
       (let metadataBuffer = text_encode (json_stringify P (file_metadata (snd file)));
            headerView = pv_header_bytes salt iv metadataBuffer
        in await (blob_bytes fileContent) (\<lambda>content.
             (let fileSize = length content;
                  totalChunks = (fileSize + CHUNK_SIZE - 1) div CHUNK_SIZE
              in await (encrypt_chunks P encryptionKey iv content totalChunks 0 [headerView])
                   (\<lambda>encryptedChunks. resolve (concat encryptedChunks)))))))))))"
  by (simp add: exportLargeFileToPV_def build_headerView_eq await_lift Let_def)

lemma exportFileToPV_unfold:
  "exportFileToPV P d file =
     (if file_size (snd file) > int LARGE_FILE_THRESHOLD then exportLargeFileToPV P d file
      else
        await (db_getFileContent d (fst file)) (\<lambda>encryptedContent.
        await (\<lambda>w. if file_encrypted (snd file) = Some True
                    then (case decryptFileContent P encryptedContent w of (c, w') \<Rightarrow> (Inr c, w'))
                    else (Inr encryptedContent, w)) (\<lambda>fileContent.
        await (getSeedPhrase P) (\<lambda>seedPhrase.
        await (getRandomValues SALT_LENGTH) (\<lambda>salt.
        await (getRandomValues IV_LENGTH) (\<lambda>iv.
        await (deriveKeyFromSeedPhrase P seedPhrase salt) (\<lambda>encryptionKey.
          (let metadataBuffer = text_encode (json_stringify P (file_metadata (snd file)))
           in await (blob_bytes fileContent) (\<lambda>fileBuffer.
              await (subtle_encrypt P encryptionKey iv fileBuffer) (\<lambda>encryptedBuffer.
                resolve (pv_header_bytes salt iv metadataBuffer @ encryptedBuffer)))))))))))"
  by (simp add: exportFileToPV_def build_combinedBuffer_eq lift_Inr Let_def)

lemma encrypt_chunks_result:
  "fst (encrypt_chunks P k iv content n i acc w) =
     Inr (acc @ map (\<lambda>j. aes_gcm_encrypt P k iv (chunk_of content j)) [i..<n])"
proof (induction P k iv content n i acc w rule: encrypt_chunks.induct)
  case (1 P k iv fileContent totalChunks i encryptedChunks w)
  show ?case
  proof (cases "i < totalChunks")
    case True
    then have "[i..<totalChunks] = i # [Suc i..<totalChunks]" by (simp add: upt_conv_Cons)
    with True 1 show ?thesis
      by (subst encrypt_chunks.simps) (simp add: subtle_encrypt_def Let_def chunk_of_def)
  next
    case False
    then show ?thesis by (subst encrypt_chunks.simps) simp
  qed
qed

lemma encrypt_chunks_Inr:
  "fst (encrypt_chunks P k iv content n i acc w) = Inr r \<Longrightarrow>
   r = acc @ map (\<lambda>j. aes_gcm_encrypt P k iv (chunk_of content j)) [i..<n]"
  by (simp add: encrypt_chunks_result)

lemma export_prelude:
  assumes "fst (await (db_getFileContent d (fst file)) (\<lambda>encryptedContent.
     await (\<lambda>w. if file_encrypted (snd file) = Some True
                 then (case decryptFileContent P encryptedContent w of (c, w') \<Rightarrow> (Inr c, w'))
                 else (Inr encryptedContent, w)) (\<lambda>fileContent.
     await (getSeedPhrase P) (\<lambda>seedPhrase.
     await (getRandomValues SALT_LENGTH) (\<lambda>salt.
     await (getRandomValues IV_LENGTH) (\<lambda>iv.
     await (deriveKeyFromSeedPhrase P seedPhrase salt) (\<lambda>encryptionKey.
       await (blob_bytes fileContent) (\<lambda>content. body salt iv encryptionKey content))))))) w) = Inr blob"
  shows "\<exists>salt iv seedPhrase content stored w2 w3 w4.
    length salt = 16 \<and> length iv = 12 \<and>
    fst (body salt iv (pbkdf2 P (text_encode seedPhrase) salt ITERATION_COUNT) content w4) = Inr blob \<and>
    getFileContent (fst file) d = Inr stored \<and>
    (file_encrypted (snd file) \<noteq> Some True \<longrightarrow> stored = Some content \<and> w2 = w) \<and>
    (file_encrypted (snd file) = Some True \<longrightarrow> decryptFileContent P stored w = (Some content, w2)) \<and>
    getSeedPhrase P w2 = (Inr seedPhrase, w3)"
proof -
  from await_fst_Inr_ex [OF assms] obtain stored w1 where
    s1: "db_getFileContent d (fst file) w = (Inr stored, w1)"
    and r1: "fst (await (\<lambda>w. if file_encrypted (snd file) = Some True
                 then (case decryptFileContent P stored w of (c, w') \<Rightarrow> (Inr c, w'))
                 else (Inr stored, w)) (\<lambda>fileContent.
     await (getSeedPhrase P) (\<lambda>seedPhrase.
     await (getRandomValues SALT_LENGTH) (\<lambda>salt.
     await (getRandomValues IV_LENGTH) (\<lambda>iv.
     await (deriveKeyFromSeedPhrase P seedPhrase salt) (\<lambda>encryptionKey.
       await (blob_bytes fileContent) (\<lambda>content. body salt iv encryptionKey content)))))) w1) = Inr blob"
    by blast
  from s1 have g: "getFileContent (fst file) d = Inr stored" and w1: "w1 = w"
    by (auto simp add: db_getFileContent_def split: sum.splits)
  from await_fst_Inr_ex [OF r1] obtain fileContent w2 where
    s2: "(if file_encrypted (snd file) = Some True
                 then (case decryptFileContent P stored w1 of (c, w') \<Rightarrow> (Inr c, w'))
                 else (Inr stored, w1)) = (Inr fileContent :: js_error + bytes option, w2)"
    and r2: "fst (await (getSeedPhrase P) (\<lambda>seedPhrase.
     await (getRandomValues SALT_LENGTH) (\<lambda>salt.
     await (getRandomValues IV_LENGTH) (\<lambda>iv.
     await (deriveKeyFromSeedPhrase P seedPhrase salt) (\<lambda>encryptionKey.
       await (blob_bytes fileContent) (\<lambda>content. body salt iv encryptionKey content))))) w2) = Inr blob"
    by blast
  from await_fst_Inr_ex [OF r2] obtain seedPhrase w3 where
    s3: "getSeedPhrase P w2 = (Inr seedPhrase, w3)"
    and r3: "fst (await (getRandomValues SALT_LENGTH) (\<lambda>salt.
     await (getRandomValues IV_LENGTH) (\<lambda>iv.
     await (deriveKeyFromSeedPhrase P seedPhrase salt) (\<lambda>encryptionKey.
       await (blob_bytes fileContent) (\<lambda>content. body salt iv encryptionKey content)))) w3) = Inr blob"
    by blast
  from await_fst_Inr_ex [OF r3] obtain salt w4 where
    s4: "getRandomValues SALT_LENGTH w3 = (Inr salt, w4)"
    and r4: "fst (await (getRandomValues IV_LENGTH) (\<lambda>iv.
     await (deriveKeyFromSeedPhrase P seedPhrase salt) (\<lambda>encryptionKey.
       await (blob_bytes fileContent) (\<lambda>content. body salt iv encryptionKey content))) w4) = Inr blob"
    by blast
  from await_fst_Inr_ex [OF r4] obtain iv w5 where
    s5: "getRandomValues IV_LENGTH w4 = (Inr iv, w5)"
    and r5: "fst (await (deriveKeyFromSeedPhrase P seedPhrase salt) (\<lambda>encryptionKey.
       await (blob_bytes fileContent) (\<lambda>content. body salt iv encryptionKey content)) w5) = Inr blob"
    by blast
  from await_fst_Inr_ex [OF r5] obtain k w6 where
    s6: "deriveKeyFromSeedPhrase P seedPhrase salt w5 = (Inr k, w6)"
    and r6: "fst (await (blob_bytes fileContent) (\<lambda>content. body salt iv k content) w6) = Inr blob"
    by blast
  from await_fst_Inr_ex [OF r6] obtain content w7 where
    s7: "blob_bytes fileContent w6 = (Inr content, w7)"
    and r7: "fst (body salt iv k content w7) = Inr blob"
    by blast
  from s7 have fc: "fileContent = Some content"
    by (auto simp add: blob_bytes_def resolve_def throw_def split: option.splits)
  from s6 have k: "k = pbkdf2 P (text_encode seedPhrase) salt ITERATION_COUNT"
    by (simp add: deriveKeyFromSeedPhrase_def)
  have "length salt = 16" using getRandomValues_length [OF s4] by (simp add: SALT_LENGTH_def)
  moreover have "length iv = 12" using getRandomValues_length [OF s5] by (simp add: IV_LENGTH_def)
  moreover have "fst (body salt iv (pbkdf2 P (text_encode seedPhrase) salt ITERATION_COUNT) content w7) = Inr blob"
    using r7 k by simp
  moreover have "file_encrypted (snd file) \<noteq> Some True \<longrightarrow> stored = Some content \<and> w2 = w"
    using s2 fc w1 by (auto split: if_splits)
  moreover have "file_encrypted (snd file) = Some True \<longrightarrow> decryptFileContent P stored w = (Some content, w2)"
    using s2 fc w1 by (auto split: prod.splits if_splits)
  ultimately show ?thesis using g s3 by blast
qed

lemma exportFileToPV_success:
  assumes "fst (exportFileToPV P d file w) = Inr blob"
  shows "\<exists>salt iv seedPhrase content stored w2 w3.
    length salt = 16 \<and> length iv = 12 \<and>
    blob = pv_header_bytes salt iv (text_encode (json_stringify P (file_metadata (snd file)))) @
       export_ciphertext P (file_size (snd file) > int LARGE_FILE_THRESHOLD)
         (pbkdf2 P (text_encode seedPhrase) salt ITERATION_COUNT) iv content \<and>
    getFileContent (fst file) d = Inr stored \<and>
    (file_encrypted (snd file) \<noteq> Some True \<longrightarrow> stored = Some content \<and> w2 = w) \<and>
    (file_encrypted (snd file) = Some True \<longrightarrow> decryptFileContent P stored w = (Some content, w2)) \<and>
    getSeedPhrase P w2 = (Inr seedPhrase, w3)"
proof (cases "file_size (snd file) > int LARGE_FILE_THRESHOLD")
  case True
  with assms have a: "fst (exportLargeFileToPV P d file w) = Inr blob"
    by (simp add: exportFileToPV_unfold)
  from export_prelude [OF a [unfolded exportLargeFileToPV_unfold Let_def]]
  obtain salt iv seedPhrase content stored w2 w3 w4 where
    l: "length salt = 16" "length iv = 12"
    and b: "fst (await (encrypt_chunks P (pbkdf2 P (text_encode seedPhrase) salt ITERATION_COUNT) iv content
                ((length content + CHUNK_SIZE - 1) div CHUNK_SIZE) 0
                [pv_header_bytes salt iv (text_encode (json_stringify P (file_metadata (snd file))))])
             (\<lambda>encryptedChunks. resolve (concat encryptedChunks)) w4) = Inr blob"
    and r: "getFileContent (fst file) d = Inr stored"
      "file_encrypted (snd file) \<noteq> Some True \<longrightarrow> stored = Some content \<and> w2 = w"
      "file_encrypted (snd file) = Some True \<longrightarrow> decryptFileContent P stored w = (Some content, w2)"
      "getSeedPhrase P w2 = (Inr seedPhrase, w3)"
    by blast
  from await_fst_Inr_ex [OF b] obtain chunks w5 where
    c: "encrypt_chunks P (pbkdf2 P (text_encode seedPhrase) salt ITERATION_COUNT) iv content
                ((length content + CHUNK_SIZE - 1) div CHUNK_SIZE) 0
                [pv_header_bytes salt iv (text_encode (json_stringify P (file_metadata (snd file))))] w4
          = (Inr chunks, w5)"
    and bl: "fst (resolve (concat chunks) w5) = Inr blob"
    by blast
  from c have "fst (encrypt_chunks P (pbkdf2 P (text_encode seedPhrase) salt ITERATION_COUNT) iv content
                ((length content + CHUNK_SIZE - 1) div CHUNK_SIZE) 0
                [pv_header_bytes salt iv (text_encode (json_stringify P (file_metadata (snd file))))] w4)
          = Inr chunks" by simp
  from encrypt_chunks_Inr [OF this] bl
  have "blob = pv_header_bytes salt iv (text_encode (json_stringify P (file_metadata (snd file)))) @
       export_ciphertext P (file_size (snd file) > int LARGE_FILE_THRESHOLD)
         (pbkdf2 P (text_encode seedPhrase) salt ITERATION_COUNT) iv content"
    by (simp add: resolve_def export_ciphertext_def True)
  with l r show ?thesis by blast
next
  case False
  with assms have a: "fst (await (db_getFileContent d (fst file)) (\<lambda>encryptedContent.
        await (\<lambda>w. if file_encrypted (snd file) = Some True
                    then (case decryptFileContent P encryptedContent w of (c, w') \<Rightarrow> (Inr c, w'))
                    else (Inr encryptedContent, w)) (\<lambda>fileContent.
        await (getSeedPhrase P) (\<lambda>seedPhrase.
        await (getRandomValues SALT_LENGTH) (\<lambda>salt.
        await (getRandomValues IV_LENGTH) (\<lambda>iv.
        await (deriveKeyFromSeedPhrase P seedPhrase salt) (\<lambda>encryptionKey.
          (let metadataBuffer = text_encode (json_stringify P (file_metadata (snd file)))
           in await (blob_bytes fileContent) (\<lambda>fileBuffer.
              await (subtle_encrypt P encryptionKey iv fileBuffer) (\<lambda>encryptedBuffer.
                resolve (pv_header_bytes salt iv metadataBuffer @ encryptedBuffer)))))))))) w) = Inr blob"
    by (simp add: exportFileToPV_unfold)
  from export_prelude [OF a [unfolded Let_def]]
  obtain salt iv seedPhrase content stored w2 w3 w4 where
    l: "length salt = 16" "length iv = 12"
    and b: "fst (await (subtle_encrypt P (pbkdf2 P (text_encode seedPhrase) salt ITERATION_COUNT) iv content)
              (\<lambda>encryptedBuffer. resolve (pv_header_bytes salt iv
                 (text_encode (json_stringify P (file_metadata (snd file)))) @ encryptedBuffer)) w4) = Inr blob"
    and r: "getFileContent (fst file) d = Inr stored"
      "file_encrypted (snd file) \<noteq> Some True \<longrightarrow> stored = Some content \<and> w2 = w"
      "file_encrypted (snd file) = Some True \<longrightarrow> decryptFileContent P stored w = (Some content, w2)"
      "getSeedPhrase P w2 = (Inr seedPhrase, w3)"
    by blast
  from b have "blob = pv_header_bytes salt iv (text_encode (json_stringify P (file_metadata (snd file)))) @
       export_ciphertext P (file_size (snd file) > int LARGE_FILE_THRESHOLD)
         (pbkdf2 P (text_encode seedPhrase) salt ITERATION_COUNT) iv content"
    by (simp add: await_def subtle_encrypt_def resolve_def export_ciphertext_def False)
  with l r show ?thesis by blast
qed

lemma toy_aead_ok: "aead_ok toy_platform"
  unfolding aead_ok_def
proof (intro conjI allI impI)
  fix k iv p
  show "aes_gcm_decrypt toy_platform k iv (aes_gcm_encrypt toy_platform k iv p) = Some p"
    by (simp add: toy_platform_def toy_encrypt_def toy_decrypt_def toy_tag_def Let_def o_def
        xor.assoc)
  show "length (aes_gcm_encrypt toy_platform k iv p) = length p + 16"
    by (simp add: toy_platform_def toy_encrypt_def toy_tag_def Let_def)
next
  fix k iv c p
  assume "aes_gcm_decrypt toy_platform k iv c = Some p"
  then show "length c = length p + 16"
    by (auto simp add: toy_platform_def toy_decrypt_def Let_def split: if_splits)
qed

lemma getSeedPhrase_stored:
  assumes "aead_ok P" and "encryptionKey w = Some k" and "length k = 32"
    and "seedRecord w = Some (iv @ aes_gcm_encrypt P k iv (text_encode S))" and "length iv = 12"
  shows "getSeedPhrase P w = (Inr S, w\<lparr>trace := trace w @ [EvGetSeedPhrase, EvDecrypt]\<rparr>)"
proof -
  from assms(1) have "aes_gcm_decrypt P k iv (aes_gcm_encrypt P k iv (text_encode S)) = Some (text_encode S)"
    by (simp add: aead_ok_def)
  moreover from assms(3) have "k \<noteq> []" by auto
  ultimately show ?thesis
    using assms(2-5)
    by (simp add: getSeedPhrase_def log_event_def getOrCreateEncryptionKey_def importKey_aes_def
        resolve_def await_def decryptData_def Let_def subtle_decrypt_def text_decode_encode)
qed

lemma example_seed_phrase:
  "getSeedPhrase toy_platform (example_world\<lparr>trace := tr\<rparr>) =
     (Inr ''test phrase'', example_world\<lparr>trace := tr @ [EvGetSeedPhrase, EvDecrypt]\<rparr>)"
  using getSeedPhrase_stored [OF toy_aead_ok, of "example_world\<lparr>trace := tr\<rparr>" example_key "replicate 12 9" "''test phrase''"]
  by (simp add: example_world_def example_key_def example_seed_record_def toy_platform_def)

lemma await_resolve_fst:
  "fst (m w) = Inr x \<Longrightarrow> fst (await m (\<lambda>y. resolve (f y)) w) = Inr (f x)"
  by (cases "m w") (simp add: await_def resolve_def)

lemma exportFileToPV_plain:
  assumes "getFileContent (fst item) d = Inr (Some content)"
    and "file_encrypted (snd item) \<noteq> Some True"
    and "getSeedPhrase P w = (Inr S, w1)"
  shows "fst (exportFileToPV P d item w) =
     Inr (pv_header_bytes (map (rng w1) [0..<16]) (map (\<lambda>i. rng w1 (i + 16)) [0..<12])
            (text_encode (json_stringify P (file_metadata (snd item)))) @
          export_ciphertext P (file_size (snd item) > int LARGE_FILE_THRESHOLD)
            (pbkdf2 P (text_encode S) (map (rng w1) [0..<16]) ITERATION_COUNT)
            (map (\<lambda>i. rng w1 (i + 16)) [0..<12]) content)"
proof (cases "file_size (snd item) > int LARGE_FILE_THRESHOLD")
  case True
  have "fst (await (encrypt_chunks P k iv content n 0 [h]) (\<lambda>c. resolve (concat c)) w') =
      Inr (h @ concat (map (\<lambda>j. aes_gcm_encrypt P k iv (chunk_of content j)) [0..<n]))" for k iv n h w'
    using await_resolve_fst [where m = "encrypt_chunks P k iv content n 0 [h]" and w = w'
        and f = concat, OF encrypt_chunks_result]
    by simp
  with True assms show ?thesis
    by (simp add: exportFileToPV_unfold exportLargeFileToPV_unfold await_def db_getFileContent_def
        getRandomValues_def SALT_LENGTH_def IV_LENGTH_def deriveKeyFromSeedPhrase_def Let_def
        blob_bytes_def resolve_def export_ciphertext_def)
next
  case False
  with assms show ?thesis
    by (simp add: exportFileToPV_unfold await_def db_getFileContent_def
        getRandomValues_def SALT_LENGTH_def IV_LENGTH_def deriveKeyFromSeedPhrase_def Let_def
        blob_bytes_def resolve_def export_ciphertext_def subtle_encrypt_def)
qed

lemma example_db_content: "getFileContent 2 example_db = Inr (Some [1, 2, 3])"
  by (simp add: getFileContent_def db_eval)

lemma upt_16: "[0..<16] = [0,1,2,3,4,5,6,7,8,9,10,11,12,13,14,15]"
  by code_simp

lemma upt_12: "[0..<12] = [0,1,2,3,4,5,6,7,8,9,10,11]"
  by code_simp

lemma upt_8: "[0..<8] = [0,1,2,3,4,5,6,7]"
  by code_simp

lemma example_metadata_text:
  "toy_stringify (file_metadata (example_file ''b'' fo)) =
     ''10000000b01000000text/plain+30000000+00010000S10000000b''"
  by (simp add: toy_stringify_def file_metadata_def example_file_def toy_str_def toy_int_def
      toy_nat_def upt_8)

lemma example_export:
  "fst (exportFileToPV toy_platform example_db (2, example_file ''b'' (Some 1)) example_world) =
     Inr example_container"
proof -
  have e: "file_encrypted (snd (2 :: nat, example_file ''b'' (Some 1))) \<noteq> Some True"
    by (simp add: example_file_def)
  have sz: "file_size (example_file n fo) = 3" for n fo
    by (simp add: example_file_def)
  have fp: "((XOR) a ^^ 5) b = a XOR b" for a b :: u8
    by (simp add: numeral_eq_Suc xor.assoc [symmetric])
  have r15: "replicate 15 x = [x, x, x, x, x, x, x, x, x, x, x, x, x, x, x]" for x :: u8
    by (simp add: numeral_eq_Suc)
  have ch: "chunk_of [1, 2, 3] 0 = [1, 2, 3]"
    by (simp add: chunk_of_def js_slice_def CHUNK_SIZE_def)
  have c: "getFileContent (fst (2 :: nat, example_file ''b'' (Some 1))) example_db = Inr (Some [1, 2, 3])"
    by (simp add: example_db_content)
  have w: "example_world\<lparr>trace := trace example_world\<rparr> = example_world" by simp
  note x = exportFileToPV_plain [OF c e example_seed_phrase [of "trace example_world", unfolded w]]
  show ?thesis
    unfolding x
    by (simp add: sz fp ch r15 PV_HEADER_def example_metadata_text export_ciphertext_def LARGE_FILE_THRESHOLD_def
        toy_platform_def example_world_def upt_16 upt_12 pv_header_bytes_def magic_bytes
        text_encode_def uint32_bytes_def toy_pbkdf2_def toy_encrypt_def toy_tag_def toy_pad_def
        ITERATION_COUNT_def example_container_def Let_def)
qed

subsection \<open>Container layout\<close>

lemma uint32_bytes_small: "n < 2 ^ 32 \<Longrightarrow> uint32_of_bytes (uint32_bytes n) = n"
  by (simp add: uint32_roundtrip)

text \<open>
  Claim C6.  Every container that an export returns is the 7-byte magic tag \<open>PVENC01\<close>,
  the 16-byte salt, the 12-byte IV, the 4-byte metadata length, the encoded JSON metadata and
  the ciphertext, in this order and with nothing else: the parts sit at the offsets 0, 7, 23,
  35 and 39, the ciphertext runs from the end of the metadata to the end of the container,
  and the size of the container is \<open>7 + 16 + 12 + 4\<close> plus the lengths of the metadata and of
  the ciphertext.  The length field is the little-endian \<^verbatim>\<open>Uint32Array\<close> image of the byte
  count of the metadata, and reads back as that count whenever the count fits in 32 bits.
  The ciphertext is the AES-GCM encryption of the content of the file (the stored blob, or
  what \<^verbatim>\<open>decryptFileContent\<close> makes of it when the file is marked as encrypted) under the
  key derived from the seed phrase and the salt, with the IV of the header: of the whole
  content for a file up to \<^verbatim>\<open>LARGE_FILE_THRESHOLD\<close>, and of each chunk of \<^verbatim>\<open>CHUNK_SIZE\<close>
  bytes in turn, one after the other, for a larger file.  Both export routines write the
  parts into a zero-filled buffer at a running offset; the layout is what these writes
  produce.
\<close>

theorem export_container_layout:
  assumes "fst (exportFileToPV P d item w) = Inr blob"
  shows "\<exists>salt iv metadataLength metadata ciphertext seedPhrase content stored w2 w3.
    blob = text_encode PV_HEADER @ salt @ iv @ metadataLength @ metadata @ ciphertext \<and>
    text_encode PV_HEADER = [0x50, 0x56, 0x45, 0x4E, 0x43, 0x30, 0x31] \<and>
    length (text_encode PV_HEADER) = 7 \<and> length salt = 16 \<and> length iv = 12 \<and>
    length metadataLength = 4 \<and>
    metadata = text_encode (json_stringify P (file_metadata (snd item))) \<and>
    metadataLength = uint32_bytes (length metadata) \<and>
    uint32_of_bytes metadataLength = length metadata mod 2 ^ 32 \<and>
    (length metadata < 2 ^ 32 \<longrightarrow> uint32_of_bytes (js_slice blob 35 39) = length metadata) \<and>
    getFileContent (fst item) d = Inr stored \<and>
    (if file_encrypted (snd item) = Some True then decryptFileContent P stored w else (stored, w)) =
      (Some content, w2) \<and>
    getSeedPhrase P w2 = (Inr seedPhrase, w3) \<and>
    ciphertext =
      (if file_size (snd item) > int LARGE_FILE_THRESHOLD
       then concat (map (\<lambda>j. aes_gcm_encrypt P (pbkdf2 P (text_encode seedPhrase) salt ITERATION_COUNT)
                          iv (chunk_of content j))
              [0..<(length content + CHUNK_SIZE - 1) div CHUNK_SIZE])
       else aes_gcm_encrypt P (pbkdf2 P (text_encode seedPhrase) salt ITERATION_COUNT) iv content) \<and>
    js_slice blob 0 7 = text_encode PV_HEADER \<and>
    js_slice blob 7 23 = salt \<and>
    js_slice blob 23 35 = iv \<and>
    js_slice blob 35 39 = metadataLength \<and>
    js_slice blob 39 (39 + length metadata) = metadata \<and>
    js_slice blob (39 + length metadata) (length blob) = ciphertext \<and>
    length blob = 7 + 16 + 12 + 4 + length metadata + length ciphertext"
proof -
  let ?md = "text_encode (json_stringify P (file_metadata (snd item)))"
  from exportFileToPV_success [OF assms] obtain salt iv seedPhrase content stored w2 w3 where
    l: "length salt = 16" "length iv = 12"
    and b: "blob = pv_header_bytes salt iv ?md @
       export_ciphertext P (file_size (snd item) > int LARGE_FILE_THRESHOLD)
         (pbkdf2 P (text_encode seedPhrase) salt ITERATION_COUNT) iv content"
    and g: "getFileContent (fst item) d = Inr stored"
    and p: "file_encrypted (snd item) \<noteq> Some True \<longrightarrow> stored = Some content \<and> w2 = w"
    and q: "file_encrypted (snd item) = Some True \<longrightarrow>
       decryptFileContent P stored w = (Some content, w2)"
    and s: "getSeedPhrase P w2 = (Inr seedPhrase, w3)"
    by blast
  let ?ct = "export_ciphertext P (file_size (snd item) > int LARGE_FILE_THRESHOLD)
         (pbkdf2 P (text_encode seedPhrase) salt ITERATION_COUNT) iv content"
  let ?len = "uint32_bytes (length ?md)"
  have m: "length (text_encode PV_HEADER) = 7" by (rule length_magic)
  have n: "length ?len = 4" by (rule length_uint32_bytes)
  have e: "blob = text_encode PV_HEADER @ salt @ iv @ ?len @ ?md @ ?ct"
    using b by (simp add: pv_header_bytes_def)
  have s1: "js_slice blob 0 7 = text_encode PV_HEADER"
    unfolding e js_slice_def using m by simp
  have s2: "js_slice blob 7 23 = salt"
    unfolding e js_slice_def using m l by simp
  have s3: "js_slice blob 23 35 = iv"
    unfolding e js_slice_def using m l by simp
  have s4: "js_slice blob 35 39 = ?len"
    unfolding e js_slice_def using m l n by simp
  have s5: "js_slice blob 39 (39 + length ?md) = ?md"
    unfolding e js_slice_def using m l n by simp
  have t: "length blob = 7 + 16 + 12 + 4 + length ?md + length ?ct"
    unfolding e using m l n by simp
  have s6: "js_slice blob (39 + length ?md) (length blob) = ?ct"
    unfolding t unfolding e js_slice_def using m l n by simp
  have r: "uint32_of_bytes ?len = length ?md mod 2 ^ 32" by (rule uint32_roundtrip)
  have r': "length ?md < 2 ^ 32 \<longrightarrow> uint32_of_bytes (js_slice blob 35 39) = length ?md"
    unfolding s4 by (simp add: uint32_roundtrip)
  have c: "(if file_encrypted (snd item) = Some True then decryptFileContent P stored w
            else (stored, w)) = (Some content, w2)"
    using p q by simp
  have x: "?ct =
      (if file_size (snd item) > int LARGE_FILE_THRESHOLD
       then concat (map (\<lambda>j. aes_gcm_encrypt P (pbkdf2 P (text_encode seedPhrase) salt ITERATION_COUNT)
                          iv (chunk_of content j))
              [0..<(length content + CHUNK_SIZE - 1) div CHUNK_SIZE])
       else aes_gcm_encrypt P (pbkdf2 P (text_encode seedPhrase) salt ITERATION_COUNT) iv content)"
    by (simp add: export_ciphertext_def)
  show ?thesis
    apply (rule exI [of _ salt], rule exI [of _ iv], rule exI [of _ ?len], rule exI [of _ ?md],
        rule exI [of _ ?ct], rule exI [of _ seedPhrase], rule exI [of _ content],
        rule exI [of _ stored], rule exI [of _ w2], rule exI [of _ w3])
    using e magic_bytes m l n r r' s1 s2 s3 s4 s5 s6 t g c s x
    apply (intro conjI)
    apply (assumption | rule refl)+
    done
qed

lemma example_metadata_length:
  "length (text_encode (json_stringify toy_platform (file_metadata (example_file ''b'' fo)))) = 55"
  by (simp add: toy_platform_def example_metadata_text text_encode_def)

text \<open>The export of file 2 of the example database has this layout.\<close>

theorem export_container_layout_witness:
  "fst (exportFileToPV toy_platform example_db (2, example_file ''b'' (Some 1)) example_world) =
     Inr example_container \<and>
   length (text_encode (json_stringify toy_platform (file_metadata (example_file ''b'' (Some 1))))) = 55 \<and>
   (55 :: nat) < 2 ^ 32 \<and>
   uint32_of_bytes (js_slice example_container 35 39) = 55 \<and>
   js_slice example_container 0 7 = [0x50, 0x56, 0x45, 0x4E, 0x43, 0x30, 0x31] \<and>
   js_slice example_container 94 (length example_container) =
     aes_gcm_encrypt toy_platform
       (pbkdf2 toy_platform (text_encode ''test phrase'') (js_slice example_container 7 23)
          ITERATION_COUNT)
       (js_slice example_container 23 35) [1, 2, 3] \<and>
   length example_container = 7 + 16 + 12 + 4 + 55 + 19"
proof -
  from export_container_layout [OF example_export]
  obtain salt iv metadataLength metadata ciphertext seedPhrase content stored w2 w3 where
    a: "text_encode PV_HEADER = [0x50, 0x56, 0x45, 0x4E, 0x43, 0x30, 0x31]"
      "metadata = text_encode (json_stringify toy_platform
         (file_metadata (snd (2 :: nat, example_file ''b'' (Some 1)))))"
      "length metadata < 2 ^ 32 \<longrightarrow> uint32_of_bytes (js_slice example_container 35 39) = length metadata"
      "js_slice example_container 0 7 = text_encode PV_HEADER"
      "js_slice example_container (39 + length metadata) (length example_container) = ciphertext"
      "length example_container = 7 + 16 + 12 + 4 + length metadata + length ciphertext"
    and s: "js_slice example_container 7 23 = salt" "js_slice example_container 23 35 = iv"
    and g: "getFileContent (fst (2 :: nat, example_file ''b'' (Some 1))) example_db = Inr stored"
    and c: "(if file_encrypted (snd (2 :: nat, example_file ''b'' (Some 1))) = Some True
             then decryptFileContent toy_platform stored example_world
             else (stored, example_world)) = (Some content, w2)"
    and p: "getSeedPhrase toy_platform w2 = (Inr seedPhrase, w3)"
    and x: "ciphertext =
      (if file_size (snd (2 :: nat, example_file ''b'' (Some 1))) > int LARGE_FILE_THRESHOLD
       then concat (map (\<lambda>j. aes_gcm_encrypt toy_platform
                          (pbkdf2 toy_platform (text_encode seedPhrase) salt ITERATION_COUNT)
                          iv (chunk_of content j))
              [0..<(length content + CHUNK_SIZE - 1) div CHUNK_SIZE])
       else aes_gcm_encrypt toy_platform
              (pbkdf2 toy_platform (text_encode seedPhrase) salt ITERATION_COUNT) iv content)"
    by blast
  from a(2) have l: "length metadata = 55" by (simp add: example_metadata_length)
  from g have st: "stored = Some [1, 2, 3]" using example_db_content by simp
  from c st have co: "content = [1, 2, 3]" and w2: "w2 = example_world"
    by (simp_all add: example_file_def)
  have w: "example_world\<lparr>trace := trace example_world\<rparr> = example_world" by simp
  from p w2 example_seed_phrase [of "trace example_world", unfolded w]
  have sp: "seedPhrase = ''test phrase''" by simp
  from x co sp have ct: "ciphertext = aes_gcm_encrypt toy_platform
      (pbkdf2 toy_platform (text_encode ''test phrase'') salt ITERATION_COUNT) iv [1, 2, 3]"
    by (simp add: example_file_def LARGE_FILE_THRESHOLD_def)
  with toy_aead_ok have lc: "length ciphertext = 19" by (simp add: aead_ok_def)
  from a(3) l have "uint32_of_bytes (js_slice example_container 35 39) = 55" by simp
  moreover from a(1,4) have "js_slice example_container 0 7 = [0x50, 0x56, 0x45, 0x4E, 0x43, 0x30, 0x31]"
    by simp
  moreover from a(5) l ct s have "js_slice example_container 94 (length example_container) =
     aes_gcm_encrypt toy_platform
       (pbkdf2 toy_platform (text_encode ''test phrase'') (js_slice example_container 7 23)
          ITERATION_COUNT)
       (js_slice example_container 23 35) [1, 2, 3]"
    by simp
  moreover from a(6) l lc have "length example_container = 7 + 16 + 12 + 4 + 55 + 19" by simp
  ultimately show ?thesis using example_export example_metadata_length by simp
qed

subsection \<open>Import of a file without the magic tag\<close>

lemma length_PV_HEADER: "length PV_HEADER = 7"
  by (simp add: PV_HEADER_def)

lemma header_slice: "js_slice (js_slice b 0 1048576) 0 (length PV_HEADER) = take 7 b"
  by (simp add: js_slice_def length_PV_HEADER)

lemma header_slice_direct: "js_slice b 0 (length PV_HEADER) = take 7 b"
  by (simp add: js_slice_def length_PV_HEADER)

lemma importStreamingPVFile_bad_magic:
  "take 7 (pv_data pvFile) \<noteq> text_encode PV_HEADER \<Longrightarrow>
   importStreamingPVFile P pvFile w = (Failure InvalidFormat, log_event EvImportStreaming w)"
  by (simp add: importStreamingPVFile_def header_slice Let_def)

lemma importLargePVFile_bad_magic:
  "take 7 (pv_data pvFile) \<noteq> text_encode PV_HEADER \<Longrightarrow>
   \<not> length (pv_data pvFile) > BROWSER_LIMIT \<Longrightarrow>
   importLargePVFile P pvFile w = (Failure InvalidFormat, log_event EvImportLarge w)"
  by (simp add: importLargePVFile_def header_slice Let_def)

lemma thresholds_ordered:
  "LARGE_FILE_THRESHOLD < VERY_LARGE_FILE_THRESHOLD" "VERY_LARGE_FILE_THRESHOLD < BROWSER_LIMIT"
  "MAX_DECRYPT_SIZE = VERY_LARGE_FILE_THRESHOLD"
  by (simp_all add: LARGE_FILE_THRESHOLD_def VERY_LARGE_FILE_THRESHOLD_def BROWSER_LIMIT_def
      MAX_DECRYPT_SIZE_def)

text \<open>
  Claim C8.  When the first seven bytes of the input are not the magic tag \<open>PVENC01\<close>
  (an input shorter than seven bytes included), \<open>importPVFile\<close> and
  \<open>importStreamingPVFile\<close> return the invalid-format error, and the state they leave differs
  from the one they started in only by the record of which routine was entered: the seed
  phrase was not fetched, no key was derived and nothing was decrypted.
\<close>

theorem bad_magic_fails_fast:
  assumes "take 7 (pv_data pvFile) \<noteq> [0x50, 0x56, 0x45, 0x4E, 0x43, 0x30, 0x31]"
  shows "importPVFile P pvFile w =
     (Failure InvalidFormat,
      w\<lparr>trace := trace w @
          (if length (pv_data pvFile) > VERY_LARGE_FILE_THRESHOLD then [EvImportStreaming]
           else if length (pv_data pvFile) > LARGE_FILE_THRESHOLD then [EvImportLarge]
           else [])\<rparr>) \<and>
    importStreamingPVFile P pvFile w =
     (Failure InvalidFormat, w\<lparr>trace := trace w @ [EvImportStreaming]\<rparr>) \<and>
    EvGetSeedPhrase \<notin> set (drop (length (trace w)) (trace (snd (importPVFile P pvFile w)))) \<and>
    EvDeriveKey \<notin> set (drop (length (trace w)) (trace (snd (importPVFile P pvFile w)))) \<and>
    EvDecrypt \<notin> set (drop (length (trace w)) (trace (snd (importPVFile P pvFile w)))) \<and>
    EvGetSeedPhrase \<notin> set (drop (length (trace w)) (trace (snd (importStreamingPVFile P pvFile w)))) \<and>
    EvDeriveKey \<notin> set (drop (length (trace w)) (trace (snd (importStreamingPVFile P pvFile w)))) \<and>
    EvDecrypt \<notin> set (drop (length (trace w)) (trace (snd (importStreamingPVFile P pvFile w))))"
proof -
  from assms have m: "take 7 (pv_data pvFile) \<noteq> text_encode PV_HEADER"
    by (simp add: magic_bytes)
  have s: "importStreamingPVFile P pvFile w =
     (Failure InvalidFormat, w\<lparr>trace := trace w @ [EvImportStreaming]\<rparr>)"
    using importStreamingPVFile_bad_magic [OF m] by (simp add: log_event_def)
  have i: "importPVFile P pvFile w =
     (Failure InvalidFormat,
      w\<lparr>trace := trace w @
          (if length (pv_data pvFile) > VERY_LARGE_FILE_THRESHOLD then [EvImportStreaming]
           else if length (pv_data pvFile) > LARGE_FILE_THRESHOLD then [EvImportLarge]
           else [])\<rparr>)"
  proof (cases "length (pv_data pvFile) > VERY_LARGE_FILE_THRESHOLD")
    case True
    then show ?thesis using s by (simp add: importPVFile_def)
  next
    case False
    note nv = this
    show ?thesis
    proof (cases "length (pv_data pvFile) > LARGE_FILE_THRESHOLD")
      case True
      from nv thresholds_ordered(2) have "\<not> length (pv_data pvFile) > BROWSER_LIMIT" by simp
      from importLargePVFile_bad_magic [OF m this] nv True show ?thesis
        by (simp add: importPVFile_def log_event_def)
    next
      case False
      with nv m show ?thesis
        by (simp add: importPVFile_def header_slice_direct Let_def)
    qed
  qed
  show ?thesis unfolding i s by simp
qed

text \<open>The example container with its first byte changed is rejected in this way.\<close>

theorem bad_magic_fails_fast_witness:
  "take 7 (pv_data example_bad_file) \<noteq> [0x50, 0x56, 0x45, 0x4E, 0x43, 0x30, 0x31] \<and>
   importPVFile toy_platform example_bad_file example_world = (Failure InvalidFormat, example_world) \<and>
   importStreamingPVFile toy_platform example_bad_file example_world =
     (Failure InvalidFormat, example_world\<lparr>trace := [EvImportStreaming]\<rparr>)"
proof -
  have a: "take 7 (pv_data example_bad_file) \<noteq> [0x50, 0x56, 0x45, 0x4E, 0x43, 0x30, 0x31]"
    by (simp add: example_bad_file_def example_container_def)
  have l: "length (pv_data example_bad_file) = 113"
    by (simp add: example_bad_file_def example_container_def)
  have t: "trace example_world = []" by (simp add: example_world_def)
  from bad_magic_fails_fast [OF a, of toy_platform example_world] a show ?thesis
    by (simp add: l t VERY_LARGE_FILE_THRESHOLD_def LARGE_FILE_THRESHOLD_def)
qed

subsection \<open>The trace of an import\<close>

lemma logs_refl: "logs w w S"
  by (simp add: logs_def)

lemma logs_trans: "logs w w1 S \<Longrightarrow> logs w1 w2 S \<Longrightarrow> logs w w2 S"
  by (auto simp add: logs_def)

lemma logs_mono: "logs w w' S \<Longrightarrow> S \<subseteq> T \<Longrightarrow> logs w w' T"
  by (auto simp add: logs_def)

lemma logs_log_event: "e \<in> S \<Longrightarrow> logs w (log_event e w) S"
  by (simp add: logs_def log_event_def)

lemma logs_events: "logs w w' S \<Longrightarrow> set (drop (length (trace w)) (trace w')) \<subseteq> S"
  by (auto simp add: logs_def)

lemma logs_after_event:
  "logs (log_event e w) w' S \<Longrightarrow> \<exists>tr. trace w' = trace w @ e # tr \<and> set tr \<subseteq> S"
  by (auto simp add: logs_def log_event_def)

lemma getOrCreateEncryptionKey_logs: "logs w (snd (getOrCreateEncryptionKey w)) S"
  by (auto simp add: getOrCreateEncryptionKey_def importKey_aes_def resolve_def throw_def
      await_def getRandomValues_def logs_def split: option.splits)

lemma subtle_decrypt_logs: "logs w (snd (subtle_decrypt P k iv c w)) {EvDecrypt}"
  by (auto simp add: subtle_decrypt_def logs_def log_event_def split: option.splits)

lemma deriveKey_logs: "logs w (snd (deriveKeyFromSeedPhrase P s salt w)) {EvDeriveKey}"
  by (simp add: deriveKeyFromSeedPhrase_def logs_def log_event_def)

lemma decryptData_logs: "logs w (snd (decryptData P d k w)) {EvDecrypt}"
  using subtle_decrypt_logs [of w P k "take 12 d" "drop 12 d"]
  by (cases "subtle_decrypt P k (take 12 d) (drop 12 d) w")
     (auto simp add: decryptData_def Let_def await_def resolve_def split: sum.splits)

lemma getSeedPhrase_logs: "logs w (snd (getSeedPhrase P w)) {EvGetSeedPhrase, EvDecrypt}"
proof -
  let ?w = "log_event EvGetSeedPhrase w"
  have a: "logs w ?w {EvGetSeedPhrase, EvDecrypt}" by (simp add: logs_log_event)
  show ?thesis
  proof (cases "seedRecord ?w")
    case None
    then show ?thesis using a by (simp add: getSeedPhrase_def throw_def)
  next
    case (Some d)
    obtain r w1 where g: "getOrCreateEncryptionKey ?w = (r, w1)" by (cases "getOrCreateEncryptionKey ?w")
    from getOrCreateEncryptionKey_logs [of ?w "{EvGetSeedPhrase, EvDecrypt}"] g
    have b: "logs ?w w1 {EvGetSeedPhrase, EvDecrypt}" by simp
    show ?thesis
    proof (cases r)
      case (Inl e)
      with Some g show ?thesis using logs_trans [OF a b] by (simp add: getSeedPhrase_def await_def)
    next
      case (Inr k)
      have "logs w1 (snd (decryptData P d k w1)) {EvGetSeedPhrase, EvDecrypt}"
        by (rule logs_mono [OF decryptData_logs]) simp
      with Inr Some g show ?thesis
        using logs_trans [OF logs_trans [OF a b]] by (simp add: getSeedPhrase_def await_def)
    qed
  qed
qed

lemma processNextSegment_logs:
  "logs w (snd (processNextSegment P k iv d h i segs w)) {EvDecrypt}"
proof (induction P k iv d h i segs w rule: processNextSegment.induct)
  case (1 P k baseIv fileData totalHeaderSize segmentIndex decryptedSegments w)
  let ?s = "totalHeaderSize + segmentIndex * MAX_SEGMENT_SIZE"
  let ?e = "min (?s + MAX_SEGMENT_SIZE) (length fileData)"
  let ?c = "subtle_decrypt P k (deriveSegmentIv baseIv (int segmentIndex)) (js_slice fileData ?s ?e) w"
  obtain r w1 where c: "?c = (r, w1)" by (cases ?c)
  from subtle_decrypt_logs [of w P k "deriveSegmentIv baseIv (int segmentIndex)" "js_slice fileData ?s ?e"] c
  have a: "logs w w1 {EvDecrypt}" by simp
  show ?case
  proof (cases r)
    case (Inl e)
    with c a show ?thesis by (subst processNextSegment.simps) (simp add: Let_def)
  next
    case (Inr p)
    show ?thesis
    proof (cases "?e = length fileData")
      case True
      with Inr c a show ?thesis by (subst processNextSegment.simps) (simp add: Let_def)
    next
      case False
      note ih = 1 [OF refl refl refl refl refl c [symmetric] Inr refl False]
      from logs_trans [OF a ih] Inr c False a show ?thesis
        by (subst processNextSegment.simps) (simp add: Let_def)
    qed
  qed
qed

lemma getSeedPhrase_crypto: "getSeedPhrase P w = (r, w1) \<Longrightarrow> logs w w1 crypto_events"
  using logs_mono [OF getSeedPhrase_logs [of w P], of crypto_events] by simp

lemma deriveKey_crypto: "deriveKeyFromSeedPhrase P s salt w = (r, w1) \<Longrightarrow> logs w w1 crypto_events"
  using logs_mono [OF deriveKey_logs [of w P s salt], of crypto_events] by simp

lemma subtle_decrypt_crypto: "subtle_decrypt P k iv c w = (r, w1) \<Longrightarrow> logs w w1 crypto_events"
  using logs_mono [OF subtle_decrypt_logs [of w P k iv c], of crypto_events] by simp

lemma processNextSegment_crypto:
  "processNextSegment P k iv d h i segs w = (r, w1) \<Longrightarrow> logs w w1 crypto_events"
  using logs_mono [OF processNextSegment_logs [of w P k iv d h i segs], of crypto_events] by simp

lemma importStreamingPVFile_logs:
  "logs (log_event EvImportStreaming w) (snd (importStreamingPVFile P f w)) crypto_events"
proof -
  let ?w = "log_event EvImportStreaming w"
  let ?h = "js_slice (pv_data f) 0 (1024 * 1024)"
  show ?thesis
  proof (cases "js_slice ?h 0 (length PV_HEADER) \<noteq> text_encode PV_HEADER")
    case True
    then show ?thesis by (simp add: importStreamingPVFile_def Let_def logs_refl)
  next
    case False
    note magic = this
    show ?thesis
    proof (cases "read_header P ?h")
      case (Inl e)
      with magic show ?thesis by (simp add: importStreamingPVFile_def Let_def logs_refl)
    next
      case (Inr hd)
      obtain salt iv n md where hd: "hd = (salt, iv, n, md)" by (cases hd)
      obtain r1 w1 where g: "getSeedPhrase P ?w = (r1, w1)" by (cases "getSeedPhrase P ?w")
      note l1 = getSeedPhrase_crypto [OF g]
      show ?thesis
      proof (cases r1)
        case (Inl e)
        with magic Inr hd g l1 show ?thesis by (simp add: importStreamingPVFile_def Let_def)
      next
        case S: (Inr S)
        obtain r2 w2 where d: "deriveKeyFromSeedPhrase P S salt w1 = (r2, w2)"
          by (cases "deriveKeyFromSeedPhrase P S salt w1")
        note l2 = logs_trans [OF l1 deriveKey_crypto [OF d]]
        show ?thesis
        proof (cases r2)
          case (Inl e)
          with magic Inr hd g S d l2 show ?thesis by (simp add: importStreamingPVFile_def Let_def)
        next
          case k: (Inr k)
          obtain r3 w3 where p: "processNextSegment P k iv (pv_data f)
              (length PV_HEADER + SALT_LENGTH + IV_LENGTH + 4 + n) 0 [] w2 = (r3, w3)"
            by (cases "processNextSegment P k iv (pv_data f)
              (length PV_HEADER + SALT_LENGTH + IV_LENGTH + 4 + n) 0 [] w2")
          note l3 = logs_trans [OF l2 processNextSegment_crypto [OF p]]
          from magic Inr hd g S d k p l3 show ?thesis
            by (cases r3) (simp_all add: importStreamingPVFile_def Let_def)
        qed
      qed
    qed
  qed
qed

lemma importLargePVFile_logs:
  assumes "length (pv_data f) \<le> VERY_LARGE_FILE_THRESHOLD"
  shows "logs (log_event EvImportLarge w) (snd (importLargePVFile P f w)) crypto_events"
proof -
  let ?w = "log_event EvImportLarge w"
  let ?h = "js_slice (pv_data f) 0 (1024 * 1024)"
  from assms have b: "\<not> length (pv_data f) > BROWSER_LIMIT"
    by (simp add: VERY_LARGE_FILE_THRESHOLD_def BROWSER_LIMIT_def)
  from assms have m: "\<not> length (pv_data f) - x > MAX_DECRYPT_SIZE" for x
    by (simp add: VERY_LARGE_FILE_THRESHOLD_def MAX_DECRYPT_SIZE_def)
  show ?thesis
  proof (cases "js_slice ?h 0 (length PV_HEADER) \<noteq> text_encode PV_HEADER")
    case True
    with b show ?thesis by (simp add: importLargePVFile_def Let_def logs_refl)
  next
    case False
    note magic = this
    show ?thesis
    proof (cases "read_header P ?h")
      case (Inl e)
      with magic b show ?thesis by (simp add: importLargePVFile_def Let_def logs_refl)
    next
      case (Inr hd)
      obtain salt iv n md where hd: "hd = (salt, iv, n, md)" by (cases hd)
      obtain r1 w1 where g: "getSeedPhrase P ?w = (r1, w1)" by (cases "getSeedPhrase P ?w")
      note l1 = getSeedPhrase_crypto [OF g]
      show ?thesis
      proof (cases r1)
        case (Inl e)
        with magic b Inr hd g l1 show ?thesis by (simp add: importLargePVFile_def Let_def)
      next
        case S: (Inr S)
        obtain r2 w2 where d: "deriveKeyFromSeedPhrase P S salt w1 = (r2, w2)"
          by (cases "deriveKeyFromSeedPhrase P S salt w1")
        note l2 = logs_trans [OF l1 deriveKey_crypto [OF d]]
        show ?thesis
        proof (cases r2)
          case (Inl e)
          with magic b Inr hd g S d l2 show ?thesis by (simp add: importLargePVFile_def Let_def)
        next
          case k: (Inr k)
          obtain r3 w3 where p: "subtle_decrypt P k iv
              (drop (length PV_HEADER + SALT_LENGTH + IV_LENGTH + 4 + n) (pv_data f)) w2 = (r3, w3)"
            by (cases "subtle_decrypt P k iv
              (drop (length PV_HEADER + SALT_LENGTH + IV_LENGTH + 4 + n) (pv_data f)) w2")
          note l3 = logs_trans [OF l2 subtle_decrypt_crypto [OF p]]
          from magic b m Inr hd g S d k p l3 show ?thesis
            by (cases r3) (simp_all add: importLargePVFile_def Let_def)
        qed
      qed
    qed
  qed
qed

lemma importDirect_logs:
  assumes "length (pv_data f) \<le> LARGE_FILE_THRESHOLD"
  shows "logs w (snd (importPVFile P f w)) crypto_events"
proof -
  from assms have b: "\<not> length (pv_data f) > VERY_LARGE_FILE_THRESHOLD"
    "\<not> length (pv_data f) > LARGE_FILE_THRESHOLD"
    by (simp_all add: VERY_LARGE_FILE_THRESHOLD_def LARGE_FILE_THRESHOLD_def)
  show ?thesis
  proof (cases "js_slice (pv_data f) 0 (length PV_HEADER) \<noteq> text_encode PV_HEADER")
    case True
    with b show ?thesis by (simp add: importPVFile_def Let_def logs_refl)
  next
    case False
    note magic = this
    show ?thesis
    proof (cases "read_header P (pv_data f)")
      case (Inl e)
      with magic b show ?thesis by (simp add: importPVFile_def Let_def logs_refl)
    next
      case (Inr hd)
      obtain salt iv n md where hd: "hd = (salt, iv, n, md)" by (cases hd)
      obtain r1 w1 where g: "getSeedPhrase P w = (r1, w1)" by (cases "getSeedPhrase P w")
      note l1 = getSeedPhrase_crypto [OF g]
      show ?thesis
      proof (cases r1)
        case (Inl e)
        with magic b Inr hd g l1 show ?thesis by (simp add: importPVFile_def Let_def)
      next
        case S: (Inr S)
        obtain r2 w2 where d: "deriveKeyFromSeedPhrase P S salt w1 = (r2, w2)"
          by (cases "deriveKeyFromSeedPhrase P S salt w1")
        note l2 = logs_trans [OF l1 deriveKey_crypto [OF d]]
        show ?thesis
        proof (cases r2)
          case (Inl e)
          with magic b Inr hd g S d l2 show ?thesis by (simp add: importPVFile_def Let_def)
        next
          case k: (Inr k)
          obtain r3 w3 where p: "subtle_decrypt P k iv
              (drop (length PV_HEADER + SALT_LENGTH + IV_LENGTH + 4 + n) (pv_data f)) w2 = (r3, w3)"
            by (cases "subtle_decrypt P k iv
              (drop (length PV_HEADER + SALT_LENGTH + IV_LENGTH + 4 + n) (pv_data f)) w2")
          note l3 = logs_trans [OF l2 subtle_decrypt_crypto [OF p]]
          from magic b Inr hd g S d k p l3 show ?thesis
            by (cases r3) (simp_all add: importPVFile_def Let_def)
        qed
      qed
    qed
  qed
qed

lemma import_success_single_decrypt:
  assumes "length (pv_data f) \<le> VERY_LARGE_FILE_THRESHOLD"
    and "fst (importPVFile P f w) = Success item"
  shows "\<exists>salt iv n md S.
     read_header P (if length (pv_data f) > LARGE_FILE_THRESHOLD
                    then js_slice (pv_data f) 0 (1024 * 1024) else pv_data f) = Inr (salt, iv, n, md) \<and>
     aes_gcm_decrypt P (pbkdf2 P (text_encode S) salt ITERATION_COUNT) iv
       (drop (39 + n) (pv_data f)) = file_content item"
proof -
  from assms(1) have b: "\<not> length (pv_data f) > VERY_LARGE_FILE_THRESHOLD"
    "\<not> length (pv_data f) > BROWSER_LIMIT"
    by (simp_all add: VERY_LARGE_FILE_THRESHOLD_def BROWSER_LIMIT_def)
  from assms(1) have m: "\<not> length (pv_data f) - x > MAX_DECRYPT_SIZE" for x
    by (simp add: VERY_LARGE_FILE_THRESHOLD_def MAX_DECRYPT_SIZE_def)
  show ?thesis
  proof (cases "length (pv_data f) > LARGE_FILE_THRESHOLD")
    case True
    with assms(2) b m show ?thesis
      by (auto simp add: importPVFile_def importLargePVFile_def Let_def length_PV_HEADER
          SALT_LENGTH_def IV_LENGTH_def deriveKeyFromSeedPhrase_def subtle_decrypt_def
          decrypted_file_def
          split: if_splits sum.splits prod.splits option.splits)
  next
    case False
    with assms(2) b show ?thesis
      by (auto simp add: importPVFile_def Let_def length_PV_HEADER
          SALT_LENGTH_def IV_LENGTH_def deriveKeyFromSeedPhrase_def subtle_decrypt_def
          decrypted_file_def
          split: if_splits sum.splits prod.splits option.splits)
  qed
qed

subsection \<open>Import of a container with the layout of the export\<close>

lemma js_slice_append_left:
  "b \<le> length h \<Longrightarrow> js_slice (h @ r) a b = js_slice h a b"
  by (simp add: js_slice_def)

lemma js_slice_window:
  "b \<le> n \<Longrightarrow> js_slice (js_slice d 0 n) a b = js_slice d a b"
proof -
  assume "b \<le> n"
  then have "min (b - a) (n - a) = b - a" by simp
  then show ?thesis by (simp add: js_slice_def drop_take)
qed

lemma pv_header_slices:
  assumes "length salt = 16" "length iv = 12"
  shows "js_slice (pv_header_bytes salt iv mdb @ r) 0 7 = text_encode PV_HEADER"
    "js_slice (pv_header_bytes salt iv mdb @ r) 7 23 = salt"
    "js_slice (pv_header_bytes salt iv mdb @ r) 23 35 = iv"
    "js_slice (pv_header_bytes salt iv mdb @ r) 35 39 = uint32_bytes (length mdb)"
    "js_slice (pv_header_bytes salt iv mdb @ r) 39 (39 + length mdb) = mdb"
    "drop (39 + length mdb) (pv_header_bytes salt iv mdb @ r) = r"
  using assms
  by (simp_all add: js_slice_def pv_header_bytes_def length_magic length_uint32_bytes)

lemma read_header_layout:
  assumes "length salt = 16" "length iv = 12" "length mdb < 2 ^ 32"
  shows "read_header P (pv_header_bytes salt iv mdb @ r) =
     (case json_parse P (text_decode mdb) of
        Some m \<Rightarrow> Inr (salt, iv, length mdb, m)
      | None \<Rightarrow> Inl (JsError ''SyntaxError''))"
  using assms(3)
  by (simp add: read_header_def length_PV_HEADER SALT_LENGTH_def IV_LENGTH_def Let_def
      pv_header_slices [OF assms(1,2)] length_uint32_bytes uint32_roundtrip
      split: option.splits)

lemma read_header_window:
  assumes "39 + uint32_of_bytes (js_slice d 35 39) \<le> n"
  shows "read_header P (js_slice d 0 n) = read_header P d"
proof -
  from assms have "7 \<le> n" "23 \<le> n" "35 \<le> n" "39 \<le> n" by simp_all
  then show ?thesis
    using assms
    by (simp add: read_header_def length_PV_HEADER SALT_LENGTH_def IV_LENGTH_def Let_def
        js_slice_window split: option.splits)
qed

lemma read_header_layout_window:
  assumes "length salt = 16" "length iv = 12" "39 + length mdb \<le> 1048576"
  shows "read_header P (js_slice (pv_header_bytes salt iv mdb @ r) 0 1048576) =
     (case json_parse P (text_decode mdb) of
        Some m \<Rightarrow> Inr (salt, iv, length mdb, m)
      | None \<Rightarrow> Inl (JsError ''SyntaxError''))"
proof -
  from assms(3) have l: "length mdb < 2 ^ 32" by simp
  have "uint32_of_bytes (js_slice (pv_header_bytes salt iv mdb @ r) 35 39) = length mdb"
    using l by (simp add: pv_header_slices [OF assms(1,2)] uint32_roundtrip)
  with assms(3) have "read_header P (js_slice (pv_header_bytes salt iv mdb @ r) 0 1048576) =
      read_header P (pv_header_bytes salt iv mdb @ r)"
    by (intro read_header_window) simp
  then show ?thesis by (simp add: read_header_layout [OF assms(1,2) l])
qed

lemma magic_slice_layout:
  assumes "length salt = 16" "length iv = 12"
  shows "js_slice (pv_header_bytes salt iv mdb @ r) 0 (length PV_HEADER) = text_encode PV_HEADER"
    "js_slice (js_slice (pv_header_bytes salt iv mdb @ r) 0 1048576) 0 (length PV_HEADER) =
       text_encode PV_HEADER"
  by (simp_all add: length_PV_HEADER js_slice_window pv_header_slices [OF assms])

lemma import_layout_success:
  assumes l: "length salt = 16" "length iv = 12"
    and j: "json_parse P (text_decode mdb) = Some m"
    and g: "getSeedPhrase P (if length (pv_header_bytes salt iv mdb @ ct) > LARGE_FILE_THRESHOLD
              then log_event EvImportLarge w else w) = (Inr S, w1)"
    and c: "aes_gcm_decrypt P (pbkdf2 P (text_encode S) salt ITERATION_COUNT) iv ct = Some p"
    and s: "length (pv_header_bytes salt iv mdb @ ct) \<le> VERY_LARGE_FILE_THRESHOLD"
    and h: "39 + length mdb \<le> 1048576"
  shows "importPVFile P \<lparr>pv_name = n, pv_data = pv_header_bytes salt iv mdb @ ct\<rparr> w =
     (Success (decrypted_file \<lparr>pv_name = n, pv_data = pv_header_bytes salt iv mdb @ ct\<rparr> m p
        (log_event EvDecrypt (log_event EvDeriveKey w1))),
      log_event EvDecrypt (log_event EvDeriveKey w1))"
proof -
  let ?blob = "pv_header_bytes salt iv mdb @ ct"
  from s have b: "\<not> length ?blob > VERY_LARGE_FILE_THRESHOLD" "\<not> length ?blob > BROWSER_LIMIT"
    by (simp_all add: VERY_LARGE_FILE_THRESHOLD_def BROWSER_LIMIT_def)
  from s have mx: "\<not> length ?blob - x > MAX_DECRYPT_SIZE" for x
    by (simp add: VERY_LARGE_FILE_THRESHOLD_def MAX_DECRYPT_SIZE_def)
  from h have l32: "length mdb < 2 ^ 32" by simp
  note rh = read_header_layout [OF l l32] read_header_layout_window [OF l h]
  have d: "drop (length PV_HEADER + SALT_LENGTH + IV_LENGTH + 4 + length mdb) ?blob = ct"
    using pv_header_slices(6) [OF l]
    by (simp add: length_PV_HEADER SALT_LENGTH_def IV_LENGTH_def)
  show ?thesis
  proof (cases "length ?blob > LARGE_FILE_THRESHOLD")
    case True
    with g have g': "getSeedPhrase P (log_event EvImportLarge w) = (Inr S, w1)" by simp
    from True b mx show ?thesis
      unfolding importPVFile_def importLargePVFile_def
      by (simp add: Let_def magic_slice_layout [OF l] rh j g' d deriveKeyFromSeedPhrase_def
          subtle_decrypt_def c del: length_append drop_append)
  next
    case False
    with g have g': "getSeedPhrase P w = (Inr S, w1)" by simp
    from False b show ?thesis
      unfolding importPVFile_def
      by (simp add: Let_def magic_slice_layout [OF l] rh j g' d deriveKeyFromSeedPhrase_def
          subtle_decrypt_def c del: length_append drop_append)
  qed
qed

lemma roundtrip_direct:
  assumes a: "aead_ok P" and j: "json_ok P (file_metadata (snd item))"
    and c: "getFileContent (fst item) d = Inr (Some B)"
    and e: "file_encrypted (snd item) \<noteq> Some True"
    and t: "\<not> file_size (snd item) > int LARGE_FILE_THRESHOLD"
    and g: "getSeedPhrase P w = (Inr S, w1)"
    and x: "fst (exportFileToPV P d item w) = Inr blob"
    and g': "getSeedPhrase P (if length blob > LARGE_FILE_THRESHOLD
              then log_event EvImportLarge w' else w') = (Inr S, w1')"
    and s: "length blob \<le> VERY_LARGE_FILE_THRESHOLD"
    and h: "39 + length (text_encode (json_stringify P (file_metadata (snd item)))) \<le> 1048576"
  shows "importPVFile P \<lparr>pv_name = n, pv_data = blob\<rparr> w' =
     (Success (decrypted_file \<lparr>pv_name = n, pv_data = blob\<rparr> (file_metadata (snd item)) B
        (log_event EvDecrypt (log_event EvDeriveKey w1'))),
      log_event EvDecrypt (log_event EvDeriveKey w1'))"
proof -
  let ?salt = "map (rng w1) [0..<16]" and ?iv = "map (\<lambda>i. rng w1 (i + 16)) [0..<12]"
  let ?mdb = "text_encode (json_stringify P (file_metadata (snd item)))"
  let ?k = "pbkdf2 P (text_encode S) ?salt ITERATION_COUNT"
  from exportFileToPV_plain [OF c e g] x t
  have b: "blob = pv_header_bytes ?salt ?iv ?mdb @ aes_gcm_encrypt P ?k ?iv B"
    by (simp add: export_ciphertext_def)
  have l: "length ?salt = 16" "length ?iv = 12" by simp_all
  from j have p: "json_parse P (text_decode ?mdb) = Some (file_metadata (snd item))"
    by (simp add: json_ok_def text_decode_encode)
  from a have dc: "aes_gcm_decrypt P ?k ?iv (aes_gcm_encrypt P ?k ?iv B) = Some B"
    by (simp add: aead_ok_def)
  show ?thesis
    using import_layout_success [OF l p g' [unfolded b] dc s [unfolded b] h]
    unfolding b .
qed

lemma example_metadata_parse:
  "toy_parse ''10000000b01000000text/plain+30000000+00010000S10000000b'' =
     Some \<lparr>md_name = ''b'', md_type = ''text/plain'', md_size = 3, md_lastModified = 1000,
           md_originalFilename = Some ''b''\<rparr>"
  by (simp add: toy_parse_def toy_parse_str_def toy_parse_int_def toy_nat_value_def Let_def)

lemma example_json_ok: "json_ok toy_platform (file_metadata (example_file ''b'' fo))"
proof -
  have "file_metadata (example_file ''b'' fo) =
     \<lparr>md_name = ''b'', md_type = ''text/plain'', md_size = 3, md_lastModified = 1000,
      md_originalFilename = Some ''b''\<rparr>"
    by (simp add: file_metadata_def example_file_def)
  then show ?thesis
    unfolding json_ok_def
    using example_metadata_text [of fo] example_metadata_parse
    by (simp add: toy_platform_def)
qed

lemma length_example_container: "length example_container = 113"
  by (simp add: example_container_def)

lemma example_container_layout:
  "example_container =
     pv_header_bytes [0, 1, 2, 3, 4, 5, 6, 7, 8, 9, 10, 11, 12, 13, 14, 15]
       [16, 17, 18, 19, 20, 21, 22, 23, 24, 25, 26, 27]
       (text_encode ''10000000b01000000text/plain+30000000+00010000S10000000b'') @
     [76, 79, 78, 77, 77, 77, 77, 77, 77, 77, 77, 77, 77, 77, 77, 77, 77, 77, 54]"
  by (simp add: example_container_def pv_header_bytes_def PV_HEADER_def text_encode_def
      uint32_bytes_def Let_def)

lemma example_import:
  "importPVFile toy_platform example_pv_file example_world =
     (Success example_imported,
      example_world\<lparr>trace := [EvGetSeedPhrase, EvDecrypt, EvDeriveKey, EvDecrypt]\<rparr>)"
proof -
  have e: "file_encrypted (snd (2 :: nat, example_file ''b'' (Some 1))) \<noteq> Some True"
    by (simp add: example_file_def)
  have c: "getFileContent (fst (2 :: nat, example_file ''b'' (Some 1))) example_db = Inr (Some [1, 2, 3])"
    by (simp add: example_db_content)
  have t: "\<not> file_size (snd (2 :: nat, example_file ''b'' (Some 1))) > int LARGE_FILE_THRESHOLD"
    by (simp add: example_file_def LARGE_FILE_THRESHOLD_def)
  have j: "json_ok toy_platform (file_metadata (snd (2 :: nat, example_file ''b'' (Some 1))))"
    by (simp add: example_json_ok)
  have w: "example_world\<lparr>trace := trace example_world\<rparr> = example_world" by simp
  note g = example_seed_phrase [of "trace example_world", unfolded w]
  have g': "getSeedPhrase toy_platform
      (if length example_container > LARGE_FILE_THRESHOLD
       then log_event EvImportLarge example_world else example_world) =
      (Inr ''test phrase'', example_world\<lparr>trace := trace example_world @ [EvGetSeedPhrase, EvDecrypt]\<rparr>)"
    using g by (simp add: length_example_container LARGE_FILE_THRESHOLD_def)
  have s: "length example_container \<le> VERY_LARGE_FILE_THRESHOLD"
    by (simp add: length_example_container VERY_LARGE_FILE_THRESHOLD_def)
  have h: "39 + length (text_encode (json_stringify toy_platform
      (file_metadata (snd (2 :: nat, example_file ''b'' (Some 1)))))) \<le> 1048576"
    by (simp add: example_metadata_length)
  note r = roundtrip_direct [OF toy_aead_ok j c e t g example_export g' s h, of "''x.pv''"]
  show ?thesis
    unfolding example_pv_file_def r
    by (simp add: decrypted_file_def example_imported_def file_metadata_def example_file_def
        imported_name_def log_event_def example_world_def)
qed

subsection \<open>Selection of the import routine\<close>

lemma import_events_streaming:
  assumes "length (pv_data f) > VERY_LARGE_FILE_THRESHOLD"
  shows "\<exists>tr. import_events P f w = EvImportStreaming # tr \<and> set tr \<subseteq> crypto_events"
proof -
  from logs_after_event [OF importStreamingPVFile_logs [of w P f]] obtain tr where
    "trace (snd (importStreamingPVFile P f w)) = trace w @ EvImportStreaming # tr"
    "set tr \<subseteq> crypto_events"
    by blast
  with assms show ?thesis by (simp add: import_events_def importPVFile_def)
qed

lemma import_events_large:
  assumes "length (pv_data f) > LARGE_FILE_THRESHOLD"
    and "length (pv_data f) \<le> VERY_LARGE_FILE_THRESHOLD"
  shows "\<exists>tr. import_events P f w = EvImportLarge # tr \<and> set tr \<subseteq> crypto_events"
proof -
  from logs_after_event [OF importLargePVFile_logs [OF assms(2), of w P]] obtain tr where
    "trace (snd (importLargePVFile P f w)) = trace w @ EvImportLarge # tr"
    "set tr \<subseteq> crypto_events"
    by blast
  with assms show ?thesis by (simp add: import_events_def importPVFile_def)
qed

lemma import_events_direct:
  assumes "length (pv_data f) \<le> LARGE_FILE_THRESHOLD"
  shows "set (import_events P f w) \<subseteq> crypto_events"
  using logs_events [OF importDirect_logs [OF assms, of w P]]
  by (simp add: import_events_def)

subsection \<open>Export followed by import\<close>

lemma chunk_of_take: "chunk_of content i = take CHUNK_SIZE (drop (i * CHUNK_SIZE) content)"
proof (cases "i * CHUNK_SIZE + CHUNK_SIZE \<le> length content")
  case True
  then show ?thesis by (simp add: chunk_of_def js_slice_def min_def)
next
  case False
  then have "length (drop (i * CHUNK_SIZE) content) \<le> CHUNK_SIZE" by simp
  then have "take CHUNK_SIZE (drop (i * CHUNK_SIZE) content) = drop (i * CHUNK_SIZE) content"
    by (rule take_all)
  moreover from False have "chunk_of content i = drop (i * CHUNK_SIZE) content"
    by (simp add: chunk_of_def js_slice_def min_def)
  ultimately show ?thesis by simp
qed

lemma length_chunked_ciphertext:
  assumes "aead_ok P"
  shows "length (concat (map (\<lambda>j. aes_gcm_encrypt P k iv (chunk_of content j)) [0..<n])) =
     length (take (n * CHUNK_SIZE) content) + 16 * n"
proof (induction n)
  case 0
  show ?case by simp
next
  case (Suc n)
  have "take (Suc n * CHUNK_SIZE) content =
      take (n * CHUNK_SIZE) content @ take CHUNK_SIZE (drop (n * CHUNK_SIZE) content)"
    using take_add [of "n * CHUNK_SIZE" CHUNK_SIZE content] by (simp add: add.commute)
  then have "length (take (Suc n * CHUNK_SIZE) content) =
      length (take (n * CHUNK_SIZE) content) + length (chunk_of content n)"
    by (simp only: chunk_of_take length_append)
  moreover from assms have "length (aes_gcm_encrypt P k iv (chunk_of content n)) =
      length (chunk_of content n) + 16"
    by (simp add: aead_ok_def)
  ultimately show ?case using Suc by simp
qed

lemma length_export_ciphertext_large:
  assumes "aead_ok P"
  shows "length (export_ciphertext P True k iv content) =
     length content + 16 * ((length content + CHUNK_SIZE - 1) div CHUNK_SIZE)"
proof -
  let ?n = "(length content + CHUNK_SIZE - 1) div CHUNK_SIZE"
  have "length content \<le> ?n * CHUNK_SIZE"
  proof -
    have "length content + CHUNK_SIZE - 1 < ?n * CHUNK_SIZE + CHUNK_SIZE"
      using div_mult_mod_eq [of "length content + CHUNK_SIZE - 1" CHUNK_SIZE]
        mod_less_divisor [of CHUNK_SIZE "length content + CHUNK_SIZE - 1"]
      by (simp add: CHUNK_SIZE_def)
    then show ?thesis by (simp add: CHUNK_SIZE_def)
  qed
  then have "take (?n * CHUNK_SIZE) content = content" by simp
  with length_chunked_ciphertext [OF assms, of k iv content ?n] show ?thesis
    by (simp add: export_ciphertext_def)
qed

lemma read_header_length_field:
  "read_header P x = Inr (salt, iv, n, md) \<Longrightarrow> n = uint32_of_bytes (js_slice x 35 39)"
  by (auto simp add: read_header_def length_PV_HEADER SALT_LENGTH_def IV_LENGTH_def Let_def
      split: if_splits option.splits)

text \<open>
  Claim C1.  The round trip holds for a file that is exported by the direct path
  (\<open>roundtrip_direct\<close>), and fails for every file above \<^verbatim>\<open>LARGE_FILE_THRESHOLD\<close> whose
  container is at most \<^verbatim>\<open>VERY_LARGE_FILE_THRESHOLD\<close> long.  The export encrypts such a file
  in chunks of \<^verbatim>\<open>CHUNK_SIZE\<close> bytes, each with a tag of its own, so that the ciphertext is
  longer than the content by 16 bytes for every chunk; the import decrypts everything after
  the header in one call, whose result, if there is one, is 16 bytes shorter than its input.
  On a platform with the laws of AES-GCM, whatever the secret phrase at the import, the
  import therefore never returns the content that was exported.
\<close>

theorem chunked_roundtrip_fails:
  assumes a: "aead_ok P"
    and c: "getFileContent (fst item) d = Inr (Some B)"
    and e: "file_encrypted (snd item) \<noteq> Some True"
    and z: "file_size (snd item) = int (length B)"
    and t: "file_size (snd item) > int LARGE_FILE_THRESHOLD"
    and x: "fst (exportFileToPV P d item w) = Inr blob"
    and s: "length blob \<le> VERY_LARGE_FILE_THRESHOLD"
  shows "imported_content (fst (importPVFile P \<lparr>pv_name = n, pv_data = blob\<rparr> w')) \<noteq> Some B"
proof
  let ?f = "\<lparr>pv_name = n, pv_data = blob\<rparr>"
  let ?mdb = "text_encode (json_stringify P (file_metadata (snd item)))"
  assume i: "imported_content (fst (importPVFile P ?f w')) = Some B"
  then obtain item' where r: "fst (importPVFile P ?f w') = Success item'"
    and fc: "file_content item' = Some B"
    by (auto simp add: imported_content_def split: import_result.splits)
  from exportFileToPV_success [OF x] c e t obtain salt iv S where
    l: "length salt = 16" "length iv = 12"
    and b: "blob = pv_header_bytes salt iv ?mdb @
       export_ciphertext P True (pbkdf2 P (text_encode S) salt ITERATION_COUNT) iv B"
    by auto
  let ?ct = "export_ciphertext P True (pbkdf2 P (text_encode S) salt ITERATION_COUNT) iv B"
  from s have s': "length (pv_data ?f) \<le> VERY_LARGE_FILE_THRESHOLD" by simp
  from import_success_single_decrypt [OF s' r] fc obtain salt' iv' n' md' S' where
    h0: "read_header P (if length (pv_data ?f) > LARGE_FILE_THRESHOLD
                       then js_slice (pv_data ?f) 0 (1024 * 1024) else pv_data ?f) =
           Inr (salt', iv', n', md')"
    and dc0: "aes_gcm_decrypt P (pbkdf2 P (text_encode S') salt' ITERATION_COUNT) iv'
       (drop (39 + n') (pv_data ?f)) = Some B"
    by metis
  from h0 have h: "read_header P (if length blob > LARGE_FILE_THRESHOLD
                       then js_slice blob 0 (1024 * 1024) else blob) = Inr (salt', iv', n', md')"
    by (simp cong: if_cong)
  from dc0 have dc: "aes_gcm_decrypt P (pbkdf2 P (text_encode S') salt' ITERATION_COUNT) iv'
       (drop (39 + n') blob) = Some B"
    by simp
  have "length ?mdb \<le> length blob" unfolding b by (simp add: pv_header_bytes_def)
  with s have m32: "length ?mdb < 2 ^ 32" by (simp add: VERY_LARGE_FILE_THRESHOLD_def)
  have "js_slice (if length blob > LARGE_FILE_THRESHOLD
                       then js_slice blob 0 (1024 * 1024) else blob) 35 39 = js_slice blob 35 39"
    by (simp add: js_slice_window)
  with read_header_length_field [OF h] have "n' = uint32_of_bytes (js_slice blob 35 39)" by simp
  also have "\<dots> = length ?mdb"
    unfolding b using m32 by (simp add: pv_header_slices [OF l] uint32_roundtrip)
  finally have n': "n' = length ?mdb" .
  have "drop (39 + n') blob = ?ct"
    unfolding n' b by (rule pv_header_slices(6) [OF l])
  with dc a have "length ?ct = length B + 16" by (auto simp add: aead_ok_def)
  with length_export_ciphertext_large [OF a, of "pbkdf2 P (text_encode S) salt ITERATION_COUNT" iv B]
  have one: "(length B + CHUNK_SIZE - 1) div CHUNK_SIZE = 1" by simp
  from z t have "length B > LARGE_FILE_THRESHOLD" by simp
  then have "length B + CHUNK_SIZE - 1 \<ge> 2 * CHUNK_SIZE"
    by (simp add: LARGE_FILE_THRESHOLD_def CHUNK_SIZE_def)
  then have "(length B + CHUNK_SIZE - 1) div CHUNK_SIZE \<ge> 2 * CHUNK_SIZE div CHUNK_SIZE"
    by (rule div_le_mono)
  with one show False by (simp add: CHUNK_SIZE_def)
qed

lemma length_toy_nat: "length (toy_nat n) = 8"
  by (simp add: toy_nat_def)

lemma length_toy_stringify:
  "length (toy_stringify m) =
     length (md_name m) + length (md_type m) + 34 +
     (case md_originalFilename m of None \<Rightarrow> 1 | Some n \<Rightarrow> 9 + length n)"
  by (simp add: toy_stringify_def toy_str_def toy_int_def length_toy_nat split: option.splits)

lemma example_large_db_content:
  "getFileContent 1 example_large_db = Inr (Some example_large_content)"
  by (simp add: example_large_db_def getFileContent_def saveFile_def store_add_def store_get_def
      empty_db_def empty_store_def Let_def example_large_file_def)

lemma example_large_export:
  "fst (exportFileToPV toy_platform example_large_db (1, example_large_file) example_world) =
     Inr example_large_container"
proof -
  have e: "file_encrypted (snd (1 :: nat, example_large_file)) \<noteq> Some True"
    by (simp add: example_large_file_def)
  have c: "getFileContent (fst (1 :: nat, example_large_file)) example_large_db =
      Inr (Some example_large_content)"
    using example_large_db_content by simp
  have w: "example_world\<lparr>trace := trace example_world\<rparr> = example_world" by simp
  have sz: "file_size example_large_file > int LARGE_FILE_THRESHOLD"
    by (simp add: example_large_file_def LARGE_FILE_THRESHOLD_def)
  have r: "rng (example_world\<lparr>trace := tr\<rparr>) = of_nat" for tr
    by (simp add: example_world_def)
  note x = exportFileToPV_plain [OF c e example_seed_phrase [of "trace example_world", unfolded w]]
  show ?thesis
    unfolding x example_large_container_def
    by (simp add: sz r toy_platform_def)
qed

lemma length_example_large_container: "length example_large_container = 52429741"
proof -
  have "length (text_encode (toy_stringify (file_metadata example_large_file))) = 85"
    by (simp add: text_encode_def length_toy_stringify file_metadata_def example_large_file_def)
  moreover have "length example_large_content = 52428801"
    by (simp add: example_large_content_def)
  ultimately show ?thesis
    unfolding example_large_container_def
    by (simp add: length_pv_header_bytes length_export_ciphertext_large [OF toy_aead_ok]
        CHUNK_SIZE_def)
qed

text \<open>The file of 52428801 bytes is such a file.\<close>

theorem chunked_roundtrip_fails_witness:
  "aead_ok toy_platform \<and>
   getFileContent 1 example_large_db = Inr (Some example_large_content) \<and>
   file_encrypted example_large_file \<noteq> Some True \<and>
   file_size example_large_file = int (length example_large_content) \<and>
   file_size example_large_file > int LARGE_FILE_THRESHOLD \<and>
   fst (exportFileToPV toy_platform example_large_db (1, example_large_file) example_world) =
     Inr example_large_container \<and>
   length example_large_container \<le> VERY_LARGE_FILE_THRESHOLD \<and>
   imported_content (fst (importPVFile toy_platform
       \<lparr>pv_name = ''large.pv'', pv_data = example_large_container\<rparr> example_world)) \<noteq>
     Some example_large_content"
proof -
  have c: "getFileContent (fst (1 :: nat, example_large_file)) example_large_db =
      Inr (Some example_large_content)"
    using example_large_db_content by simp
  have e: "file_encrypted (snd (1 :: nat, example_large_file)) \<noteq> Some True"
    by (simp add: example_large_file_def)
  have z: "file_size (snd (1 :: nat, example_large_file)) = int (length example_large_content)"
    by (simp add: example_large_file_def example_large_content_def)
  have t: "file_size (snd (1 :: nat, example_large_file)) > int LARGE_FILE_THRESHOLD"
    by (simp add: example_large_file_def LARGE_FILE_THRESHOLD_def)
  have s: "length example_large_container \<le> VERY_LARGE_FILE_THRESHOLD"
    by (simp add: length_example_large_container VERY_LARGE_FILE_THRESHOLD_def)
  from chunked_roundtrip_fails [OF toy_aead_ok c e z t example_large_export s,
      of "''large.pv''" example_world]
    toy_aead_ok c e z t example_large_export s
  show ?thesis by simp
qed

subsection \<open>The routine that an import enters\<close>

text \<open>
  Claim C4, as the code has it.  \<open>importPVFile\<close> chooses its routine from the total length
  of the container: the segmented streaming routine is entered exactly when the container
  is longer than \<^verbatim>\<open>VERY_LARGE_FILE_THRESHOLD\<close> (1932735283 bytes), the large-file routine
  exactly when it is longer than \<^verbatim>\<open>LARGE_FILE_THRESHOLD\<close> (52428800 bytes) and not longer
  than \<^verbatim>\<open>VERY_LARGE_FILE_THRESHOLD\<close>, and neither of them exactly when it is at most
  \<^verbatim>\<open>LARGE_FILE_THRESHOLD\<close> long.  The remaining length, which the large-file routine
  compares with \<^verbatim>\<open>MAX_DECRYPT_SIZE\<close>, never changes the routine.
\<close>

theorem import_strategy_by_total_length:
  "(EvImportStreaming \<in> set (import_events P f w) \<longleftrightarrow>
      length (pv_data f) > VERY_LARGE_FILE_THRESHOLD) \<and>
   (EvImportLarge \<in> set (import_events P f w) \<longleftrightarrow>
      length (pv_data f) > LARGE_FILE_THRESHOLD \<and>
      length (pv_data f) \<le> VERY_LARGE_FILE_THRESHOLD) \<and>
   (EvImportStreaming \<notin> set (import_events P f w) \<and> EvImportLarge \<notin> set (import_events P f w) \<longleftrightarrow>
      length (pv_data f) \<le> LARGE_FILE_THRESHOLD) \<and>
   VERY_LARGE_FILE_THRESHOLD = 1932735283 \<and> LARGE_FILE_THRESHOLD = 52428800"
proof -
  consider (s) "length (pv_data f) > VERY_LARGE_FILE_THRESHOLD"
    | (l) "length (pv_data f) > LARGE_FILE_THRESHOLD" "length (pv_data f) \<le> VERY_LARGE_FILE_THRESHOLD"
    | (d) "length (pv_data f) \<le> LARGE_FILE_THRESHOLD"
    by linarith
  then have "(EvImportStreaming \<in> set (import_events P f w) \<longleftrightarrow>
      length (pv_data f) > VERY_LARGE_FILE_THRESHOLD) \<and>
   (EvImportLarge \<in> set (import_events P f w) \<longleftrightarrow>
      length (pv_data f) > LARGE_FILE_THRESHOLD \<and>
      length (pv_data f) \<le> VERY_LARGE_FILE_THRESHOLD)"
  proof cases
    case s
    from import_events_streaming [OF s, of P w] obtain tr where
      "import_events P f w = EvImportStreaming # tr" "set tr \<subseteq> crypto_events" by blast
    with s show ?thesis by auto
  next
    case l
    from import_events_large [OF l, of P w] obtain tr where
      "import_events P f w = EvImportLarge # tr" "set tr \<subseteq> crypto_events" by blast
    with l show ?thesis by auto
  next
    case d
    from d thresholds_ordered(1) have "\<not> length (pv_data f) > VERY_LARGE_FILE_THRESHOLD" by simp
    with d import_events_direct [OF d, of P w] show ?thesis by auto
  qed
  moreover have "VERY_LARGE_FILE_THRESHOLD = 1932735283" "LARGE_FILE_THRESHOLD = 52428800"
    by (simp_all add: VERY_LARGE_FILE_THRESHOLD_def LARGE_FILE_THRESHOLD_def)
  ultimately show ?thesis using thresholds_ordered(1) by auto
qed

text \<open>
  One container for each routine: the example container, the container of the file of
  52428801 bytes, and a container of 1932735284 bytes.
\<close>

theorem import_strategy_by_total_length_witness:
  "length (pv_data example_pv_file) = 113 \<and>
   EvImportStreaming \<notin> set (import_events toy_platform example_pv_file example_world) \<and>
   EvImportLarge \<notin> set (import_events toy_platform example_pv_file example_world) \<and>
   length (pv_data example_large_pv_file) = 52429741 \<and>
   EvImportStreaming \<notin> set (import_events toy_platform example_large_pv_file example_world) \<and>
   EvImportLarge \<in> set (import_events toy_platform example_large_pv_file example_world) \<and>
   length (pv_data example_big_file) = 1932735284 \<and>
   EvImportStreaming \<in> set (import_events toy_platform example_big_file example_world) \<and>
   EvImportLarge \<notin> set (import_events toy_platform example_big_file example_world)"
proof -
  have a: "length (pv_data example_pv_file) = 113"
    by (simp add: example_pv_file_def length_example_container)
  have b: "length (pv_data example_large_pv_file) = 52429741"
    by (simp add: example_large_pv_file_def length_example_large_container)
  have c: "length (pv_data example_big_file) = 1932735284"
    by (simp add: example_big_file_def length_example_container)
  from import_strategy_by_total_length [of toy_platform example_pv_file example_world]
  have 1: "EvImportStreaming \<notin> set (import_events toy_platform example_pv_file example_world)"
    "EvImportLarge \<notin> set (import_events toy_platform example_pv_file example_world)"
    unfolding a by simp_all
  from import_strategy_by_total_length [of toy_platform example_large_pv_file example_world]
  have 2: "EvImportStreaming \<notin> set (import_events toy_platform example_large_pv_file example_world)"
    "EvImportLarge \<in> set (import_events toy_platform example_large_pv_file example_world)"
    unfolding b by simp_all
  from import_strategy_by_total_length [of toy_platform example_big_file example_world]
  have 3: "EvImportStreaming \<in> set (import_events toy_platform example_big_file example_world)"
    "EvImportLarge \<notin> set (import_events toy_platform example_big_file example_world)"
    unfolding c by simp_all
  from a b c 1 2 3 show ?thesis by simp
qed

text \<open>
  The claim as stated fails: a container of 1932735284 bytes whose header takes 94 bytes has
  a remaining length below the streaming threshold, where the selection by remaining length
  is the chunked strategy, and the code enters the streaming routine.
\<close>

theorem import_strategy_remaining_length_counterexample:
  "read_header toy_platform (js_slice (pv_data example_big_file) 0 (1024 * 1024)) =
     Inr ([0, 1, 2, 3, 4, 5, 6, 7, 8, 9, 10, 11, 12, 13, 14, 15],
          [16, 17, 18, 19, 20, 21, 22, 23, 24, 25, 26, 27], 55, example_metadata) \<and>
   length (pv_data example_big_file) = 1932735284 \<and>
   spec_decrypt_strategy (length (pv_data example_big_file) - (39 + 55)) = Chunked \<and>
   EvImportStreaming \<in> set (import_events toy_platform example_big_file example_world)"
proof -
  have l: "length (pv_data example_big_file) = 1932735284"
    by (simp add: example_big_file_def length_example_container)
  have s: "length (pv_data example_big_file) > VERY_LARGE_FILE_THRESHOLD"
    unfolding l by (simp add: VERY_LARGE_FILE_THRESHOLD_def)
  from import_events_streaming [OF s, of toy_platform example_world]
  have e: "EvImportStreaming \<in> set (import_events toy_platform example_big_file example_world)"
    by auto
  have m: "length (text_encode ''10000000b01000000text/plain+30000000+00010000S10000000b'') = 55"
    by (simp add: text_encode_def)
  have "read_header toy_platform (js_slice (pv_data example_big_file) 0 1048576) =
     Inr ([0, 1, 2, 3, 4, 5, 6, 7, 8, 9, 10, 11, 12, 13, 14, 15],
          [16, 17, 18, 19, 20, 21, 22, 23, 24, 25, 26, 27], 55, example_metadata)"
    unfolding example_big_file_def example_container_layout
    using read_header_layout_window [of "[0, 1, 2, 3, 4, 5, 6, 7, 8, 9, 10, 11, 12, 13, 14, 15]"
        "[16, 17, 18, 19, 20, 21, 22, 23, 24, 25, 26, 27]"
        "text_encode ''10000000b01000000text/plain+30000000+00010000S10000000b''" toy_platform]
      example_metadata_parse
    by (simp add: m text_decode_encode toy_platform_def example_metadata_def)
  moreover have "spec_decrypt_strategy (length (pv_data example_big_file) - (39 + 55)) = Chunked"
    unfolding l
    by (simp add: spec_decrypt_strategy_def VERY_LARGE_FILE_THRESHOLD_def LARGE_FILE_THRESHOLD_def)
  ultimately show ?thesis using l e by simp
qed

subsection \<open>A failed decryption in the export\<close>

lemma exportFileToPV_result:
  assumes "getFileContent (fst item) d = Inr stored"
    and "(if file_encrypted (snd item) = Some True then decryptFileContent P stored w
          else (stored, w)) = (Some content, w2)"
    and "getSeedPhrase P w2 = (Inr S, w3)"
  shows "fst (exportFileToPV P d item w) =
     Inr (pv_header_bytes (map (rng w3) [0..<16]) (map (\<lambda>i. rng w3 (i + 16)) [0..<12])
            (text_encode (json_stringify P (file_metadata (snd item)))) @
          export_ciphertext P (file_size (snd item) > int LARGE_FILE_THRESHOLD)
            (pbkdf2 P (text_encode S) (map (rng w3) [0..<16]) ITERATION_COUNT)
            (map (\<lambda>i. rng w3 (i + 16)) [0..<12]) content)"
proof (cases "file_size (snd item) > int LARGE_FILE_THRESHOLD")
  case True
  have "fst (await (encrypt_chunks P k iv content n 0 [h]) (\<lambda>c. resolve (concat c)) w') =
      Inr (h @ concat (map (\<lambda>j. aes_gcm_encrypt P k iv (chunk_of content j)) [0..<n]))" for k iv n h w'
    using await_resolve_fst [where m = "encrypt_chunks P k iv content n 0 [h]" and w = w'
        and f = concat, OF encrypt_chunks_result]
    by simp
  with True assms show ?thesis
    by (simp add: exportFileToPV_unfold exportLargeFileToPV_unfold await_def db_getFileContent_def
        getRandomValues_def SALT_LENGTH_def IV_LENGTH_def deriveKeyFromSeedPhrase_def Let_def
        blob_bytes_def resolve_def export_ciphertext_def split: if_splits)
next
  case False
  with assms show ?thesis
    by (simp add: exportFileToPV_unfold await_def db_getFileContent_def
        getRandomValues_def SALT_LENGTH_def IV_LENGTH_def deriveKeyFromSeedPhrase_def Let_def
        blob_bytes_def resolve_def export_ciphertext_def subtle_encrypt_def split: if_splits)
qed

text \<open>
  Claim C2, as amended.  When the authenticated decryption of a stored blob fails under the
  at-rest key, \<^verbatim>\<open>decryptFileContent\<close> and \<^verbatim>\<open>decryptFile\<close> report no failure: each returns
  the blob it was given, unchanged.  \<^verbatim>\<open>exportFileToPV\<close>, for a file marked as encrypted
  whose stored blob is this one, then takes the blob itself for the content of the file: if
  the seed phrase can be fetched, the export succeeds, and what follows the header of the
  container is the encryption of the still encrypted blob.
\<close>

theorem decrypt_failure_returns_input:
  assumes "fst (getOrCreateEncryptionKey w) = Inr k"
    and "aes_gcm_decrypt P k (take 12 encryptedBuffer) (drop 12 encryptedBuffer) = None"
  shows "fst (decryptFileContent P (Some encryptedBuffer) w) = Some encryptedBuffer \<and>
         fst (decryptFile P (Some encryptedBuffer) w) = Some encryptedBuffer \<and>
         (getFileContent (fst item) d = Inr (Some encryptedBuffer) \<and>
          file_encrypted (snd item) = Some True \<and>
          getSeedPhrase P (snd (decryptFileContent P (Some encryptedBuffer) w)) = (Inr S, w3) \<longrightarrow>
            (\<exists>salt iv. fst (exportFileToPV P d item w) =
               Inr (pv_header_bytes salt iv (text_encode (json_stringify P (file_metadata (snd item)))) @
                    export_ciphertext P (file_size (snd item) > int LARGE_FILE_THRESHOLD)
                      (pbkdf2 P (text_encode S) salt ITERATION_COUNT) iv encryptedBuffer)))"
proof (intro conjI impI)
  obtain w1 where "getOrCreateEncryptionKey w = (Inr k, w1)"
    using assms(1) by (cases "getOrCreateEncryptionKey w") simp
  then show r: "fst (decryptFileContent P (Some encryptedBuffer) w) = Some encryptedBuffer"
    using assms(2) by (simp add: decryptFileContent_def subtle_decrypt_def)
  from assms(1) show "fst (decryptFile P (Some encryptedBuffer) w) = Some encryptedBuffer"
  proof (cases rule: getOrCreateEncryptionKey_cases)
    case 1
    then show ?thesis using assms(2) by (simp add: decryptFile_def subtle_decrypt_def)
  next
    case (2 e)
    then show ?thesis by (simp add: decryptFile_def)
  qed
  assume h: "getFileContent (fst item) d = Inr (Some encryptedBuffer) \<and>
          file_encrypted (snd item) = Some True \<and>
          getSeedPhrase P (snd (decryptFileContent P (Some encryptedBuffer) w)) = (Inr S, w3)"
  from r have "decryptFileContent P (Some encryptedBuffer) w =
      (Some encryptedBuffer, snd (decryptFileContent P (Some encryptedBuffer) w))"
    by (cases "decryptFileContent P (Some encryptedBuffer) w") simp
  with h have c: "(if file_encrypted (snd item) = Some True
        then decryptFileContent P (Some encryptedBuffer) w else (Some encryptedBuffer, w)) =
      (Some encryptedBuffer, snd (decryptFileContent P (Some encryptedBuffer) w))"
    by simp
  from h have g: "getFileContent (fst item) d = Inr (Some encryptedBuffer)"
    and s: "getSeedPhrase P (snd (decryptFileContent P (Some encryptedBuffer) w)) = (Inr S, w3)"
    by simp_all
  from exportFileToPV_result [OF g c s]
  show "\<exists>salt iv. fst (exportFileToPV P d item w) =
               Inr (pv_header_bytes salt iv (text_encode (json_stringify P (file_metadata (snd item)))) @
                    export_ciphertext P (file_size (snd item) > int LARGE_FILE_THRESHOLD)
                      (pbkdf2 P (text_encode S) salt ITERATION_COUNT) iv encryptedBuffer)"
    by blast
qed

lemma example_garbled_decrypt:
  "decryptFileContent toy_platform (Some example_garbled) example_world =
     (Some example_garbled, example_world\<lparr>trace := [EvDecrypt]\<rparr>)"
  using example_garbled_fails
  by (simp add: decryptFileContent_def getOrCreateEncryptionKey_def importKey_aes_def resolve_def
      subtle_decrypt_def example_world_def example_key_def log_event_def)

lemma example_garbled_db_content:
  "getFileContent 1 example_garbled_db = Inr (Some example_garbled)"
  by (simp add: example_garbled_db_def getFileContent_def saveFile_def store_add_def store_get_def
      empty_db_def empty_store_def Let_def example_garbled_file_def)

text \<open>A file whose stored blob does not verify is exported in this way.\<close>

theorem decrypt_failure_returns_input_witness:
  "fst (getOrCreateEncryptionKey example_world) = Inr example_key \<and>
   aes_gcm_decrypt toy_platform example_key (take 12 example_garbled) (drop 12 example_garbled) = None \<and>
   fst (decryptFileContent toy_platform (Some example_garbled) example_world) = Some example_garbled \<and>
   fst (decryptFile toy_platform (Some example_garbled) example_world) = Some example_garbled \<and>
   getFileContent 1 example_garbled_db = Inr (Some example_garbled) \<and>
   file_encrypted example_garbled_file = Some True \<and>
   getSeedPhrase toy_platform
       (snd (decryptFileContent toy_platform (Some example_garbled) example_world)) =
     (Inr ''test phrase'', example_world\<lparr>trace := [EvDecrypt, EvGetSeedPhrase, EvDecrypt]\<rparr>) \<and>
   (\<exists>salt iv. fst (exportFileToPV toy_platform example_garbled_db (1, example_garbled_file)
                      example_world) =
      Inr (pv_header_bytes salt iv
             (text_encode (json_stringify toy_platform (file_metadata example_garbled_file))) @
           aes_gcm_encrypt toy_platform
             (pbkdf2 toy_platform (text_encode ''test phrase'') salt ITERATION_COUNT) iv
             example_garbled))"
proof -
  have g: "getFileContent (fst (1 :: nat, example_garbled_file)) example_garbled_db =
      Inr (Some example_garbled)"
    using example_garbled_db_content by simp
  have e: "file_encrypted (snd (1 :: nat, example_garbled_file)) = Some True"
    by (simp add: example_garbled_file_def)
  have s: "getSeedPhrase toy_platform
       (snd (decryptFileContent toy_platform (Some example_garbled) example_world)) =
     (Inr ''test phrase'', example_world\<lparr>trace := [EvDecrypt, EvGetSeedPhrase, EvDecrypt]\<rparr>)"
    using example_seed_phrase [of "[EvDecrypt]"] by (simp add: example_garbled_decrypt)
  have z: "\<not> file_size (snd (1 :: nat, example_garbled_file)) > int LARGE_FILE_THRESHOLD"
    by (simp add: example_garbled_file_def LARGE_FILE_THRESHOLD_def)
  from decrypt_failure_returns_input [OF example_world_key example_garbled_fails,
      of "(1, example_garbled_file)" example_garbled_db "''test phrase''"
        "example_world\<lparr>trace := [EvDecrypt, EvGetSeedPhrase, EvDecrypt]\<rparr>"]
    g e s z example_world_key example_garbled_fails
  show ?thesis by (simp add: export_ciphertext_def)
qed

text \<open>
  The claim as stated fails: on a blob whose tag does not verify, the step yields its
  input bytes.
\<close>

theorem decrypt_failure_reported_counterexample:
  "aes_gcm_decrypt toy_platform example_key (take 12 example_garbled) (drop 12 example_garbled) = None \<and>
   decryptFileContent toy_platform (Some example_garbled) example_world =
     (Some example_garbled, log_event EvDecrypt example_world)"
  using example_garbled_fails
  by (simp add: decryptFileContent_def getOrCreateEncryptionKey_def importKey_aes_def resolve_def
      subtle_decrypt_def example_world_def example_key_def)

subsection \<open>Storage statistics\<close>

lemma double_exponent_small: "a < 2 ^ 53 \<Longrightarrow> double_exponent a = 0"
  by (subst double_exponent.simps) simp

lemma double_exponent_53: "double_exponent (2 ^ 53) = 1"
  by (subst double_exponent.simps) (simp add: double_exponent_small)

lemma round_magnitude_exact:
  assumes "a \<le> 2 ^ 53"
  shows "round_magnitude a = a"
proof (cases "a < 2 ^ 53")
  case True
  then show ?thesis by (simp add: round_magnitude_def double_exponent_small Let_def)
next
  case False
  with assms have a: "a = 2 ^ 53" by simp
  show ?thesis
    unfolding a round_magnitude_def double_exponent_53 Let_def by simp
qed

lemma round_to_double_exact:
  assumes "\<bar>x\<bar> \<le> 2 ^ 53"
  shows "round_to_double x = Num x"
proof -
  from assms have n: "nat \<bar>x\<bar> \<le> 2 ^ 53" by (simp add: nat_le_iff)
  have "(2 :: nat) ^ 53 < 2 ^ 1024" by (rule power_strict_increasing) simp_all
  with n have "nat \<bar>x\<bar> < 2 ^ 1024" by (rule le_less_trans)
  then have b: "\<not> 2 ^ 1024 \<le> nat \<bar>x\<bar>" by (simp only: not_le)
  have "(if x < 0 then - int (nat \<bar>x\<bar>) else int (nat \<bar>x\<bar>)) = x" by simp
  then show ?thesis
    unfolding round_to_double_def round_magnitude_exact [OF n] Let_def
    by (simp only: b if_False)
qed

lemma foldl_js_add_exact:
  assumes "\<forall>v \<in> set vs. 0 \<le> v" and "0 \<le> a" and "a + sum_list vs \<le> 2 ^ 53"
  shows "foldl (\<lambda>acc v. js_add acc (Num v)) (Num a) vs = Num (a + sum_list vs)"
  using assms
proof (induction vs arbitrary: a)
  case Nil
  then show ?case by simp
next
  case (Cons v vs)
  from Cons.prems have v: "0 \<le> v" and s: "0 \<le> sum_list vs"
    by (simp_all add: sum_list_nonneg)
  with Cons.prems have "\<bar>a + v\<bar> \<le> 2 ^ 53" by simp
  then have r: "round_to_double (a + v) = Num (a + v)" by (rule round_to_double_exact)
  from Cons.prems v have "foldl (\<lambda>acc v. js_add acc (Num v)) (Num (a + v)) vs =
      Num (a + v + sum_list vs)"
    by (intro Cons.IH) (simp_all add: add.assoc)
  then show ?case by (simp add: r add.assoc)
qed

lemma foldl_map_sizes:
  "foldl (\<lambda>acc r. js_add acc (Num (g r))) a rs = foldl (\<lambda>acc v. js_add acc (Num v)) a (map g rs)"
  by (induction rs arbitrary: a) simp_all

text \<open>
  Claim C9, as the code has it.  For any stores, and so after any sequence of store
  operations, \<open>fileCount\<close> and \<open>trashCount\<close> are the numbers of records of the file store
  and of the trash store.  When the sizes of the records of the file store are not negative
  and their sum is at most \<open>2^53\<close>, \<open>used\<close> is that sum; likewise \<open>trashSize\<close> for the trash
  store.  The sums are computed in double-precision arithmetic, which is exact in this range.
\<close>

theorem storage_stats_sums:
  "fileCount (getStorageStats d) = length (store_getAll (files d)) \<and>
   trashCount (getStorageStats d) = length (store_getAll (trash d)) \<and>
   ((\<forall>r \<in> set (store_getAll (files d)). 0 \<le> file_size (snd r)) \<and>
    sum_list (map (\<lambda>r. file_size (snd r)) (store_getAll (files d))) \<le> 2 ^ 53 \<longrightarrow>
      used (getStorageStats d) =
        Num (sum_list (map (\<lambda>r. file_size (snd r)) (store_getAll (files d))))) \<and>
   ((\<forall>r \<in> set (store_getAll (trash d)). 0 \<le> trash_size (snd r)) \<and>
    sum_list (map (\<lambda>r. trash_size (snd r)) (store_getAll (trash d))) \<le> 2 ^ 53 \<longrightarrow>
      trashSize (getStorageStats d) =
        Num (sum_list (map (\<lambda>r. trash_size (snd r)) (store_getAll (trash d)))))"
proof (intro conjI impI)
  show "fileCount (getStorageStats d) = length (store_getAll (files d))"
    by (simp add: getStorageStats_def Let_def)
  show "trashCount (getStorageStats d) = length (store_getAll (trash d))"
    by (simp add: getStorageStats_def Let_def)
next
  assume a: "(\<forall>r \<in> set (store_getAll (files d)). 0 \<le> file_size (snd r)) \<and>
    sum_list (map (\<lambda>r. file_size (snd r)) (store_getAll (files d))) \<le> 2 ^ 53"
  then have "foldl (\<lambda>acc v. js_add acc (Num v)) (Num 0)
       (map (\<lambda>r. file_size (snd r)) (store_getAll (files d))) =
     Num (0 + sum_list (map (\<lambda>r. file_size (snd r)) (store_getAll (files d))))"
    by (intro foldl_js_add_exact) auto
  then show "used (getStorageStats d) =
        Num (sum_list (map (\<lambda>r. file_size (snd r)) (store_getAll (files d))))"
    using foldl_map_sizes [of "\<lambda>r. file_size (snd r)" "Num 0" "store_getAll (files d)"]
    by (simp add: getStorageStats_def Let_def)
next
  assume a: "(\<forall>r \<in> set (store_getAll (trash d)). 0 \<le> trash_size (snd r)) \<and>
    sum_list (map (\<lambda>r. trash_size (snd r)) (store_getAll (trash d))) \<le> 2 ^ 53"
  then have "foldl (\<lambda>acc v. js_add acc (Num v)) (Num 0)
       (map (\<lambda>r. trash_size (snd r)) (store_getAll (trash d))) =
     Num (0 + sum_list (map (\<lambda>r. trash_size (snd r)) (store_getAll (trash d))))"
    by (intro foldl_js_add_exact) auto
  then show "trashSize (getStorageStats d) =
        Num (sum_list (map (\<lambda>r. trash_size (snd r)) (store_getAll (trash d))))"
    using foldl_map_sizes [of "\<lambda>r. trash_size (snd r)" "Num 0" "store_getAll (trash d)"]
    by (simp add: getStorageStats_def Let_def)
qed

lemma example_db_sizes:
  "map (\<lambda>r. file_size (snd r)) (store_getAll (files example_db)) = [3]"
  "map (\<lambda>r. trash_size (snd r)) (store_getAll (trash example_db)) = [3, 0]"
  by (simp_all add: db_eval store_getAll_def)

text \<open>The example database: one file of 3 bytes, and a file of 3 bytes and a folder in the trash.\<close>

theorem storage_stats_sums_witness:
  "map (\<lambda>r. file_size (snd r)) (store_getAll (files example_db)) = [3] \<and>
   map (\<lambda>r. trash_size (snd r)) (store_getAll (trash example_db)) = [3, 0] \<and>
   used (getStorageStats example_db) = Num 3 \<and>
   trashSize (getStorageStats example_db) = Num 3 \<and>
   fileCount (getStorageStats example_db) = 1 \<and>
   trashCount (getStorageStats example_db) = 2"
proof -
  have f: "\<forall>r \<in> set (store_getAll (files example_db)). 0 \<le> file_size (snd r)"
  proof
    fix r assume "r \<in> set (store_getAll (files example_db))"
    then have "file_size (snd r) \<in> set (map (\<lambda>r. file_size (snd r)) (store_getAll (files example_db)))"
      by simp
    then show "0 \<le> file_size (snd r)" unfolding example_db_sizes by simp
  qed
  have t: "\<forall>r \<in> set (store_getAll (trash example_db)). 0 \<le> trash_size (snd r)"
  proof
    fix r assume "r \<in> set (store_getAll (trash example_db))"
    then have "trash_size (snd r) \<in> set (map (\<lambda>r. trash_size (snd r)) (store_getAll (trash example_db)))"
      by simp
    then show "0 \<le> trash_size (snd r)" unfolding example_db_sizes by auto
  qed
  have lf: "length (store_getAll (files example_db)) = 1"
    using arg_cong [OF example_db_sizes(1), of length] by simp
  have lt: "length (store_getAll (trash example_db)) = 2"
    using arg_cong [OF example_db_sizes(2), of length] by simp
  have sf: "sum_list (map (\<lambda>r. file_size (snd r)) (store_getAll (files example_db))) \<le> 2 ^ 53"
    unfolding example_db_sizes by simp
  have st: "sum_list (map (\<lambda>r. trash_size (snd r)) (store_getAll (trash example_db))) \<le> 2 ^ 53"
    unfolding example_db_sizes by simp
  from storage_stats_sums [of example_db] f t sf st
  have "fileCount (getStorageStats example_db) = length (store_getAll (files example_db))"
    "trashCount (getStorageStats example_db) = length (store_getAll (trash example_db))"
    "used (getStorageStats example_db) =
        Num (sum_list (map (\<lambda>r. file_size (snd r)) (store_getAll (files example_db))))"
    "trashSize (getStorageStats example_db) =
        Num (sum_list (map (\<lambda>r. trash_size (snd r)) (store_getAll (trash example_db))))"
    by blast+
  then show ?thesis unfolding example_db_sizes lf lt using example_db_sizes by simp
qed

lemma double_exponent_54: "double_exponent 9007199254740993 = 1"
  by (subst double_exponent.simps) (simp add: double_exponent_small)

lemma round_to_double_example: "round_to_double 9007199254740993 = Num 9007199254740992"
  by (simp add: round_to_double_def round_magnitude_def double_exponent_54 Let_def)

text \<open>
  The claim as stated fails: with a file of \<open>2^53 - 1\<close> bytes and a file of 2 bytes the sum of
  the sizes is \<open>2^53 + 1\<close>, which is not a double, and \<open>used\<close> is \<open>2^53\<close>.
\<close>

theorem storage_stats_exact_sum_counterexample:
  "map (\<lambda>r. file_size (snd r)) (store_getAll (files example_huge_db)) = [9007199254740991, 2] \<and>
   sum_list (map (\<lambda>r. file_size (snd r)) (store_getAll (files example_huge_db))) = 9007199254740993 \<and>
   used (getStorageStats example_huge_db) = Num 9007199254740992"
proof -
  have s: "store_getAll (files example_huge_db) =
      [(1, example_file ''a'' None\<lparr>file_size := 9007199254740991\<rparr>),
       (2, example_file ''b'' None\<lparr>file_size := 2\<rparr>)]"
    by (simp add: example_huge_db_def perform_all_def saveFile_def store_add_def empty_db_def
        empty_store_def store_getAll_def Let_def)
  have e: "round_to_double 9007199254740991 = Num 9007199254740991"
    by (rule round_to_double_exact) simp
  show ?thesis
    unfolding getStorageStats_def Let_def s
    by (simp add: e round_to_double_example)
qed

end
